(* ===== verification/Prelude.thy ===== *)
theory Prelude
  imports Main
begin

text \<open>
  Shared vocabulary of the development: tables as lists of rows in insertion order and the
  relational operations the SQL statements of the services are made of, the kinds of
  failure an external call can have, and the generic lemmas on them that the component
  theories use through the collections declared here.
\<close>

named_theorems table_simps \<open>rewriting of the table operations\<close>
named_theorems handler_defs \<open>definitions unfolded when a handler is run symbolically\<close>

section \<open>Tables\<close>

text \<open>
  \<open>update_where P f t\<close> is \<open>UPDATE t SET f WHERE P\<close>, \<open>count_where P t\<close> is both
  \<open>SELECT count(*) WHERE P\<close> and the number of rows such an update affects, \<open>find_row P t\<close>
  is the row a single-row query scans (\<open>None\<close> is pgx's \<open>ErrNoRows\<close>), and
  \<open>insert_new k r t\<close> is \<open>INSERT ... ON CONFLICT(k) DO NOTHING\<close>.
\<close>

definition update_where :: "('r \<Rightarrow> bool) \<Rightarrow> ('r \<Rightarrow> 'r) \<Rightarrow> 'r list \<Rightarrow> 'r list" where
  "update_where P f t = map (\<lambda>r. if P r then f r else r) t"

definition count_where :: "('r \<Rightarrow> bool) \<Rightarrow> 'r list \<Rightarrow> nat" where
  "count_where P t = length (filter P t)"

definition find_row :: "('r \<Rightarrow> bool) \<Rightarrow> 'r list \<Rightarrow> 'r option" where
  "find_row P t = List.find P t"

definition insert_new :: "('r \<Rightarrow> 'k) \<Rightarrow> 'r \<Rightarrow> 'r list \<Rightarrow> 'r list" where
  "insert_new k r t = (if k r \<in> k ` set t then t else t @ [r])"

lemma update_where_Nil [simp]: "update_where P f [] = []"
  by (simp add: update_where_def)

lemma update_where_Cons [simp]:
  "update_where P f (r # t) = (if P r then f r else r) # update_where P f t"
  by (simp add: update_where_def)

lemma length_update_where [simp, table_simps]: "length (update_where P f t) = length t"
  by (simp add: update_where_def)

lemma in_update_where:
  "r' \<in> set (update_where P f t) \<longleftrightarrow> (\<exists>r\<in>set t. r' = (if P r then f r else r))"
  by (auto simp: update_where_def)

lemma map_update_where [table_simps]:
  assumes "\<And>r. P r \<Longrightarrow> k (f r) = k r"
  shows "map k (update_where P f t) = map k t"
  using assms by (induction t) auto

lemma image_update_where:
  assumes "\<And>r. P r \<Longrightarrow> k (f r) = k r"
  shows "k ` set (update_where P f t) = k ` set t"
proof -
  have "map k (update_where P f t) = map k t"
    using assms by (rule map_update_where)
  then have "set (map k (update_where P f t)) = set (map k t)" by (rule arg_cong)
  then show ?thesis by simp
qed

lemma count_where_Nil [simp]: "count_where P [] = 0"
  by (simp add: count_where_def)

lemma count_where_Cons [simp]:
  "count_where P (r # t) = (if P r then Suc (count_where P t) else count_where P t)"
  by (simp add: count_where_def)

lemma count_where_append [simp]: "count_where P (s @ t) = count_where P s + count_where P t"
  by (simp add: count_where_def)

lemma count_where_0 [simp]: "count_where P t = 0 \<longleftrightarrow> (\<forall>r\<in>set t. \<not> P r)"
  by (induction t) auto

lemma count_where_mono: "(\<And>r. r \<in> set t \<Longrightarrow> P r \<Longrightarrow> Q r) \<Longrightarrow> count_where P t \<le> count_where Q t"
  by (induction t) (auto simp: le_SucI)

lemma update_where_id: "\<forall>r\<in>set t. \<not> P r \<Longrightarrow> update_where P f t = t"
  by (induction t) auto

lemma update_where_no_match: "count_where P t = 0 \<Longrightarrow> update_where P f t = t"
  by (simp add: update_where_id)

lemma count_unique_key:
  assumes "distinct (map k t)" and "\<And>r. P r \<Longrightarrow> k r = i"
  shows "count_where P t \<le> 1"
  using assms
proof (induction t)
  case Nil
  then show ?case by simp
next
  case (Cons r t)
  show ?case
  proof (cases "P r")
    case True
    with Cons.prems have "\<forall>x\<in>set t. \<not> P x" by (fastforce simp: image_iff)
    with True show ?thesis by simp
  next
    case False
    with Cons show ?thesis by simp
  qed
qed

text \<open>
  How an update that touches at most one row changes a count: by at most one, and not at
  all unless the touched row starts to satisfy the counted predicate.
\<close>

lemma count_update_le:
  assumes "\<And>r. r \<in> set t \<Longrightarrow> P r \<Longrightarrow> Q (f r) \<Longrightarrow> Q r"
  shows "count_where Q (update_where P f t) \<le> count_where Q t"
  using assms by (induction t) (auto simp: le_SucI)

lemma count_update_Suc:
  "count_where Q (update_where P f t) \<le> count_where Q t + count_where P t"
  by (induction t) auto

lemma count_update_same:
  assumes "\<And>r. r \<in> set t \<Longrightarrow> P r \<Longrightarrow> Q (f r) = Q r"
  shows "count_where Q (update_where P f t) = count_where Q t"
  using assms by (induction t) auto

lemma find_row_Some:
  "find_row P t = Some r \<Longrightarrow> r \<in> set t \<and> P r"
  by (auto simp: find_row_def find_Some_iff)

lemma find_row_None: "find_row P t = None \<longleftrightarrow> (\<forall>r\<in>set t. \<not> P r)"
  by (auto simp: find_row_def find_None_iff)

lemma find_row_Nil [simp]: "find_row P [] = None"
  by (simp add: find_row_def)

lemma find_row_Cons [simp]:
  "find_row P (r # t) = (if P r then Some r else find_row P t)"
  by (simp add: find_row_def)

lemma find_row_None_count: "find_row P t = None \<longleftrightarrow> count_where P t = 0"
  by (simp add: find_row_None)

lemma find_row_append:
  "find_row P (s @ t) = (case find_row P s of None \<Rightarrow> find_row P t | Some r \<Rightarrow> Some r)"
  by (induction s) auto

lemma distinct_map_eq: "distinct (map k t) \<Longrightarrow> r \<in> set t \<Longrightarrow> s \<in> set t \<Longrightarrow> k r = k s \<Longrightarrow> r = s"
  by (meson distinct_map inj_onD)

lemma find_row_unique:
  assumes "distinct (map k t)" "r \<in> set t" "P r" "\<And>x. P x \<Longrightarrow> k x = k r"
  shows "find_row P t = Some r"
proof (cases "find_row P t")
  case None
  with assms show ?thesis by (auto simp: find_row_None)
next
  case (Some x)
  then have "x \<in> set t" "P x" by (auto dest: find_row_Some)
  with assms have "x = r" by (meson distinct_map_eq)
  with Some show ?thesis by simp
qed

lemma distinct_insert_new: "distinct (map k t) \<Longrightarrow> distinct (map k (insert_new k r t))"
  by (simp add: insert_new_def)

lemma set_insert_new: "set (insert_new k r t) \<subseteq> insert r (set t)"
  by (auto simp: insert_new_def)

lemma subset_insert_new: "set t \<subseteq> set (insert_new k r t)"
  by (auto simp: insert_new_def)

lemma key_insert_new [simp]: "k ` set (insert_new k r t) = insert (k r) (k ` set t)"
  by (auto simp: insert_new_def)

lemma insert_new_twice [simp]: "insert_new k r (insert_new k r t) = insert_new k r t"
  by (auto simp: insert_new_def)

section \<open>The insert-or-ignore interface\<close>

text \<open>
  Several components rely on one contract: a store into which a row goes at most once per
  key, a repeated insertion being a no-op. The laws are stated once; each table that the
  code protects with \<open>ON CONFLICT ... DO NOTHING\<close> interprets them.
\<close>

locale keyed_store =
  fixes put :: "'r \<Rightarrow> 'db \<Rightarrow> 'db"
    and rows :: "'db \<Rightarrow> 'r list"
    and key :: "'r \<Rightarrow> 'k"
  assumes put_known: "key r \<in> key ` set (rows d) \<Longrightarrow> put r d = d"
    and rows_put: "key r \<notin> key ` set (rows d) \<Longrightarrow> rows (put r d) = rows d @ [r]"
begin

lemma key_put: "key ` set (rows (put r d)) = insert (key r) (key ` set (rows d))"
  by (cases "key r \<in> key ` set (rows d)") (auto simp: put_known rows_put)

lemma put_twice: "put r (put r d) = put r d"
  by (rule put_known) (simp add: key_put)

lemma put_same_key: "key s = key r \<Longrightarrow> put s (put r d) = put r d"
  by (rule put_known) (simp add: key_put)

lemma distinct_put: "distinct (map key (rows d)) \<Longrightarrow> distinct (map key (rows (put r d)))"
  by (cases "key r \<in> key ` set (rows d)") (auto simp: put_known rows_put)

lemma replay: "set rs \<subseteq> {r. key r \<in> key ` set (rows d)} \<Longrightarrow> fold put rs d = d"
  by (induction rs) (auto simp: put_known)

lemma key_fold: "key ` set (rows (fold put rs d)) = key ` set (rows d) \<union> key ` set rs"
  by (induction rs arbitrary: d) (auto simp: key_put)

text \<open>Replaying a whole history, in any order and any number of times, changes nothing.\<close>

lemma replay_history:
  assumes "set rs' \<subseteq> set rs"
  shows "fold put rs' (fold put rs d) = fold put rs d"
  using assms by (intro replay) (auto simp: key_fold)

lemma count_le_1: "distinct (map key (rows d)) \<Longrightarrow> count_where (\<lambda>r. key r = k) (rows d) \<le> 1"
  by (rule count_unique_key [where k = key and i = k]) simp_all

text \<open>A weight summed over the rows grows by the weight of each first occurrence only.\<close>

lemma weight_put:
  fixes w :: "'r \<Rightarrow> int"
  shows "sum_list (map w (rows (put r d))) =
    sum_list (map w (rows d)) + (if key r \<in> key ` set (rows d) then 0 else w r)"
  by (cases "key r \<in> key ` set (rows d)") (auto simp: put_known rows_put)

end

section \<open>Runs of a step relation and their invariants\<close>

text \<open>
  A run is a list of labelled steps: the interleaving of the statements of any number of
  concurrent handlers is such a list.
\<close>

inductive runs :: "('s \<Rightarrow> 'l \<Rightarrow> 's \<Rightarrow> bool) \<Rightarrow> 's \<Rightarrow> 'l list \<Rightarrow> 's \<Rightarrow> bool"
  for step :: "'s \<Rightarrow> 'l \<Rightarrow> 's \<Rightarrow> bool" where
  runs_Nil [simp, intro]: "runs step s [] s"
| runs_Cons: "step s l s' \<Longrightarrow> runs step s' ls s'' \<Longrightarrow> runs step s (l # ls) s''"

inductive_cases runs_NilE [elim!]: "runs step s [] s'"
inductive_cases runs_ConsE [elim!]: "runs step s (l # ls) s'"

lemma runs_single: "step s l s' \<Longrightarrow> runs step s [l] s'"
  by (rule runs_Cons) auto

lemma runs_append: "runs step s ls s' \<Longrightarrow> runs step s' ls' s'' \<Longrightarrow> runs step s (ls @ ls') s''"
  by (induction rule: runs.induct) (auto intro: runs_Cons)

lemma runs_trans: "\<exists>ls. runs step s ls s' \<Longrightarrow> \<exists>ls. runs step s' ls s'' \<Longrightarrow> \<exists>ls. runs step s ls s''"
  by (meson runs_append)

locale step_invariant =
  fixes step :: "'s \<Rightarrow> 'l \<Rightarrow> 's \<Rightarrow> bool"
    and inv :: "'s \<Rightarrow> bool"
  assumes inv_step: "step s l s' \<Longrightarrow> inv s \<Longrightarrow> inv s'"
begin

lemma inv_runs: "runs step s ls s' \<Longrightarrow> inv s \<Longrightarrow> inv s'"
  by (induction rule: runs.induct) (auto intro: inv_step)

end

section \<open>Failures of external calls\<close>

text \<open>
  A handler makes a sequence of calls to PostgreSQL, Redis, DBOS and other services, each
  of which can return an error. \<open>f k\<close> says that the \<open>k\<close>-th call of the handler fails:
  it then has no effect and the handler takes its error branch. A failure stands for every
  error the call can return, a rejected parameter included.
\<close>

type_synonym faults = "nat \<Rightarrow> bool"

definition no_faults :: faults where
  "no_faults k = False"

definition fault_at :: "nat \<Rightarrow> faults" where
  "fault_at i k = (k = i)"

declare no_faults_def [simp] fault_at_def [simp]

section \<open>A client and the services it calls\<close>

text \<open>
  A list of calls served one after the other: \<open>serve\<close> gives the new state, the workflows or
  other effects a call sets off, and the answer; \<open>clk k\<close> is what the \<open>k\<close>th call draws (its
  time, identifiers). The log pairs each call with its answer.
\<close>

fun run_calls ::
    "('m \<Rightarrow> 'c \<Rightarrow> 's \<Rightarrow> 's \<times> 'w list \<times> 'x) \<Rightarrow> (nat \<Rightarrow> 'm) \<Rightarrow> 'c list \<Rightarrow> 's \<Rightarrow> 's \<times> 'w list \<times> ('c \<times> 'x) list" where
  "run_calls serve clk [] s = (s, [], [])"
| "run_calls serve clk (c # cs) s =
     (let (s', ws, x) = serve (clk 0) c s;
          (s'', ws', log) = run_calls serve (\<lambda>k. clk (Suc k)) cs s'
      in (s'', ws @ ws', (c, x) # log))"

lemma run_calls_append:
  "run_calls serve clk (cs @ cs') s =
     (let (s', ws, log) = run_calls serve clk cs s;
          (s'', ws', log') = run_calls serve (\<lambda>k. clk (length cs + k)) cs' s'
      in (s'', ws @ ws', log @ log'))"
  by (induction cs arbitrary: clk s) (simp_all add: Let_def split_def)

lemma run_calls_log: "map fst (snd (snd (run_calls serve clk cs s))) = cs"
  by (induction cs arbitrary: clk s) (simp_all add: Let_def split_def)

text \<open>Calls that touch nothing.\<close>

lemma run_calls_idle:
  "(\<And>c n s. c \<in> set cs \<Longrightarrow> serve n c s = (s, [], x)) \<Longrightarrow>
     run_calls serve clk cs s = (s, [], map (\<lambda>c. (c, x)) cs)"
  by (induction cs arbitrary: clk) (simp_all add: Let_def)

text \<open>
  A client that works while its lease lasts: \<open>beat\<close> is its heartbeat, which the server grants
  as long as \<open>holding n\<close> (the lease is held and \<open>n\<close> more calls are admitted), and \<open>silent\<close>
  calls go elsewhere. Heartbeats and silent calls keep \<open>same\<close>, what the client relies on.
\<close>

locale working_session =
  fixes serve :: "'m \<Rightarrow> 'c \<Rightarrow> 's \<Rightarrow> 's \<times> 'w list \<times> 'x option"
    and beat :: 'c and granted :: 'x
    and holding :: "nat \<Rightarrow> 's \<Rightarrow> bool" and same :: "'s \<Rightarrow> 's \<Rightarrow> bool" and silent :: "'c \<Rightarrow> bool"
  assumes beat_granted: "holding (Suc n) s \<Longrightarrow> \<exists>s'. serve m beat s = (s', [], Some granted) \<and> holding n s' \<and> same s s'"
    and silent_elsewhere: "silent c \<Longrightarrow> serve m c s = (s, [], None)"
    and same_refl: "same s s" and same_trans: "same s s' \<Longrightarrow> same s' s'' \<Longrightarrow> same s s''"
begin

lemma session_beats:
  "holding (k + n) s \<Longrightarrow> \<exists>s'. run_calls serve clk (replicate k beat) s =
     (s', [], replicate k (beat, Some granted)) \<and> holding n s' \<and> same s s'"
proof (induction k arbitrary: s clk)
  case 0
  then show ?case by (simp add: same_refl)
next
  case (Suc k)
  obtain s1 where one: "serve (clk 0) beat s = (s1, [], Some granted)" "holding (k + n) s1" "same s s1"
    using beat_granted [of "k + n" s "clk 0"] Suc.prems by auto
  from Suc.IH [OF one(2), of "\<lambda>j. clk (Suc j)"] obtain s2 where
    "run_calls serve (\<lambda>j. clk (Suc j)) (replicate k beat) s1 = (s2, [], replicate k (beat, Some granted))"
    "holding n s2" "same s1 s2" by blast
  with one show ?case by (auto intro: same_trans)
qed

lemma session_before_report:
  assumes "holding (k + n) s" "silent t" "\<And>c. c \<in> set cs \<Longrightarrow> silent c"
  obtains s' where "run_calls serve clk (t # replicate k beat @ cs) s =
      (s', [], (t, None) # replicate k (beat, Some granted) @ map (\<lambda>c. (c, None)) cs)"
    "holding n s'" "same s s'"
proof -
  from session_beats [OF assms(1), of "\<lambda>j. clk (Suc j)"] obtain s1 where
    b: "run_calls serve (\<lambda>j. clk (Suc j)) (replicate k beat) s = (s1, [], replicate k (beat, Some granted))"
    "holding n s1" "same s s1" by blast
  have "run_calls serve clk' cs s1 = (s1, [], map (\<lambda>c. (c, None)) cs)" for clk'
    by (rule run_calls_idle) (use assms(3) silent_elsewhere in blast)
  then have "run_calls serve clk (t # replicate k beat @ cs) s =
      (s1, [], (t, None) # replicate k (beat, Some granted) @ map (\<lambda>c. (c, None)) cs)"
    using b(1) silent_elsewhere [OF assms(2)] by (simp add: run_calls_append)
  then show ?thesis using b(2,3) by (rule that)
qed

end

end
