(* ===== verification/Domain.thy ===== *)
theory Domain
  imports Prelude
begin

text \<open>
  \<open>internal/domain/state.go\<close>: the status of an operation, the transition table the code
  intends, the terminal statuses and the bounded retry delay.
\<close>

section \<open>Operation statuses\<close>

text \<open>
  \<open>OperationStatus\<close> is a Go string type with eight named constants. A value that is none
  of them (the empty string of a scan that failed, say) is \<open>OtherStatus\<close> of the string.
\<close>

datatype OperationStatus =
  Pending | Queued | Running | Succeeded | Failed | Retrying | DeadLettered | Cancelled
| OtherStatus string

fun status_string :: "OperationStatus \<Rightarrow> string" where
  "status_string Pending = ''PENDING''"
| "status_string Queued = ''QUEUED''"
| "status_string Running = ''RUNNING''"
| "status_string Succeeded = ''SUCCEEDED''"
| "status_string Failed = ''FAILED''"
| "status_string Retrying = ''RETRYING''"
| "status_string DeadLettered = ''DEAD_LETTERED''"
| "status_string Cancelled = ''CANCELLED''"
| "status_string (OtherStatus s) = s"

definition statuses :: "OperationStatus list" where
  "statuses = [Pending, Queued, Running, Succeeded, Failed, Retrying, DeadLettered, Cancelled]"

definition status_of :: "string \<Rightarrow> OperationStatus" where
  "status_of s =
     (if s = ''PENDING'' then Pending else if s = ''QUEUED'' then Queued
      else if s = ''RUNNING'' then Running else if s = ''SUCCEEDED'' then Succeeded
      else if s = ''FAILED'' then Failed else if s = ''RETRYING'' then Retrying
      else if s = ''DEAD_LETTERED'' then DeadLettered
      else if s = ''CANCELLED'' then Cancelled else OtherStatus s)"

lemma status_string_of [simp]: "status_string (status_of s) = s"
  by (simp add: status_of_def)

lemma status_of_string: "x \<in> set statuses \<Longrightarrow> status_of (status_string x) = x"
  by (cases x) (simp_all add: status_of_def statuses_def)

lemma status_string_inj: "x \<in> set statuses \<Longrightarrow> y \<in> set statuses \<Longrightarrow>
    status_string x = status_string y \<Longrightarrow> x = y"
  by (metis status_of_string)

section \<open>The transition table\<close>

fun transitions :: "OperationStatus \<Rightarrow> OperationStatus list" where
  "transitions Pending = [Queued, Cancelled]"
| "transitions Queued = [Running, Cancelled]"
| "transitions Running = [Succeeded, Failed, Retrying, DeadLettered, Cancelled]"
| "transitions Failed = [Retrying, DeadLettered, Cancelled]"
| "transitions Retrying = [Queued, Running, DeadLettered, Cancelled]"
| "transitions _ = []"

definition CanTransition :: "OperationStatus \<Rightarrow> OperationStatus \<Rightarrow> bool" where
  "CanTransition from to = (to \<in> set (transitions from))"

definition IsTerminal :: "OperationStatus \<Rightarrow> bool" where
  "IsTerminal status = (status = Succeeded \<or> status = DeadLettered \<or> status = Cancelled)"

section \<open>The retry delay\<close>

text \<open>
  A \<open>time.Duration\<close> counts nanoseconds in an \<open>int64\<close>. The argument is clamped before the
  shift, so neither the shift nor the product leaves the range of the type.
\<close>

definition second :: int where
  "second = 1000000000"

definition RetryDelay :: "int \<Rightarrow> int" where
  "RetryDelay attempt =
     (let attempt = (if attempt < 1 then 1 else attempt);
          attempt = (if attempt > 6 then 6 else attempt)
      in push_bit (nat attempt) 1 * second)"

lemma RetryDelay_eq: "RetryDelay a = 2 ^ nat (max 1 (min 6 a)) * second"
  by (auto simp: RetryDelay_def Let_def push_bit_eq_mult max_def min_def)

lemma second_pos [simp]: "0 < second"
  by (simp add: second_def)

end
