(* ===== verification/GoStd.thy ===== *)
theory GoStd
  imports Prelude
begin

text \<open>
  The parts of Go's standard library the services use on strings (\<open>strings\<close>, \<open>strconv\<close>,
  \<open>encoding/hex\<close>, \<open>encoding/base64\<close>, \<open>net/url\<close>, \<open>net/textproto\<close>). A Go string is its
  list of bytes; the case-mapping and trimming functions are given on ASCII, the range the
  code applies them to (header values, e-mail addresses, header names).
\<close>

section \<open>Package strings\<close>

definition has_prefix :: "string \<Rightarrow> string \<Rightarrow> bool" where
  "has_prefix s p = (take (length p) s = p)"

lemma has_prefix_append [simp]: "has_prefix (p @ s) p"
  by (simp add: has_prefix_def)

definition is_space :: "char \<Rightarrow> bool" where
  "is_space c = (c \<in> {CHR '' '', CHR 0x09, CHR 0x0A, CHR 0x0B, CHR 0x0C, CHR 0x0D})"

definition trim_space :: "string \<Rightarrow> string" where
  "trim_space s = rev (dropWhile is_space (rev (dropWhile is_space s)))"

lemma trim_space_id: "\<forall>c\<in>set s. \<not> is_space c \<Longrightarrow> trim_space s = s"
proof -
  assume "\<forall>c\<in>set s. \<not> is_space c"
  then have "dropWhile is_space s = s" "dropWhile is_space (rev s) = rev s"
    by (auto simp: dropWhile_eq_self_iff hd_rev)
  then show ?thesis by (simp add: trim_space_def)
qed

lemma trim_space_idem: "trim_space (trim_space s) = trim_space s"
proof -
  define u where "u = dropWhile is_space s"
  have u: "u = [] \<or> \<not> is_space (hd u)"
    unfolding u_def by (metis hd_dropWhile)
  define w where "w = rev (dropWhile is_space (rev u))"
  have w: "dropWhile is_space (rev w) = rev w"
    unfolding w_def by (simp add: dropWhile_idem)
  have "dropWhile is_space w = w"
  proof (cases "w = []")
    case False
    have "\<exists>v. u = w @ v"
      unfolding w_def by (metis rev_append rev_rev_ident takeWhile_dropWhile_id)
    with False u have "\<not> is_space (hd w)" by (metis Nil_is_append_conv hd_append2)
    with False show ?thesis by (simp add: dropWhile_eq_self_iff)
  qed simp
  with w show ?thesis by (simp add: trim_space_def u_def [symmetric] w_def [symmetric])
qed

definition lower_char :: "char \<Rightarrow> char" where
  "lower_char c = (let n = of_char c :: nat in
     if 65 \<le> n \<and> n \<le> 90 then char_of (n + 32) else c)"

definition upper_char :: "char \<Rightarrow> char" where
  "upper_char c = (let n = of_char c :: nat in
     if 97 \<le> n \<and> n \<le> 122 then char_of (n - 32) else c)"

definition to_lower :: "string \<Rightarrow> string" where
  "to_lower s = map lower_char s"

definition equal_fold :: "string \<Rightarrow> string \<Rightarrow> bool" where
  "equal_fold s t = (to_lower s = to_lower t)"

lemma lower_char_idem [simp]: "lower_char (lower_char c) = lower_char c"
  by (auto simp: lower_char_def Let_def of_char_mod_256)

lemma to_lower_idem [simp]: "to_lower (to_lower s) = to_lower s"
  by (simp add: to_lower_def)

text \<open>\<open>strings.SplitN(s, sep, 2)\<close> for a one-byte separator.\<close>

definition split_two :: "char \<Rightarrow> string \<Rightarrow> string list" where
  "split_two c s = (if c \<in> set s
     then [takeWhile (\<lambda>x. x \<noteq> c) s, tl (dropWhile (\<lambda>x. x \<noteq> c) s)] else [s])"

lemma split_two_append [simp]: "c \<notin> set a \<Longrightarrow> split_two c (a @ c # b) = [a, b]"
  by (auto simp: split_two_def takeWhile_append dropWhile_append)

lemma split_unique:
  fixes c :: char
  assumes "c \<notin> set a" "c \<notin> set a'" "a @ c # b = a' @ c # b'"
  shows "a = a' \<and> b = b'"
proof -
  have "split_two c (a @ c # b) = split_two c (a' @ c # b')" by (simp only: assms(3))
  then show ?thesis using assms(1,2) by simp
qed

section \<open>Package strconv\<close>

definition digit_char :: "nat \<Rightarrow> char" where
  "digit_char d = char_of (48 + d)"

fun nat_digits :: "nat \<Rightarrow> string" where
  "nat_digits n = (if n < 10 then [digit_char n]
     else nat_digits (n div 10) @ [digit_char (n mod 10)])"

declare nat_digits.simps [simp del]

text \<open>\<open>strconv.Itoa\<close>, which is also the \<open>%d\<close> of \<open>fmt\<close>.\<close>

definition itoa :: "int \<Rightarrow> string" where
  "itoa i = (if i < 0 then CHR ''-'' # nat_digits (nat (- i)) else nat_digits (nat i))"

definition digit_val :: "char \<Rightarrow> nat option" where
  "digit_val c = (let n = of_char c :: nat in if 48 \<le> n \<and> n \<le> 57 then Some (n - 48) else None)"

fun parse_digits :: "nat \<Rightarrow> string \<Rightarrow> nat option" where
  "parse_digits acc [] = Some acc"
| "parse_digits acc (c # cs) =
     (case digit_val c of None \<Rightarrow> None | Some d \<Rightarrow> parse_digits (10 * acc + d) cs)"

definition max_int64 :: int where
  "max_int64 = 9223372036854775807"

text \<open>
  \<open>strconv.Atoi\<close>: the value and whether it returned an error. A syntax error gives 0, a
  value out of range is clamped to the nearest \<open>int64\<close>.
\<close>

definition atoi :: "string \<Rightarrow> int \<times> bool" where
  "atoi s =
     (let (neg, ds) = (case s of [] \<Rightarrow> (False, [])
            | c # cs \<Rightarrow> if c = CHR ''-'' then (True, cs)
                else if c = CHR ''+'' then (False, cs) else (False, s))
      in if ds = [] then (0, True)
         else (case parse_digits 0 ds of
             None \<Rightarrow> (0, True)
           | Some n \<Rightarrow>
               let i = (if neg then - int n else int n)
               in if i > max_int64 then (max_int64, True)
                  else if i < - max_int64 - 1 then (- max_int64 - 1, True)
                  else (i, False)))"

lemma digit_val_char [simp]: "d < 10 \<Longrightarrow> digit_val (digit_char d) = Some d"
  by (simp add: digit_val_def digit_char_def of_char_of)

lemma parse_digits_append:
  "parse_digits acc (s @ t) = (case parse_digits acc s of None \<Rightarrow> None | Some n \<Rightarrow> parse_digits n t)"
  by (induction s arbitrary: acc) (auto split: option.splits)

lemma parse_nat_digits [simp]: "parse_digits 0 (nat_digits n) = Some n"
proof (induction n rule: nat_digits.induct)
  case (1 n)
  then show ?case
    by (cases "n < 10") (simp_all add: nat_digits.simps [of n] parse_digits_append)
qed

lemma nat_digits_inj: "nat_digits m = nat_digits n \<Longrightarrow> m = n"
  by (metis option.inject parse_nat_digits)

lemma nat_digits_set: "c \<in> set (nat_digits n) \<Longrightarrow> \<exists>d<10. c = digit_char d"
proof (induction n rule: nat_digits.induct)
  case (1 n)
  have "\<exists>d<10. digit_char (n mod 10) = digit_char d" by (rule exI [of _ "n mod 10"]) simp
  with 1 show ?case
    by (cases "n < 10") (auto simp: nat_digits.simps [of n])
qed

lemma digit_char_neq: "d < 10 \<Longrightarrow> digit_char d \<notin> {CHR ''-'', CHR ''+'', CHR '':''}"
  by (auto simp: digit_char_def dest!: arg_cong [where f = "of_char :: char \<Rightarrow> nat"])

lemma nat_digits_no: "CHR ''-'' \<notin> set (nat_digits n)" "CHR ''+'' \<notin> set (nat_digits n)"
    "CHR '':'' \<notin> set (nat_digits n)"
  by (auto dest!: nat_digits_set dest: digit_char_neq)

lemma nat_digits_nonempty [simp]: "nat_digits n \<noteq> []"
  by (simp add: nat_digits.simps [of n])

lemma hd_nat_digits: "hd (nat_digits n) \<noteq> CHR ''-''" "hd (nat_digits n) \<noteq> CHR ''+''"
  by (metis hd_in_set nat_digits_no(1) nat_digits_nonempty)
     (metis hd_in_set nat_digits_no(2) nat_digits_nonempty)

lemma itoa_inj: "itoa i = itoa j \<Longrightarrow> i = j"
proof -
  assume eq: "itoa i = itoa j"
  have neq: "CHR ''-'' # s \<noteq> nat_digits n" for s n
    using hd_nat_digits(1) [of n] by (metis list.sel(1))
  from eq show "i = j"
    by (auto simp: itoa_def neq neq [symmetric] split: if_splits dest!: nat_digits_inj)
qed

lemma itoa_colon [simp]: "CHR '':'' \<notin> set (itoa i)"
  by (simp add: itoa_def nat_digits_no)

lemma atoi_itoa: "- max_int64 - 1 \<le> i \<Longrightarrow> i \<le> max_int64 \<Longrightarrow> atoi (itoa i) = (i, False)"
proof -
  assume b: "- max_int64 - 1 \<le> i" "i \<le> max_int64"
  show ?thesis
  proof (cases "i < 0")
    case True
    then show ?thesis using b by (simp add: atoi_def itoa_def)
  next
    case False
    obtain c cs where ds: "nat_digits (nat i) = c # cs" by (cases "nat_digits (nat i)") auto
    then have "c \<noteq> CHR ''-''" "c \<noteq> CHR ''+''" using hd_nat_digits [of "nat i"] by auto
    moreover have "parse_digits 0 (c # cs) = Some (nat i)" using ds parse_nat_digits by metis
    ultimately show ?thesis using False b ds by (simp add: atoi_def itoa_def)
  qed
qed

end
