(* ===== verification/Contracts.thy ===== *)
theory Contracts
  imports Domain GoStd
begin

text \<open>
  \<open>internal/contracts/contracts.go\<close>: the wire records the services and workers share. A
  \<open>json.RawMessage\<close> is its bytes (the empty list is Go's nil), a \<open>time.Time\<close> is an
  instant in nanoseconds, a pointer that may be nil an \<open>option\<close>.
\<close>

record Principal =
  pr_tenant_id :: string
  pr_user_id :: string
  pr_role :: string

record QueueEnvelope =
  env_operation_id :: string
  env_tenant_id :: string
  env_task_type :: string
  env_target_url :: string
  env_payload :: string
  env_attempt :: int
  env_max_attempts :: int
  env_deadline :: "int option"
  env_execution_mode :: string
  env_not_before :: "int option"

record OperationEvent =
  ev_event_key :: string
  ev_event_type :: string
  ev_operation_id :: string
  ev_tenant_id :: string
  ev_units :: int
  ev_payload :: string
  ev_occurred_at :: int

record Problem =
  pb_type :: string
  pb_title :: string
  pb_status :: int
  pb_detail :: string
  pb_instance :: string
  pb_request_id :: string

section \<open>Instants\<close>

text \<open>
  The clock a handler reads: \<open>now()\<close> of PostgreSQL and \<open>time.Now()\<close> of the service, and
  the start of the current month (\<open>date_trunc('month', now())\<close>).
\<close>

record clock =
  now :: int
  month_start :: int

section \<open>Stream positions\<close>

text \<open>
  The identifier of an entry of a Redis stream: a millisecond time and a sequence number,
  ordered lexicographically. \<open>0-0\<close> is before every entry.
\<close>

datatype stream_id = StreamId nat nat

instantiation stream_id :: linorder
begin

fun less_eq_stream_id :: "stream_id \<Rightarrow> stream_id \<Rightarrow> bool" where
  "less_eq_stream_id (StreamId a b) (StreamId c e) = (a < c \<or> a = c \<and> b \<le> e)"

definition less_stream_id :: "stream_id \<Rightarrow> stream_id \<Rightarrow> bool" where
  "less_stream_id x y = (x \<le> y \<and> \<not> y \<le> x)"

instance
proof
  fix x y z :: stream_id
  show "(x < y) = (x \<le> y \<and> \<not> y \<le> x)" by (simp add: less_stream_id_def)
  show "x \<le> x" by (cases x) simp
  show "x \<le> z" if "x \<le> y" "y \<le> z"
    using that by (cases x; cases y; cases z) auto
  show "x = y" if "x \<le> y" "y \<le> x"
    using that by (cases x; cases y) auto
  show "x \<le> y \<or> y \<le> x" by (cases x; cases y) auto
qed

end

definition stream_start :: stream_id where
  "stream_start = StreamId 0 0"

end
