(* ===== verification/Schema.thy ===== *)
theory Schema
  imports Contracts
begin

text \<open>
  The PostgreSQL database the services share (\<open>migrations/\<close>): one record per table, the
  database as the record of its tables, and the insert-or-ignore laws of the tables the
  code writes with \<open>ON CONFLICT ... DO NOTHING\<close>. A nullable column is an \<open>option\<close>; a
  comparison with NULL is not true.
\<close>

section \<open>Schema access\<close>

record tenant =
  tn_id :: string
  tn_name :: string
  tn_slug :: string
  tn_monthly_quota :: int
  tn_concurrency_limit :: int
  tn_created_at :: int

record user =
  us_id :: string
  us_tenant_id :: "string option"
  us_email :: string
  us_password_hash :: string
  us_role :: string

record api_key =
  ak_id :: string
  ak_tenant_id :: string
  ak_name :: string
  ak_prefix :: string
  ak_key_hash :: string
  ak_last_used_at :: "int option"
  ak_revoked_at :: "int option"

section \<open>Schema operations\<close>

record op_row =
  op_id :: string
  op_tenant :: string
  task_type :: string
  execution_mode :: string
  target_url :: string
  payload :: string
  status :: OperationStatus
  attempt :: int
  max_attempts :: int
  deadline :: "int option"
  lease_owner :: "string option"
  lease_expires_at :: "int option"
  result :: "string option"
  error_code :: "string option"
  error_message :: "string option"
  ai_explanation :: "string option"
  idempotency_key :: string
  version :: int
  created_at :: int
  updated_at :: int

record log_row =
  lg_operation_id :: string
  lg_tenant_id :: string
  lg_from_status :: "OperationStatus option"
  lg_to_status :: OperationStatus
  lg_reason :: string
  lg_created_at :: int

datatype outbox_status = ObPending | ObInFlight | ObDelivered | ObDeadLettered

record event_row =
  eo_id :: string
  eo_event_key :: string
  eo_event_type :: string
  eo_operation_id :: string
  eo_tenant_id :: string
  eo_units :: int
  eo_payload :: string
  eo_status :: outbox_status
  eo_attempt :: int
  eo_next_attempt_at :: int
  eo_last_error :: "string option"
  eo_created_at :: int
  eo_delivered_at :: "int option"

section \<open>Schema usage\<close>

record ledger_row =
  le_tenant_id :: string
  le_operation_id :: string
  le_event_key :: string
  le_units :: int
  le_metadata :: string
  le_created_at :: int

record endpoint_row =
  we_id :: string
  we_tenant_id :: string
  we_url :: string
  we_secret :: string
  we_enabled :: bool
  we_created_at :: int

record webhook_row =
  wo_id :: string
  wo_tenant_id :: string
  wo_endpoint_id :: string
  wo_event_type :: string
  wo_operation_id :: string
  wo_payload :: string
  wo_status :: outbox_status
  wo_attempt :: int
  wo_next_attempt_at :: int
  wo_last_error :: "string option"
  wo_created_at :: int
  wo_delivered_at :: "int option"

section \<open>The database\<close>

record database =
  tenants :: "tenant list"
  users :: "user list"
  api_keys :: "api_key list"
  operations :: "op_row list"
  transition_log :: "log_row list"
  event_outbox :: "event_row list"
  ledger :: "ledger_row list"
  webhook_endpoints :: "endpoint_row list"
  webhook_outbox :: "webhook_row list"

definition empty_database :: database where
  "empty_database = \<lparr>tenants = [], users = [], api_keys = [], operations = [],
     transition_log = [], event_outbox = [], ledger = [], webhook_endpoints = [],
     webhook_outbox = []\<rparr>"

section \<open>The insert-or-ignore tables\<close>

definition idem_key :: "op_row \<Rightarrow> string \<times> string" where
  "idem_key r = (op_tenant r, idempotency_key r)"

definition put_operation :: "op_row \<Rightarrow> database \<Rightarrow> database" where
  "put_operation r d = d\<lparr>operations := insert_new idem_key r (operations d)\<rparr>"

definition put_event :: "event_row \<Rightarrow> database \<Rightarrow> database" where
  "put_event r d = d\<lparr>event_outbox := insert_new eo_event_key r (event_outbox d)\<rparr>"

definition put_ledger :: "ledger_row \<Rightarrow> database \<Rightarrow> database" where
  "put_ledger r d = d\<lparr>ledger := insert_new le_event_key r (ledger d)\<rparr>"

interpretation op_store: keyed_store put_operation operations idem_key
  by unfold_locales (auto simp: put_operation_def insert_new_def)

interpretation event_store: keyed_store put_event event_outbox eo_event_key
  by unfold_locales (auto simp: put_event_def insert_new_def)

interpretation ledger_store: keyed_store put_ledger ledger le_event_key
  by unfold_locales (auto simp: put_ledger_def insert_new_def)

lemma put_event_frame [simp]:
  "operations (put_event r d) = operations d" "tenants (put_event r d) = tenants d"
  "ledger (put_event r d) = ledger d" "transition_log (put_event r d) = transition_log d"
  by (simp_all add: put_event_def)

lemma put_operation_frame [simp]:
  "tenants (put_operation r d) = tenants d" "event_outbox (put_operation r d) = event_outbox d"
  "ledger (put_operation r d) = ledger d" "transition_log (put_operation r d) = transition_log d"
  by (simp_all add: put_operation_def)

end
