(* ===== verification/Sample.thy ===== *)
theory Sample
  imports Schema
begin

text \<open>
  Concrete rows and a concrete database the witnesses of the properties are evaluated on:
  one tenant with a quota of 100 units and two concurrent operations, and one operation of
  it whose status, attempt and lease are the arguments.
\<close>

definition sample_tenant :: tenant where
  "sample_tenant = \<lparr>tn_id = ''t1'', tn_name = ''Acme'', tn_slug = ''acme'',
     tn_monthly_quota = 100, tn_concurrency_limit = 2, tn_created_at = 0\<rparr>"

definition sample_op :: "OperationStatus \<Rightarrow> int \<Rightarrow> (string \<times> int) option \<Rightarrow> op_row" where
  "sample_op st a lease = \<lparr>op_id = ''op1'', op_tenant = ''t1'', task_type = ''sync'',
     execution_mode = ''PRIVATE'', target_url = ''http://x'', payload = ''{}'', status = st,
     attempt = a, max_attempts = 3, deadline = None, lease_owner = map_option fst lease,
     lease_expires_at = map_option snd lease, result = None, error_code = None,
     error_message = None, ai_explanation = None, idempotency_key = ''k1'', version = 4,
     created_at = 0, updated_at = 0\<rparr>"

definition sample_db :: "op_row list \<Rightarrow> database" where
  "sample_db rows = empty_database\<lparr>tenants := [sample_tenant], operations := rows\<rparr>"

lemmas sample_defs = sample_tenant_def sample_op_def sample_db_def empty_database_def

end
