(* ===== verification/GoJSON.thy ===== *)
theory GoJSON
  imports GoStd
begin

text \<open>
  The part of \<open>encoding/json\<close> the services use on text: the validity scanner behind
  \<open>json.Valid\<close> (a pushdown automaton that reads one byte at a time, as Go's scanner does)
  and the quoting of strings by \<open>json.Marshal\<close>.
\<close>

section \<open>The scanner\<close>

datatype jstate =
  BeginValue | BeginValueOrEmpty | BeginStringOrEmpty | BeginString | EndValue | EndTop
| InString | InStringEsc | InStringEscU nat
| Neg | Num0 | Num1 | NumDot | NumDot0 | NumE | NumESign | NumE0
| Literal string

datatype jparse = ParseObjectKey | ParseObjectValue | ParseArrayValue

definition json_space :: "char \<Rightarrow> bool" where
  "json_space c = (c \<in> {CHR '' '', CHR 0x09, CHR 0x0A, CHR 0x0D})"

definition is_digit :: "char \<Rightarrow> bool" where
  "is_digit c = (let n = of_char c :: nat in 48 \<le> n \<and> n \<le> 57)"

definition is_hex :: "char \<Rightarrow> bool" where
  "is_hex c = (let n = of_char c :: nat in
     48 \<le> n \<and> n \<le> 57 \<or> 97 \<le> n \<and> n \<le> 102 \<or> 65 \<le> n \<and> n \<le> 70)"

definition max_nesting_depth :: nat where
  "max_nesting_depth = 10000"

definition push_parse :: "jstate \<Rightarrow> jparse \<Rightarrow> jparse list \<Rightarrow> (jstate \<times> jparse list) option" where
  "push_parse st p stk = (if length stk < max_nesting_depth then Some (st, p # stk) else None)"

definition pop_parse :: "jparse list \<Rightarrow> (jstate \<times> jparse list) option" where
  "pop_parse stk = Some (if tl stk = [] then EndTop else EndValue, tl stk)"

fun end_value :: "jparse list \<Rightarrow> char \<Rightarrow> (jstate \<times> jparse list) option" where
  "end_value [] c = (if json_space c then Some (EndTop, []) else None)"
| "end_value (p # stk) c =
     (if json_space c then Some (EndValue, p # stk)
      else (case p of
          ParseObjectKey \<Rightarrow> if c = CHR '':'' then Some (BeginValue, ParseObjectValue # stk) else None
        | ParseObjectValue \<Rightarrow>
            if c = CHR '','' then Some (BeginString, ParseObjectKey # stk)
            else if c = CHR ''}'' then pop_parse (p # stk) else None
        | ParseArrayValue \<Rightarrow>
            if c = CHR '','' then Some (BeginValue, p # stk)
            else if c = CHR '']'' then pop_parse (p # stk) else None))"

definition begin_value :: "jparse list \<Rightarrow> char \<Rightarrow> (jstate \<times> jparse list) option" where
  "begin_value stk c =
     (if json_space c then Some (BeginValue, stk)
      else if c = CHR ''{'' then push_parse BeginStringOrEmpty ParseObjectKey stk
      else if c = CHR ''['' then push_parse BeginValueOrEmpty ParseArrayValue stk
      else if c = CHR 0x22 then Some (InString, stk)
      else if c = CHR ''-'' then Some (Neg, stk)
      else if c = CHR ''0'' then Some (Num0, stk)
      else if c = CHR ''t'' then Some (Literal ''rue'', stk)
      else if c = CHR ''f'' then Some (Literal ''alse'', stk)
      else if c = CHR ''n'' then Some (Literal ''ull'', stk)
      else if is_digit c then Some (Num1, stk) else None)"

definition begin_string :: "jparse list \<Rightarrow> char \<Rightarrow> (jstate \<times> jparse list) option" where
  "begin_string stk c =
     (if json_space c then Some (BeginString, stk)
      else if c = CHR 0x22 then Some (InString, stk) else None)"

definition num_zero :: "jparse list \<Rightarrow> char \<Rightarrow> (jstate \<times> jparse list) option" where
  "num_zero stk c =
     (if c = CHR ''.'' then Some (NumDot, stk)
      else if c = CHR ''e'' \<or> c = CHR ''E'' then Some (NumE, stk) else end_value stk c)"

fun jstep :: "jstate \<Rightarrow> jparse list \<Rightarrow> char \<Rightarrow> (jstate \<times> jparse list) option" where
  "jstep BeginValue stk c = begin_value stk c"
| "jstep BeginValueOrEmpty stk c =
     (if json_space c then Some (BeginValueOrEmpty, stk)
      else if c = CHR '']'' then end_value stk c else begin_value stk c)"
| "jstep BeginStringOrEmpty stk c =
     (if json_space c then Some (BeginStringOrEmpty, stk)
      else if c = CHR ''}'' then end_value (ParseObjectValue # tl stk) c else begin_string stk c)"
| "jstep BeginString stk c = begin_string stk c"
| "jstep EndValue stk c = end_value stk c"
| "jstep EndTop stk c = (if json_space c then Some (EndTop, stk) else None)"
| "jstep InString stk c =
     (if c = CHR 0x22 then Some (EndValue, stk)
      else if c = CHR 0x5C then Some (InStringEsc, stk)
      else if (of_char c :: nat) < 32 then None else Some (InString, stk))"
| "jstep InStringEsc stk c =
     (if c \<in> {CHR ''b'', CHR ''f'', CHR ''n'', CHR ''r'', CHR ''t'', CHR 0x5C, CHR ''/'', CHR 0x22}
      then Some (InString, stk)
      else if c = CHR ''u'' then Some (InStringEscU 3, stk) else None)"
| "jstep (InStringEscU n) stk c =
     (if is_hex c then Some (if n = 0 then InString else InStringEscU (n - 1), stk) else None)"
| "jstep Neg stk c =
     (if c = CHR ''0'' then Some (Num0, stk) else if is_digit c then Some (Num1, stk) else None)"
| "jstep Num1 stk c = (if is_digit c then Some (Num1, stk) else num_zero stk c)"
| "jstep Num0 stk c = num_zero stk c"
| "jstep NumDot stk c = (if is_digit c then Some (NumDot0, stk) else None)"
| "jstep NumDot0 stk c =
     (if is_digit c then Some (NumDot0, stk)
      else if c = CHR ''e'' \<or> c = CHR ''E'' then Some (NumE, stk) else end_value stk c)"
| "jstep NumE stk c =
     (if c = CHR ''+'' \<or> c = CHR ''-'' then Some (NumESign, stk)
      else if is_digit c then Some (NumE0, stk) else None)"
| "jstep NumESign stk c = (if is_digit c then Some (NumE0, stk) else None)"
| "jstep NumE0 stk c = (if is_digit c then Some (NumE0, stk) else end_value stk c)"
| "jstep (Literal cs) stk c =
     (case cs of [] \<Rightarrow> None
      | x # xs \<Rightarrow> if c = x then Some (if xs = [] then EndValue else Literal xs, stk) else None)"

fun jrun :: "jstate \<Rightarrow> jparse list \<Rightarrow> string \<Rightarrow> (jstate \<times> jparse list) option" where
  "jrun st stk [] = Some (st, stk)"
| "jrun st stk (c # cs) = (case jstep st stk c of None \<Rightarrow> None | Some (st', stk') \<Rightarrow> jrun st' stk' cs)"

text \<open>At the end of the input the scanner is fed one space and must have closed the value.\<close>

definition json_valid :: "string \<Rightarrow> bool" where
  "json_valid s = (case jrun BeginValue [] (s @ '' '') of Some (EndTop, _) \<Rightarrow> True | _ \<Rightarrow> False)"

lemma jrun_append:
  "jrun st stk (s @ t) = (case jrun st stk s of None \<Rightarrow> None | Some (st', stk') \<Rightarrow> jrun st' stk' t)"
  by (induction s arbitrary: st stk) (auto split: option.splits)

lemma json_valid_empty_object [simp]: "json_valid ''{}''"
  by (simp add: json_valid_def begin_value_def json_space_def push_parse_def pop_parse_def
      max_nesting_depth_def)

lemma json_valid_nonempty: "json_valid s \<Longrightarrow> s \<noteq> []"
  by (auto simp: json_valid_def begin_value_def json_space_def)

section \<open>Quoting\<close>

definition json_hex :: "nat \<Rightarrow> char" where
  "json_hex n = (if n < 10 then char_of (48 + n) else char_of (87 + n))"

definition json_escape :: "char \<Rightarrow> string" where
  "json_escape c =
     (let n = of_char c :: nat in
      if c = CHR 0x22 \<or> c = CHR 0x5C then [CHR 0x5C, c]
      else if n = 8 then [CHR 0x5C, CHR ''b'']
      else if n = 12 then [CHR 0x5C, CHR ''f'']
      else if n = 10 then [CHR 0x5C, CHR ''n'']
      else if n = 13 then [CHR 0x5C, CHR ''r'']
      else if n = 9 then [CHR 0x5C, CHR ''t'']
      else if n < 32 \<or> c = CHR ''<'' \<or> c = CHR ''>'' \<or> c = CHR ''&''
        then [CHR 0x5C, CHR ''u'', CHR ''0'', CHR ''0'', json_hex (n div 16), json_hex (n mod 16)]
      else [c])"

definition json_quote :: "string \<Rightarrow> string" where
  "json_quote s = CHR 0x22 # concat (map json_escape s) @ [CHR 0x22]"

definition json_bool :: "bool \<Rightarrow> string" where
  "json_bool b = (if b then ''true'' else ''false'')"

lemma is_hex_json_hex: "n < 16 \<Longrightarrow> is_hex (json_hex n)"
  by (auto simp: is_hex_def json_hex_def of_char_of Let_def)

lemma is_hex_0: "is_hex (CHR ''0'')"
  by (simp add: is_hex_def)

lemma jrun_escape: "jrun InString stk (json_escape c) = Some (InString, stk)"
proof -
  have h: "is_hex (json_hex (of_char c div 16))" "is_hex (json_hex (of_char c mod 16))"
    by (rule is_hex_json_hex, simp add: of_char_def) (rule is_hex_json_hex, simp)
  show ?thesis
    by (simp add: json_escape_def Let_def h is_hex_0 numeral_3_eq_3)
qed

lemma jrun_escapes: "jrun InString stk (concat (map json_escape s)) = Some (InString, stk)"
  by (induction s) (simp_all add: jrun_append jrun_escape)

text \<open>A quoted string is a value wherever a value may begin, and a key where a key may.\<close>

lemma jrun_quote:
  "jrun BeginValue stk (json_quote s) = Some (EndValue, stk)"
  "jrun BeginString stk (json_quote s) = Some (EndValue, stk)"
  "jrun BeginStringOrEmpty stk (json_quote s) = Some (EndValue, stk)"
  by (simp_all add: json_quote_def jrun_append jrun_escapes begin_value_def begin_string_def
      json_space_def)

lemma jrun_bool: "jrun BeginValue stk (json_bool b) = Some (EndValue, stk)"
  by (simp add: json_bool_def begin_value_def json_space_def)

text \<open>The object \<open>json.Marshal\<close> writes for a map: the pairs in key order.\<close>

fun json_members :: "(string \<times> string) list \<Rightarrow> string" where
  "json_members [] = []"
| "json_members [(k, v)] = json_quote k @ '':'' @ v"
| "json_members ((k, v) # kvs) = json_quote k @ '':'' @ v @ '','' @ json_members kvs"

definition json_object :: "(string \<times> string) list \<Rightarrow> string" where
  "json_object kvs = ''{'' @ json_members kvs @ ''}''"

text \<open>
  A value inside an object has been read when the scanner waits for its end: after the
  closing character, or after a digit of a number, which a comma or a brace ends.
\<close>

definition value_read :: "jstate \<Rightarrow> bool" where
  "value_read st \<longleftrightarrow> st \<in> {EndValue, Num0, Num1, NumDot0}"

definition value_in :: "jparse list \<Rightarrow> string \<Rightarrow> bool" where
  "value_in stk v = (\<exists>st. value_read st \<and> jrun BeginValue stk v = Some (st, stk))"

definition json_value_text :: "string \<Rightarrow> bool" where
  "json_value_text v = (\<forall>stk. \<exists>st. value_read st \<and> jrun BeginValue stk v = Some (st, stk))"

lemma value_in_text [simp]: "json_value_text v \<Longrightarrow> value_in stk v"
  by (simp add: json_value_text_def value_in_def)

lemma value_read_end: "value_read st \<Longrightarrow> c \<in> {CHR '','', CHR ''}'', CHR '']''} \<Longrightarrow> jstep st stk c = end_value stk c"
  by (auto simp: value_read_def is_digit_def num_zero_def)

lemma jrun_members:
  assumes "\<forall>kv\<in>set kvs. value_in (ParseObjectValue # stk) (snd kv)" and "kvs \<noteq> []"
    and "st = BeginString \<or> st = BeginStringOrEmpty"
  shows "\<exists>st'. value_read st' \<and>
    jrun st (ParseObjectKey # stk) (json_members kvs) = Some (st', ParseObjectValue # stk)"
  using assms
proof (induction kvs arbitrary: st rule: json_members.induct)
  case 1
  then show ?case by simp
next
  case (2 k v)
  then show ?case
    by (auto simp: jrun_append jrun_quote value_in_def json_space_def)
next
  case (3 k v kv kvs)
  obtain st1 where st1: "value_read st1"
    "jrun BeginString (ParseObjectKey # stk) (json_members (kv # kvs)) = Some (st1, ParseObjectValue # stk)"
    using "3.IH" "3.prems" by fastforce
  obtain st2 where st2: "value_read st2"
    "jrun BeginValue (ParseObjectValue # stk) v = Some (st2, ParseObjectValue # stk)"
  proof -
    have "value_in (ParseObjectValue # stk) v" using "3.prems"(1) by simp
    then show ?thesis using that unfolding value_in_def by blast
  qed
  have "jrun st (ParseObjectKey # stk) (json_members ((k, v) # kv # kvs)) = Some (st1, ParseObjectValue # stk)"
    using "3.prems"(3) st1 st2
    by (auto simp: jrun_append jrun_quote json_space_def value_read_end)
  with st1 show ?case by blast
qed

lemma json_valid_object:
  assumes "\<forall>kv\<in>set kvs. value_in [ParseObjectValue] (snd kv)" and "kvs \<noteq> []"
  shows "json_valid (json_object kvs)"
proof -
  obtain st where "value_read st" "jrun BeginStringOrEmpty [ParseObjectKey] (json_members kvs) =
      Some (st, [ParseObjectValue])"
    using jrun_members [OF assms, of BeginStringOrEmpty] by blast
  then show ?thesis
    by (simp add: json_valid_def json_object_def jrun_append begin_value_def json_space_def
        push_parse_def pop_parse_def max_nesting_depth_def value_read_end)
qed

text \<open>Objects and arrays inside a value.\<close>

lemma value_in_object:
  assumes "\<forall>kv\<in>set kvs. value_in (ParseObjectValue # stk) (snd kv)" "kvs \<noteq> []"
    and "stk \<noteq> []" "length stk < max_nesting_depth"
  shows "value_in stk (json_object kvs)"
proof -
  obtain st where "value_read st" "jrun BeginStringOrEmpty (ParseObjectKey # stk) (json_members kvs) =
      Some (st, ParseObjectValue # stk)"
    using jrun_members [OF assms(1,2), of BeginStringOrEmpty] by blast
  then show ?thesis using assms(3,4)
    by (simp add: value_in_def value_read_def [of EndValue] json_object_def jrun_append begin_value_def json_space_def
        push_parse_def pop_parse_def value_read_end)
qed

fun json_elements :: "string list \<Rightarrow> string" where
  "json_elements [] = []"
| "json_elements [v] = v"
| "json_elements (v # vs) = v @ '','' @ json_elements vs"

definition json_array :: "string list \<Rightarrow> string" where
  "json_array vs = ''['' @ json_elements vs @ '']''"

lemma jrun_elements:
  "\<forall>v\<in>set vs. value_in (ParseArrayValue # stk) v \<Longrightarrow> vs \<noteq> [] \<Longrightarrow>
     value_in (ParseArrayValue # stk) (json_elements vs)"
proof (induction vs rule: json_elements.induct)
  case (3 v w vs)
  then have "value_in (ParseArrayValue # stk) v" "value_in (ParseArrayValue # stk) (json_elements (w # vs))" by auto
  then show ?case by (auto simp: value_in_def jrun_append json_space_def value_read_end)
qed simp_all

text \<open>A value after the opening bracket: none begins with the closing one.\<close>

lemma begin_value_first:
  assumes "value_in stk v"
  shows "v \<noteq> [] \<and> hd v \<noteq> CHR '']''"
  using assms by (cases v) (auto simp: value_in_def value_read_def begin_value_def json_space_def is_digit_def)

lemma value_in_array:
  assumes "\<forall>v\<in>set vs. value_in (ParseArrayValue # stk) v" "vs \<noteq> []" "\<forall>v\<in>set vs. \<not> json_space (hd v)"
    and "stk \<noteq> []" "length stk < max_nesting_depth"
  shows "value_in stk (json_array vs)"
proof -
  have e: "value_in (ParseArrayValue # stk) (json_elements vs)" using assms(1,2) by (rule jrun_elements)
  obtain c cs where v: "json_elements vs = c # cs" "c \<noteq> CHR '']''"
    using begin_value_first [OF e] by (cases "json_elements vs") auto
  have "\<not> json_space c"
  proof -
    obtain w ws where ws: "vs = w # ws" using assms(2) by (cases vs) auto
    then have "w \<noteq> []" using assms(1) begin_value_first by auto
    then have "c = hd w" using v(1) ws by (cases ws; cases w) auto
    with assms(3) ws show ?thesis by simp
  qed
  with v have "jrun BeginValueOrEmpty (ParseArrayValue # stk) (c # cs) = jrun BeginValue (ParseArrayValue # stk) (c # cs)"
    by simp
  with e v(1) obtain st where st: "value_read st"
    "jrun BeginValueOrEmpty (ParseArrayValue # stk) (json_elements vs) = Some (st, ParseArrayValue # stk)"
    by (auto simp: value_in_def)
  have bracket: "jrun BeginValue stk (''['' @ rest) = jrun BeginValueOrEmpty (ParseArrayValue # stk) rest" for rest
    using assms(5) by (simp add: begin_value_def json_space_def push_parse_def)
  show ?thesis unfolding value_in_def json_array_def bracket
    using st assms(4) by (intro exI [of _ EndValue])
      (simp add: value_read_def [of EndValue] jrun_append value_read_end pop_parse_def json_space_def)
qed

text \<open>A number: its first digit is zero only when it is the only one.\<close>

lemma nat_digits_digits: "c \<in> set (nat_digits n) \<Longrightarrow> is_digit c"
  by (auto dest!: nat_digits_set simp: is_digit_def digit_char_def of_char_of)

lemma jrun_digits: "\<forall>c\<in>set s. is_digit c \<Longrightarrow> jrun Num1 stk s = Some (Num1, stk)"
  by (induction s) auto

lemma hd_nat_digits_zero: "hd (nat_digits n) = CHR ''0'' \<Longrightarrow> n = 0"
proof (induction n rule: nat_digits.induct)
  case (1 n)
  show ?case
  proof (cases "n < 10")
    case True
    then have "digit_char n = CHR ''0''" using 1(2) by (simp add: nat_digits.simps [of n])
    then have "(of_char (digit_char n) :: nat) = 48" by simp
    with True show ?thesis by (simp add: digit_char_def of_char_of)
  next
    case False
    then have "hd (nat_digits n) = hd (nat_digits (n div 10))"
      by (simp add: nat_digits.simps [of n])
    with 1 False show ?thesis by auto
  qed
qed

lemma begin_digit: "is_digit c \<Longrightarrow> begin_value stk c = Some (if c = CHR ''0'' then Num0 else Num1, stk)"
proof -
  assume d: "is_digit c"
  then have "c \<notin> {CHR ''{'', CHR ''['', CHR 0x22, CHR ''-'', CHR ''t'', CHR ''f'', CHR ''n''}"
    and "\<not> json_space c"
    by (auto simp: is_digit_def json_space_def)
  with d show ?thesis unfolding begin_value_def by simp
qed

lemma json_value_text_nat: "json_value_text (nat_digits n)"
proof -
  obtain c cs where s: "nat_digits n = c # cs" by (cases "nat_digits n") auto
  then have dig: "is_digit c" "\<forall>c\<in>set cs. is_digit c"
    using nat_digits_digits [of _ n] by auto
  show ?thesis
  proof (cases "c = CHR ''0''")
    case True
    with s hd_nat_digits_zero [of n] have "n = 0" by simp
    moreover have "nat_digits 0 = [CHR ''0'']" by code_simp
    ultimately have "nat_digits n = [CHR ''0'']" by simp
    then show ?thesis
      by (simp add: json_value_text_def value_read_def begin_digit is_digit_def)
  next
    case False
    with s dig show ?thesis
      by (auto simp: json_value_text_def value_read_def begin_digit jrun_digits)
  qed
qed

lemma json_value_text_itoa: "json_value_text (itoa i)"
proof (cases "i < 0")
  case False
  then show ?thesis by (simp add: itoa_def json_value_text_nat)
next
  case True
  obtain c cs where s: "nat_digits (nat (- i)) = c # cs" by (cases "nat_digits (nat (- i))") auto
  then have dig: "is_digit c" "\<forall>c\<in>set cs. is_digit c"
    using nat_digits_digits [of _ "nat (- i)"] by auto
  have "c \<noteq> CHR ''0''" using hd_nat_digits_zero [of "nat (- i)"] True s by auto
  with dig True show ?thesis
    by (auto simp: itoa_def json_value_text_def value_read_def jrun_digits s begin_value_def json_space_def)
qed

lemma json_value_text_quote [simp]: "json_value_text (json_quote s)"
  by (simp add: json_value_text_def jrun_quote value_read_def)

lemma json_value_text_bool [simp]: "json_value_text (json_bool b)"
  by (simp add: json_value_text_def jrun_bool value_read_def)

end
