(* ===== verification/Statements.thy ===== *)
theory Statements
  imports Sample GoJSON
begin

text \<open>
  The SQL statements of \<open>cmd/operations/main.go\<close> that write \<open>operations.operations\<close>, each
  as its WHERE clause and its SET clause, and the contract they share: what every such
  statement keeps of a row. The handlers execute these values.
\<close>

section \<open>Statements\<close>

record stmt =
  st_where :: "op_row \<Rightarrow> bool"
  st_set :: "op_row \<Rightarrow> op_row"

text \<open>Executing a statement yields the database and the number of rows affected.\<close>

definition exec_stmt :: "stmt \<Rightarrow> database \<Rightarrow> database \<times> nat" where
  "exec_stmt st d =
     (d\<lparr>operations := update_where (st_where st) (st_set st) (operations d)\<rparr>,
      count_where (st_where st) (operations d))"

text \<open>\<open>updated_at=now(), version=version+1\<close> and the clearing of the lease.\<close>

definition bump :: "int \<Rightarrow> op_row \<Rightarrow> op_row" where
  "bump n r = r\<lparr>updated_at := n, version := version r + 1\<rparr>"

definition clear_lease :: "op_row \<Rightarrow> op_row" where
  "clear_lease r = r\<lparr>lease_owner := None, lease_expires_at := None\<rparr>"

definition lease_expired :: "int \<Rightarrow> op_row \<Rightarrow> bool" where
  "lease_expired n r = (case lease_expires_at r of None \<Rightarrow> False | Some e \<Rightarrow> e < n)"

definition json_column :: "string \<Rightarrow> string option" where
  "json_column raw = (if raw = [] then None else Some raw)"

definition enqueue_stmt :: "int \<Rightarrow> string \<Rightarrow> stmt" where
  "enqueue_stmt n i = \<lparr>
     st_where = (\<lambda>r. op_id r = i \<and> status r \<in> {Pending, Retrying}),
     st_set = (\<lambda>r. bump n (r\<lparr>status := Queued\<rparr>))\<rparr>"

definition cancel_stmt :: "int \<Rightarrow> string \<Rightarrow> string \<Rightarrow> stmt" where
  "cancel_stmt n i t = \<lparr>
     st_where = (\<lambda>r. op_id r = i \<and> op_tenant r = t \<and>
       status r \<in> {Pending, Queued, Running, Retrying, Failed}),
     st_set = (\<lambda>r. bump n (clear_lease (r\<lparr>status := Cancelled\<rparr>)))\<rparr>"

definition redrive_stmt :: "int \<Rightarrow> string \<Rightarrow> string \<Rightarrow> stmt" where
  "redrive_stmt n i t = \<lparr>
     st_where = (\<lambda>r. op_id r = i \<and> op_tenant r = t \<and> status r \<in> {Failed, DeadLettered}),
     st_set = (\<lambda>r. bump n (r\<lparr>status := Retrying, attempt := 0, error_code := None,
       error_message := None\<rparr>))\<rparr>"

definition claim_stmt :: "int \<Rightarrow> string \<Rightarrow> string \<Rightarrow> int \<Rightarrow> string \<Rightarrow> stmt" where
  "claim_stmt n i w secs t = \<lparr>
     st_where = (\<lambda>r. op_id r = i \<and> op_tenant r = t \<and> status r \<in> {Queued, Retrying}),
     st_set = (\<lambda>r. bump n (r\<lparr>status := Running, attempt := attempt r + 1,
       lease_owner := Some w, lease_expires_at := Some (n + secs * second)\<rparr>))\<rparr>"

definition heartbeat_stmt :: "int \<Rightarrow> string \<Rightarrow> string \<Rightarrow> stmt" where
  "heartbeat_stmt n i w = \<lparr>
     st_where = (\<lambda>r. op_id r = i \<and> status r = Running \<and> lease_owner r = Some w),
     st_set = (\<lambda>r. r\<lparr>lease_expires_at := Some (n + 30 * second), updated_at := n\<rparr>)\<rparr>"

definition complete_stmt :: "int \<Rightarrow> string \<Rightarrow> string \<Rightarrow> string \<Rightarrow> string \<Rightarrow> stmt" where
  "complete_stmt n i w res expl = \<lparr>
     st_where = (\<lambda>r. op_id r = i \<and> status r = Running \<and> lease_owner r = Some w),
     st_set = (\<lambda>r. bump n (clear_lease (r\<lparr>status := Succeeded, result := json_column res,
       ai_explanation := Some expl, error_code := None, error_message := None\<rparr>)))\<rparr>"

definition fail_stmt ::
    "int \<Rightarrow> string \<Rightarrow> string \<Rightarrow> OperationStatus \<Rightarrow> string \<Rightarrow> string \<Rightarrow> string \<Rightarrow> stmt" where
  "fail_stmt n i w st code msg expl = \<lparr>
     st_where = (\<lambda>r. op_id r = i \<and> lease_owner r = Some w \<and> status r = Running),
     st_set = (\<lambda>r. bump n (clear_lease (r\<lparr>status := st, error_code := Some code,
       error_message := Some msg, ai_explanation := Some expl\<rparr>)))\<rparr>"

definition worker_heartbeat_stmt :: "int \<Rightarrow> string \<Rightarrow> string \<Rightarrow> string \<Rightarrow> stmt" where
  "worker_heartbeat_stmt n i t w = \<lparr>
     st_where = (\<lambda>r. op_id r = i \<and> op_tenant r = t \<and> status r = Running \<and> lease_owner r = Some w),
     st_set = (\<lambda>r. r\<lparr>lease_expires_at := Some (n + 45 * second), updated_at := n\<rparr>)\<rparr>"

definition worker_complete_stmt ::
    "int \<Rightarrow> string \<Rightarrow> string \<Rightarrow> string \<Rightarrow> string \<Rightarrow> string \<Rightarrow> stmt" where
  "worker_complete_stmt n i t w res expl = \<lparr>
     st_where = (\<lambda>r. op_id r = i \<and> op_tenant r = t \<and> status r = Running \<and> lease_owner r = Some w),
     st_set = (\<lambda>r. bump n (clear_lease (r\<lparr>status := Succeeded, result := json_column res,
       ai_explanation := Some expl, error_code := None, error_message := None\<rparr>)))\<rparr>"

definition worker_fail_stmt ::
    "int \<Rightarrow> string \<Rightarrow> string \<Rightarrow> string \<Rightarrow> OperationStatus \<Rightarrow> string \<Rightarrow> string \<Rightarrow> string \<Rightarrow> stmt" where
  "worker_fail_stmt n i t w st code msg expl = \<lparr>
     st_where = (\<lambda>r. op_id r = i \<and> op_tenant r = t \<and> lease_owner r = Some w \<and> status r = Running),
     st_set = (\<lambda>r. bump n (clear_lease (r\<lparr>status := st, error_code := Some code,
       error_message := Some msg, ai_explanation := Some expl\<rparr>)))\<rparr>"

definition reap_dead_stmt :: "int \<Rightarrow> string \<Rightarrow> stmt" where
  "reap_dead_stmt n i = \<lparr>
     st_where = (\<lambda>r. op_id r = i \<and> status r = Running \<and> lease_expired n r),
     st_set = (\<lambda>r. bump n (clear_lease (r\<lparr>status := DeadLettered,
       error_code := Some ''LEASE_EXPIRED'', error_message := Some ''worker lease expired''\<rparr>)))\<rparr>"

definition reap_retry_stmt :: "int \<Rightarrow> string \<Rightarrow> stmt" where
  "reap_retry_stmt n i = \<lparr>
     st_where = (\<lambda>r. op_id r = i \<and> status r = Running \<and> lease_expired n r),
     st_set = (\<lambda>r. bump n (clear_lease (r\<lparr>status := Retrying,
       error_code := Some ''LEASE_EXPIRED'',
       error_message := Some ''worker lease expired; operation requeued''\<rparr>)))\<rparr>"

lemmas stmt_defs =
  enqueue_stmt_def cancel_stmt_def redrive_stmt_def claim_stmt_def heartbeat_stmt_def
  complete_stmt_def fail_stmt_def worker_heartbeat_stmt_def worker_complete_stmt_def
  worker_fail_stmt_def reap_dead_stmt_def reap_retry_stmt_def

lemmas row_defs = bump_def clear_lease_def

section \<open>What every statement keeps\<close>

text \<open>
  A row is well formed when its status is one of the eight the table's CHECK admits and it
  carries a lease exactly while it is running.
\<close>

definition wf_row :: "op_row \<Rightarrow> bool" where
  "wf_row r \<longleftrightarrow> status r \<in> set statuses \<and>
     (lease_owner r \<noteq> None \<longleftrightarrow> status r = Running) \<and>
     (lease_expires_at r \<noteq> None \<longleftrightarrow> status r = Running)"

text \<open>The columns no statement writes: who owns the operation and what was submitted.\<close>

definition identity :: "op_row \<Rightarrow>
    string \<times> string \<times> string \<times> string \<times> string \<times> string \<times> int \<times> int option \<times> string \<times> int" where
  "identity r = (op_id r, op_tenant r, task_type r, execution_mode r, target_url r, payload r,
     max_attempts r, deadline r, idempotency_key r, created_at r)"

text \<open>
  The contract of a row statement: it selects one operation by id, keeps the identity
  columns and well-formedness, never decreases the version, and increases it whenever it
  moves the status.
\<close>

locale row_stmt =
  fixes st :: stmt and i :: string
  assumes selects: "st_where st r \<Longrightarrow> op_id r = i"
    and keeps_identity: "identity (st_set st r) = identity r"
    and keeps_wf: "st_where st r \<Longrightarrow> wf_row r \<Longrightarrow> wf_row (st_set st r)"
    and keeps_version: "version r \<le> version (st_set st r)"
    and bumps_version: "status (st_set st r) \<noteq> status r \<Longrightarrow> version r < version (st_set st r)"
begin

abbreviation result_db :: "database \<Rightarrow> database" where
  "result_db d \<equiv> fst (exec_stmt st d)"

lemma operations_exec:
  "operations (result_db d) = update_where (st_where st) (st_set st) (operations d)"
  by (simp add: exec_stmt_def)

lemma frame_exec:
  "tenants (result_db d) = tenants d" "users (result_db d) = users d"
  "api_keys (result_db d) = api_keys d" "transition_log (result_db d) = transition_log d"
  "event_outbox (result_db d) = event_outbox d" "ledger (result_db d) = ledger d"
  "webhook_endpoints (result_db d) = webhook_endpoints d"
  "webhook_outbox (result_db d) = webhook_outbox d"
  by (simp_all add: exec_stmt_def)

lemma map_identity: "map identity (operations (result_db d)) = map identity (operations d)"
  by (simp add: operations_exec map_update_where keeps_identity)

lemma map_op_id: "map op_id (operations (result_db d)) = map op_id (operations d)"
  using keeps_identity by (auto simp: operations_exec identity_def intro!: map_update_where)

lemma map_op_tenant: "map op_tenant (operations (result_db d)) = map op_tenant (operations d)"
  using keeps_identity by (auto simp: operations_exec identity_def intro!: map_update_where)

lemma map_idem_key: "map idem_key (operations (result_db d)) = map idem_key (operations d)"
  using keeps_identity
  by (auto simp: operations_exec identity_def idem_key_def intro!: map_update_where)

lemma wf_exec: "\<forall>r\<in>set (operations d). wf_row r \<Longrightarrow> \<forall>r\<in>set (operations (result_db d)). wf_row r"
  by (auto simp: operations_exec in_update_where keeps_wf)

lemma affected_le_1: "distinct (map op_id (operations d)) \<Longrightarrow> snd (exec_stmt st d) \<le> 1"
proof -
  assume "distinct (map op_id (operations d))"
  then have "count_where (st_where st) (operations d) \<le> 1"
    by (rule count_unique_key) (rule selects)
  then show ?thesis by (simp add: exec_stmt_def)
qed

lemma not_affected: "snd (exec_stmt st d) = 0 \<Longrightarrow> result_db d = d"
  by (simp add: exec_stmt_def update_where_id)

text \<open>Every other operation keeps its row.\<close>

lemma others_kept:
  "j \<noteq> i \<Longrightarrow> filter (\<lambda>r. op_id r = j) (operations (result_db d)) =
     filter (\<lambda>r. op_id r = j) (operations d)"
proof -
  assume "j \<noteq> i"
  have "op_id (st_set st r) = op_id r" for r
    using keeps_identity [of r] by (simp add: identity_def)
  with \<open>j \<noteq> i\<close> have "filter (\<lambda>r. op_id r = j) (update_where (st_where st) (st_set st) t) =
      filter (\<lambda>r. op_id r = j) t" for t
    by (induction t) (auto dest: selects)
  then show ?thesis by (simp add: operations_exec)
qed

end

lemmas contract_defs = stmt_defs row_defs identity_def wf_row_def statuses_def

interpretation enqueue: row_stmt "enqueue_stmt n i" i for n i
  by unfold_locales (auto simp: contract_defs)

interpretation cancelling: row_stmt "cancel_stmt n i t" i for n i t
  by unfold_locales (auto simp: contract_defs)

interpretation redriving: row_stmt "redrive_stmt n i t" i for n i t
  by unfold_locales (auto simp: contract_defs)

interpretation claiming: row_stmt "claim_stmt n i w secs t" i for n i w secs t
  by unfold_locales (auto simp: contract_defs)

interpretation beating: row_stmt "heartbeat_stmt n i w" i for n i w
  by unfold_locales (auto simp: contract_defs)

interpretation completing: row_stmt "complete_stmt n i w res expl" i for n i w res expl
  by unfold_locales (auto simp: contract_defs)

interpretation worker_beating: row_stmt "worker_heartbeat_stmt n i t w" i for n i t w
  by unfold_locales (auto simp: contract_defs)

interpretation worker_completing: row_stmt "worker_complete_stmt n i t w res expl" i
  for n i t w res expl
  by unfold_locales (auto simp: contract_defs)

interpretation reaping_dead: row_stmt "reap_dead_stmt n i" i for n i
  by unfold_locales (auto simp: contract_defs)

interpretation reaping_retry: row_stmt "reap_retry_stmt n i" i for n i
  by unfold_locales (auto simp: contract_defs)

text \<open>
  The two failure statements take the next status from their handler, which picks
  \<open>RETRYING\<close> or \<open>DEAD_LETTERED\<close>.
\<close>

definition failure_status :: "bool \<Rightarrow> int \<Rightarrow> int \<Rightarrow> OperationStatus" where
  "failure_status retryable att limit = (if retryable \<and> att < limit then Retrying else DeadLettered)"

lemma failure_status_cases:
  "failure_status b a m = Retrying \<or> failure_status b a m = DeadLettered"
  by (simp add: failure_status_def)

interpretation failing: row_stmt "fail_stmt n i w (failure_status b a m) code msg expl" i
  for n i w b a m code msg expl
  by unfold_locales (auto simp: contract_defs failure_status_def)

interpretation worker_failing:
  row_stmt "worker_fail_stmt n i t w (failure_status b a m) code msg expl" i
  for n i t w b a m code msg expl
  by unfold_locales (auto simp: contract_defs failure_status_def)

end
