(* ===== verification/Platform.thy ===== *)
theory Platform
  imports Contracts
begin

text \<open>
  \<open>internal/platform\<close>: HTTP headers as \<open>net/http\<close> keeps them, the reply of an Echo handler
  and its rendering by the problem handler, the middlewares that guard the routes, and the
  webhook signature.
\<close>

section \<open>Headers\<close>

text \<open>
  \<open>http.Header\<close> maps canonical keys to lists of values: \<open>Get\<close> reads the first value of the
  canonical form of the key, \<open>Set\<close> replaces them and \<open>Del\<close> removes them.
\<close>

type_synonym header = "(string \<times> string list) list"

fun canonical_from :: "bool \<Rightarrow> string \<Rightarrow> string" where
  "canonical_from up [] = []"
| "canonical_from up (c # cs) =
     (if up then upper_char c else lower_char c) # canonical_from (c = CHR ''-'') cs"

definition canonical_key :: "string \<Rightarrow> string" where
  "canonical_key k = canonical_from True k"

definition hdr_get :: "header \<Rightarrow> string \<Rightarrow> string" where
  "hdr_get h k = (case map_of h (canonical_key k) of
     Some (v # _) \<Rightarrow> v | _ \<Rightarrow> '''')"

definition hdr_del :: "header \<Rightarrow> string \<Rightarrow> header" where
  "hdr_del h k = filter (\<lambda>(k', _). k' \<noteq> canonical_key k) h"

definition hdr_set :: "header \<Rightarrow> string \<Rightarrow> string \<Rightarrow> header" where
  "hdr_set h k v = (canonical_key k, [v]) # hdr_del h k"

lemma map_of_hdr_del:
  "map_of (hdr_del h k) k' = (if k' = canonical_key k then None else map_of h k')"
  by (induction h) (auto simp: hdr_del_def)

lemma hdr_get_set: "hdr_get (hdr_set h k v) k' =
    (if canonical_key k' = canonical_key k then v else hdr_get h k')"
  by (simp add: hdr_get_def hdr_set_def map_of_hdr_del)

lemma hdr_get_del: "hdr_get (hdr_del h k) k' =
    (if canonical_key k' = canonical_key k then '''' else hdr_get h k')"
  by (simp add: hdr_get_def map_of_hdr_del)

definition TenantHeader :: string where "TenantHeader = ''X-Nexora-Tenant-ID''"
definition UserHeader :: string where "UserHeader = ''X-Nexora-User-ID''"
definition RoleHeader :: string where "RoleHeader = ''X-Nexora-Role''"

lemma header_names_distinct [simp]:
  "canonical_key TenantHeader \<noteq> canonical_key UserHeader"
  "canonical_key TenantHeader \<noteq> canonical_key RoleHeader"
  "canonical_key UserHeader \<noteq> canonical_key RoleHeader"
  "canonical_key UserHeader \<noteq> canonical_key TenantHeader"
  "canonical_key RoleHeader \<noteq> canonical_key TenantHeader"
  "canonical_key RoleHeader \<noteq> canonical_key UserHeader"
  by (simp_all add: canonical_key_def TenantHeader_def UserHeader_def RoleHeader_def
      upper_char_def lower_char_def)

section \<open>Replies\<close>

text \<open>
  What an Echo handler returns: \<open>echo.NewHTTPError\<close>, another error, a JSON body or no
  content. \<open>ProblemHandler\<close> renders the two kinds of error.
\<close>

datatype 'b reply = HTTPError int string | PlainError | JSON int 'b | NoContent int

datatype 'b rendered = ProblemBody Problem | JSONBody 'b | EmptyBody

definition status_text :: "int \<Rightarrow> string" where
  "status_text c = (case map_of [(200, ''OK''), (201, ''Created''), (202, ''Accepted''),
     (204, ''No Content''), (400, ''Bad Request''), (401, ''Unauthorized''),
     (402, ''Payment Required''), (403, ''Forbidden''), (404, ''Not Found''),
     (405, ''Method Not Allowed''), (409, ''Conflict''), (413, ''Request Entity Too Large''),
     (415, ''Unsupported Media Type''), (422, ''Unprocessable Entity''),
     (429, ''Too Many Requests''), (500, ''Internal Server Error''), (502, ''Bad Gateway''),
     (503, ''Service Unavailable''), (504, ''Gateway Timeout'')] c of
     Some s \<Rightarrow> s | None \<Rightarrow> '''')"

definition problem :: "string \<Rightarrow> string \<Rightarrow> int \<Rightarrow> string \<Rightarrow> Problem" where
  "problem path request_id code detail =
     \<lparr>pb_type = ''about:blank'', pb_title = status_text code, pb_status = code,
      pb_detail = detail, pb_instance = path, pb_request_id = request_id\<rparr>"

fun ProblemHandler :: "string \<Rightarrow> string \<Rightarrow> 'b reply \<Rightarrow> int \<times> 'b rendered" where
  "ProblemHandler path rid (HTTPError code msg) = (code, ProblemBody (problem path rid code msg))"
| "ProblemHandler path rid PlainError =
     (500, ProblemBody (problem path rid 500 ''internal server error''))"
| "ProblemHandler path rid (JSON code b) = (code, JSONBody b)"
| "ProblemHandler path rid (NoContent code) = (code, EmptyBody)"

fun reply_status :: "'b reply \<Rightarrow> int" where
  "reply_status (HTTPError code msg) = code"
| "reply_status PlainError = 500"
| "reply_status (JSON code b) = code"
| "reply_status (NoContent code) = code"

lemma ProblemHandler_status: "fst (ProblemHandler path rid r) = reply_status r"
  by (cases r) auto

section \<open>Handlers and middlewares\<close>

text \<open>
  A handler reads the request headers and the state it serves, and returns the new state,
  the calls it issued to other services, in order, and its reply.
\<close>

type_synonym ('s, 'e, 'b) handler = "header \<Rightarrow> 's \<Rightarrow> 's \<times> 'e list \<times> 'b reply"

definition RequireTenant :: "('s, 'e, 'b) handler \<Rightarrow> ('s, 'e, 'b) handler" where
  "RequireTenant next h s =
     (if hdr_get h TenantHeader = ''''
      then (s, [], HTTPError 401 ''tenant context missing'') else next h s)"

definition RequireInternal :: "string \<Rightarrow> ('s, 'e, 'b) handler \<Rightarrow> ('s, 'e, 'b) handler" where
  "RequireInternal secret next h s =
     (if secret = '''' \<or> hdr_get h ''X-Internal-Secret'' \<noteq> secret
      then (s, [], HTTPError 401 ''invalid internal credentials'') else next h s)"

text \<open>\<open>RequestID\<close>: the caller's identifier, trimmed, or a random one when it is empty.\<close>

definition RequestID :: "string \<Rightarrow> header \<Rightarrow> string" where
  "RequestID random h =
     (let i = trim_space (hdr_get h ''X-Request-ID'') in if i = '''' then random else i)"

section \<open>Signatures\<close>

definition hex_digit :: "nat \<Rightarrow> char" where
  "hex_digit n = (if n < 10 then char_of (48 + n) else char_of (87 + n))"

definition hex_encode :: "string \<Rightarrow> string" where
  "hex_encode s = concat (map (\<lambda>c. let n = of_char c in [hex_digit (n div 16), hex_digit (n mod 16)]) s)"

text \<open>\<open>mac\<close> is HMAC-SHA256 and \<open>sha\<close> SHA-256, keys and digests as bytes.\<close>

definition SHA256Hex :: "(string \<Rightarrow> string) \<Rightarrow> string \<Rightarrow> string" where
  "SHA256Hex sha value = hex_encode (sha value)"

definition HMACSignature :: "(string \<Rightarrow> string \<Rightarrow> string) \<Rightarrow> string \<Rightarrow> string \<Rightarrow> string" where
  "HMACSignature mac secret body = ''sha256='' @ hex_encode (mac secret body)"

definition ValidHMAC ::
    "(string \<Rightarrow> string \<Rightarrow> string) \<Rightarrow> string \<Rightarrow> string \<Rightarrow> string \<Rightarrow> bool" where
  "ValidHMAC mac secret body signature = (HMACSignature mac secret body = signature)"

end
