(* ===== verification/Operations.thy ===== *)
theory Operations
  imports Statements Platform
begin

text \<open>
  \<open>cmd/operations/main.go\<close>: the HTTP handlers of the Operations service and the DBOS
  workflow that publishes an operation. A handler takes the clock, the identifiers it
  draws, the bound request body (\<open>None\<close> when binding fails) and the failures of its calls
  (numbered from 0 in the order the code makes them), and then works on the request headers
  and the database. A transaction that fails or is rolled back leaves the database as it was.
\<close>

section \<open>Requests, calls and bodies\<close>

record createInput =
  ci_task_type :: string
  ci_target_url :: string
  ci_payload :: string
  ci_max_attempts :: int
  ci_deadline :: "int option"
  ci_execution_mode :: string
  ci_scheduled_for :: "int option"

record completeInput =
  co_worker_id :: string
  co_result :: string
  co_ai_explanation :: string

record failInput =
  fi_worker_id :: string
  fi_error_code :: string
  fi_error_message :: string
  fi_ai_explanation :: string
  fi_retryable :: bool

text \<open>The Go struct \<open>operation\<close>: the columns of \<open>operationColumns\<close>, in their order.\<close>

record operation =
  o_id :: string
  o_tenant_id :: string
  o_task_type :: string
  o_execution_mode :: string
  o_target_url :: string
  o_payload :: string
  o_status :: string
  o_attempt :: int
  o_max_attempts :: int
  o_deadline :: "int option"
  o_result :: "string option"
  o_error_code :: "string option"
  o_error_message :: "string option"
  o_ai_explanation :: "string option"
  o_created_at :: int
  o_updated_at :: int

definition scanOperation :: "op_row \<Rightarrow> operation" where
  "scanOperation r = \<lparr>o_id = op_id r, o_tenant_id = op_tenant r, o_task_type = task_type r,
     o_execution_mode = execution_mode r, o_target_url = target_url r, o_payload = payload r,
     o_status = status_string (status r), o_attempt = attempt r, o_max_attempts = max_attempts r,
     o_deadline = deadline r, o_result = result r, o_error_code = error_code r,
     o_error_message = error_message r, o_ai_explanation = ai_explanation r,
     o_created_at = created_at r, o_updated_at = updated_at r\<rparr>"

text \<open>The envelope scanned from the row of an operation; \<open>NotBefore\<close> is nil.\<close>

definition scan_envelope :: "op_row \<Rightarrow> QueueEnvelope" where
  "scan_envelope r = \<lparr>env_operation_id = op_id r, env_tenant_id = op_tenant r,
     env_task_type = task_type r, env_target_url = target_url r, env_payload = payload r,
     env_attempt = attempt r, env_max_attempts = max_attempts r, env_deadline = deadline r,
     env_execution_mode = execution_mode r, env_not_before = None\<rparr>"

text \<open>The calls a handler issues to DBOS, Redis and the Usage service.\<close>

datatype call =
  RunWorkflow string QueueEnvelope
| Sleep int
| XAdd QueueEnvelope
| SetCursor string stream_id
| PostEvent OperationEvent

datatype body =
  OpBody operation
| OpItems "operation list"
| EnvelopeBody QueueEnvelope
| Fields "(string \<times> string) list"

type_synonym op_handler = "(database, call, body) handler"

section \<open>Publishing an operation\<close>

text \<open>
  The step of the workflow: the status moves to \<open>QUEUED\<close> (or is \<open>QUEUED\<close> already, when the
  step is executed again), the transition is logged, the envelope goes to the stream. The
  result is the returned identifier, or \<open>None\<close> for an error. Calls: the update (0), the
  status query (1), the log (2), the stream (3).
\<close>

definition enqueue_log :: "int \<Rightarrow> QueueEnvelope \<Rightarrow> log_row" where
  "enqueue_log n env = \<lparr>lg_operation_id = env_operation_id env, lg_tenant_id = env_tenant_id env,
     lg_from_status = None, lg_to_status = Queued,
     lg_reason = ''DBOS workflow enqueued operation'', lg_created_at = n\<rparr>"

definition publish_step ::
    "int \<Rightarrow> faults \<Rightarrow> QueueEnvelope \<Rightarrow> database \<Rightarrow> database \<times> call list \<times> string option" where
  "publish_step n f env d =
     (if f 2 \<or> env_operation_id env \<notin> op_id ` set (operations d) then (d, [], None)
      else let d' = d\<lparr>transition_log := transition_log d @ [enqueue_log n env]\<rparr>
           in if f 3 then (d', [], None) else (d', [XAdd env], Some (env_operation_id env)))"

definition enqueueOperationStep ::
    "int \<Rightarrow> faults \<Rightarrow> QueueEnvelope \<Rightarrow> database \<Rightarrow> database \<times> call list \<times> string option" where
  "enqueueOperationStep n f env d =
     (if f 0 then (d, [], None)
      else let (d', affected) = exec_stmt (enqueue_stmt n (env_operation_id env)) d
      in if affected = 0
         then (case (if f 1 then None
                     else find_row (\<lambda>r. op_id r = env_operation_id env) (operations d')) of
             None \<Rightarrow> (d', [], None)
           | Some r \<Rightarrow> if status r \<noteq> Queued then (d', [], Some (env_operation_id env))
                       else publish_step n f env d')
         else publish_step n f env d')"

text \<open>The workflow sleeps until \<open>NotBefore\<close>; the step then runs at the later instant.\<close>

definition workflow_delay :: "int \<Rightarrow> QueueEnvelope \<Rightarrow> int" where
  "workflow_delay n env = (case env_not_before env of None \<Rightarrow> 0 | Some t \<Rightarrow> max 0 (t - n))"

definition queueOperationWorkflow ::
    "int \<Rightarrow> faults \<Rightarrow> QueueEnvelope \<Rightarrow> database \<Rightarrow> database \<times> call list \<times> string option" where
  "queueOperationWorkflow n f env d =
     (let delay = workflow_delay n env;
          (d', calls, res) = enqueueOperationStep (n + delay) f env d
      in (d', (if delay > 0 then [Sleep delay] else []) @ calls, res))"

section \<open>Submission\<close>

text \<open>The checks and defaults of \<open>create\<close>, in their order; every failure is a 400.\<close>

definition check_input :: "createInput \<Rightarrow> string + createInput" where
  "check_input i =
     (if ci_task_type i = '''' \<or> ci_target_url i = ''''
        then Inl ''task_type and target_url are required''
      else if \<not> has_prefix (ci_target_url i) ''http://'' \<and> \<not> has_prefix (ci_target_url i) ''https://''
        then Inl ''target_url must use http or https''
      else
        let i = (if ci_payload i = [] then i\<lparr>ci_payload := ''{}''\<rparr> else i);
            i = (if ci_max_attempts i = 0 then i\<lparr>ci_max_attempts := 3\<rparr> else i)
        in if ci_max_attempts i < 1 \<or> ci_max_attempts i > 10
             then Inl ''max_attempts must be between 1 and 10''
           else
             let i = (if ci_execution_mode i = '''' then i\<lparr>ci_execution_mode := ''PRIVATE''\<rparr> else i)
             in if ci_execution_mode i \<noteq> ''PRIVATE'' \<and> ci_execution_mode i \<noteq> ''CLOUD''
                  then Inl ''execution_mode must be PRIVATE or CLOUD''
                else Inr i)"

definition check_key :: "header \<Rightarrow> string + string" where
  "check_key h =
     (let idem = trim_space (hdr_get h ''Idempotency-Key'')
      in if idem = '''' then Inl ''Idempotency-Key header is required''
         else if length idem > 200 then Inl ''Idempotency-Key is too long''
         else Inr idem)"

definition used_units :: "clock \<Rightarrow> string \<Rightarrow> database \<Rightarrow> int" where
  "used_units clk t d = sum_list (map le_units
     (filter (\<lambda>l. le_tenant_id l = t \<and> month_start clk \<le> le_created_at l) (ledger d)))"

definition running_count :: "string \<Rightarrow> database \<Rightarrow> nat" where
  "running_count t d = count_where (\<lambda>r. op_tenant r = t \<and> status r = Running) (operations d)"

definition new_operation :: "int \<Rightarrow> string \<Rightarrow> string \<Rightarrow> string \<Rightarrow> createInput \<Rightarrow> op_row" where
  "new_operation n i t idem inp = \<lparr>op_id = i, op_tenant = t, task_type = ci_task_type inp,
     execution_mode = ci_execution_mode inp, target_url = ci_target_url inp,
     payload = ci_payload inp, status = Pending, attempt = 0,
     max_attempts = ci_max_attempts inp, deadline = ci_deadline inp, lease_owner = None,
     lease_expires_at = None, result = None, error_code = None, error_message = None,
     ai_explanation = None, idempotency_key = idem, version = 0, created_at = n, updated_at = n\<rparr>"

text \<open>
  The insert with its two unique constraints: a known (tenant, key) pair is ignored, a
  known primary key is an error.
\<close>

definition insert_operation :: "op_row \<Rightarrow> database \<Rightarrow> database option" where
  "insert_operation r d =
     (if idem_key r \<notin> idem_key ` set (operations d) \<and> op_id r \<in> op_id ` set (operations d)
      then None else Some (put_operation r d))"

definition create_envelope :: "string \<Rightarrow> string \<Rightarrow> createInput \<Rightarrow> QueueEnvelope" where
  "create_envelope i t inp = \<lparr>env_operation_id = i, env_tenant_id = t,
     env_task_type = ci_task_type inp, env_target_url = ci_target_url inp,
     env_payload = ci_payload inp, env_attempt = 0, env_max_attempts = ci_max_attempts inp,
     env_deadline = ci_deadline inp, env_execution_mode = ci_execution_mode inp,
     env_not_before = ci_scheduled_for inp\<rparr>"

text \<open>
  The part of \<open>create\<close> after the limits: the insert (3), the row read back (4), the
  workflow of a first submission (5).
\<close>

definition store_operation ::
    "int \<Rightarrow> string \<Rightarrow> string \<Rightarrow> string \<Rightarrow> createInput \<Rightarrow> faults \<Rightarrow> database \<Rightarrow>
     database \<times> call list \<times> body reply" where
  "store_operation n i t idem inp f d =
     (case (if f 3 then None else insert_operation (new_operation n i t idem inp) d) of
        None \<Rightarrow> (d, [], PlainError)
      | Some d' \<Rightarrow>
         (case (if f 4 then None
                else find_row (\<lambda>r. op_tenant r = t \<and> idempotency_key r = idem) (operations d')) of
            None \<Rightarrow> (d', [], PlainError)
          | Some r \<Rightarrow>
              if op_id r \<noteq> i then (d', [], JSON 200 (OpBody (scanOperation r)))
              else if f 5 then (d', [], PlainError)
              else (d', [RunWorkflow (''operation:'' @ i) (create_envelope i t inp)],
                    JSON 202 (OpBody (scanOperation r)))))"

definition create :: "clock \<Rightarrow> string \<Rightarrow> createInput option \<Rightarrow> faults \<Rightarrow> op_handler" where
  "create clk i bound f h d =
     (case bound of None \<Rightarrow> (d, [], HTTPError 400 ''invalid JSON'')
      | Some raw \<Rightarrow>
     (case check_input raw of Inl msg \<Rightarrow> (d, [], HTTPError 400 msg)
      | Inr inp \<Rightarrow>
     (case check_key h of Inl msg \<Rightarrow> (d, [], HTTPError 400 msg)
      | Inr idem \<Rightarrow>
     (let t = hdr_get h TenantHeader in
      case (if f 0 then None else find_row (\<lambda>x. tn_id x = t) (tenants d)) of
        None \<Rightarrow> (d, [], PlainError)
      | Some tn \<Rightarrow>
          if f 1 \<or> f 2 then (d, [], PlainError)
          else if used_units clk t d \<ge> tn_monthly_quota tn
            then (d, [], HTTPError 402 ''monthly quota exhausted'')
          else if int (running_count t d) \<ge> tn_concurrency_limit tn
            then (d, [], HTTPError 429 ''tenant concurrency limit reached'')
          else store_operation (now clk) i t idem inp f d))))"

section \<open>Reading operations\<close>

definition get_op :: "string \<Rightarrow> faults \<Rightarrow> op_handler" where
  "get_op i f h d =
     (if f 0 then (d, [], PlainError)
      else case find_row (\<lambda>r. op_id r = i \<and> op_tenant r = hdr_get h TenantHeader) (operations d) of
        None \<Rightarrow> (d, [], HTTPError 404 ''operation not found'')
      | Some r \<Rightarrow> (d, [], JSON 200 (OpBody (scanOperation r))))"

definition getInternal :: "string \<Rightarrow> faults \<Rightarrow> op_handler" where
  "getInternal i f h d =
     (if f 0 then (d, [], PlainError)
      else case find_row (\<lambda>r. op_id r = i) (operations d) of
        None \<Rightarrow> (d, [], HTTPError 404 ''operation not found'')
      | Some r \<Rightarrow> (d, [], JSON 200 (OpBody (scanOperation r))))"

text \<open>
  \<open>list\<close> builds its query from fragments: the arguments start with the limit, each
  condition appends its value and names its position as the placeholder \<open>$n\<close>.
\<close>

datatype sql_arg = ArgInt int | ArgStr string

datatype sql_col = ColTenant | ColStatus

fun col_value :: "sql_col \<Rightarrow> op_row \<Rightarrow> string" where
  "col_value ColTenant r = op_tenant r"
| "col_value ColStatus r = status_string (status r)"

definition cond_holds :: "sql_arg list \<Rightarrow> sql_col \<times> nat \<Rightarrow> op_row \<Rightarrow> bool" where
  "cond_holds args c r =
     (snd c \<ge> 1 \<and> snd c \<le> length args \<and> args ! (snd c - 1) = ArgStr (col_value (fst c) r))"

definition list_limit :: "string \<Rightarrow> int" where
  "list_limit q = (let limit = fst (atoi q) in if limit \<le> 0 \<or> limit > 100 then 50 else limit)"

definition list_query :: "int \<Rightarrow> string \<Rightarrow> string \<Rightarrow> bool \<Rightarrow> sql_arg list \<times> (sql_col \<times> nat) list" where
  "list_query limit t st admin =
     (let args = [ArgInt limit]; conds = [];
          (args, conds) = (if \<not> admin
             then let args = args @ [ArgStr t] in (args, conds @ [(ColTenant, length args)])
             else (args, conds));
          (args, conds) = (if st \<noteq> ''''
             then let args = args @ [ArgStr st] in (args, conds @ [(ColStatus, length args)])
             else (args, conds))
      in (args, conds))"

definition run_list_query :: "sql_arg list \<Rightarrow> (sql_col \<times> nat) list \<Rightarrow> op_row list \<Rightarrow> op_row list" where
  "run_list_query args conds rows =
     (let sel = filter (\<lambda>r. \<forall>c\<in>set conds. cond_holds args c r) rows;
          sorted = sort_key (\<lambda>r. - created_at r) sel
      in case args of ArgInt n # _ \<Rightarrow> take (nat n) sorted | _ \<Rightarrow> sorted)"

definition list_ops :: "string \<Rightarrow> string \<Rightarrow> faults \<Rightarrow> op_handler" where
  "list_ops qlimit qstatus f h d =
     (let t = hdr_get h TenantHeader; limit = list_limit qlimit;
          admin = (hdr_get h RoleHeader = ''admin'');
          (args, conds) = list_query limit t qstatus admin
      in if f 0 \<or> f 1 then (d, [], PlainError)
         else (d, [], JSON 200 (OpItems (map scanOperation (run_list_query args conds (operations d))))))"

section \<open>Cancellation and redrive\<close>

definition cancel :: "int \<Rightarrow> string \<Rightarrow> faults \<Rightarrow> op_handler" where
  "cancel n i f h d =
     (let t = hdr_get h TenantHeader in
      if f 0 then (d, [], PlainError)
      else let (d', affected) = exec_stmt (cancel_stmt n i t) d
      in if affected = 0
         then (if f 1 then (d', [], PlainError)
               else case find_row (\<lambda>r. op_id r = i \<and> op_tenant r = t) (operations d') of
                 None \<Rightarrow> (d', [], HTTPError 404 ''operation not found'')
               | Some r \<Rightarrow>
                   if IsTerminal (status r) \<or> \<not> CanTransition (status r) Cancelled
                   then (d', [], HTTPError 409 ''operation is already terminal or not cancellable'')
                   else (d', [], HTTPError 409 ''operation could not be cancelled''))
         else (d', [], NoContent 204))"

definition redrive :: "int \<Rightarrow> string \<Rightarrow> string \<Rightarrow> faults \<Rightarrow> op_handler" where
  "redrive n uuid i f h d =
     (let t = hdr_get h TenantHeader; st = redrive_stmt n i t in
      if f 0 then (d, [], PlainError)
      else case find_row (st_where st) (operations d) of
        None \<Rightarrow> (d, [], HTTPError 409 ''operation is not redrivable'')
      | Some r \<Rightarrow>
          let d' = fst (exec_stmt st d); env = scan_envelope (st_set st r)
          in if f 1 then (d', [], PlainError)
             else (d', [RunWorkflow (''redrive:'' @ env_operation_id env @ '':'' @ uuid) env],
                   JSON 202 (Fields [(''id'', env_operation_id env), (''status'', ''RETRYING'')])))"

section \<open>Claims\<close>

text \<open>
  The claim transaction: begin (0), lock the operation (1), lock the tenant (2), count (3),
  update (4), commit (5). \<open>None\<close> is an error, otherwise the tenant and whether it claimed.
\<close>

definition claimOperation ::
    "int \<Rightarrow> string \<Rightarrow> string \<Rightarrow> string \<Rightarrow> int \<Rightarrow> faults \<Rightarrow> database \<Rightarrow>
     database \<times> (string \<times> bool) option" where
  "claimOperation n i expected w secs f d =
     (if f 0 \<or> f 1 then (d, None)
      else case find_row (\<lambda>r. op_id r = i \<and> (expected \<noteq> '''' \<longrightarrow> op_tenant r = expected) \<and>
                  status r \<in> {Queued, Retrying}) (operations d) of
        None \<Rightarrow> (d, Some ('''', False))
      | Some r \<Rightarrow>
         (let t = op_tenant r in
          case (if f 2 then None else find_row (\<lambda>x. tn_id x = t) (tenants d)) of
            None \<Rightarrow> (d, None)
          | Some tn \<Rightarrow>
              if f 3 then (d, None)
              else if int (running_count t d) \<ge> tn_concurrency_limit tn then (d, Some (t, False))
              else if f 4 then (d, None)
              else let (d', affected) = exec_stmt (claim_stmt n i w secs t) d
              in if affected \<noteq> 1 then (d, Some (t, False))
                 else if f 5 then (d, None)
                 else (d', Some (t, True))))"

text \<open>A claim either changes nothing and claims nothing, or is the claim statement.\<close>

lemma claimOperation_cases:
  "(fst (claimOperation n i ex w secs f d) = d \<and>
     (snd (claimOperation n i ex w secs f d) = None \<or>
      (\<exists>t. snd (claimOperation n i ex w secs f d) = Some (t, False)))) \<or>
   (\<exists>r tn. r \<in> set (operations d) \<and> op_id r = i \<and> (ex \<noteq> '''' \<longrightarrow> op_tenant r = ex) \<and>
      status r \<in> {Queued, Retrying} \<and> find_row (\<lambda>x. tn_id x = op_tenant r) (tenants d) = Some tn \<and>
      int (running_count (op_tenant r) d) < tn_concurrency_limit tn \<and>
      claimOperation n i ex w secs f d =
        (fst (exec_stmt (claim_stmt n i w secs (op_tenant r)) d), Some (op_tenant r, True)))"
proof (cases "find_row (\<lambda>r. op_id r = i \<and> (ex \<noteq> '''' \<longrightarrow> op_tenant r = ex) \<and>
    status r \<in> {Queued, Retrying}) (operations d)")
  case None
  then show ?thesis by (simp add: claimOperation_def)
next
  case (Some r)
  note row = find_row_Some [OF Some]
  let ?t = "op_tenant r"
  have eq: "claimOperation n i ex w secs f d =
     (if f 0 \<or> f 1 then (d, None)
      else case (if f 2 then None else find_row (\<lambda>x. tn_id x = ?t) (tenants d)) of
            None \<Rightarrow> (d, None)
          | Some tn \<Rightarrow>
              if f 3 then (d, None)
              else if int (running_count ?t d) \<ge> tn_concurrency_limit tn then (d, Some (?t, False))
              else if f 4 then (d, None)
              else if snd (exec_stmt (claim_stmt n i w secs ?t) d) \<noteq> 1 then (d, Some (?t, False))
              else if f 5 then (d, None)
              else (fst (exec_stmt (claim_stmt n i w secs ?t) d), Some (?t, True)))"
    unfolding claimOperation_def Some Let_def split_def option.case by (rule refl)
  show ?thesis
  proof (cases "fst (claimOperation n i ex w secs f d) = d \<and>
     (snd (claimOperation n i ex w secs f d) = None \<or>
      (\<exists>t. snd (claimOperation n i ex w secs f d) = Some (t, False)))")
    case False
    then obtain tn where "find_row (\<lambda>x. tn_id x = ?t) (tenants d) = Some tn"
      "int (running_count ?t d) < tn_concurrency_limit tn"
      "claimOperation n i ex w secs f d =
        (fst (exec_stmt (claim_stmt n i w secs ?t) d), Some (?t, True))"
      unfolding eq by (auto split: option.splits if_splits)
    then show ?thesis using row by blast
  qed blast
qed

lemma claimOperation_claimed:
  assumes "claimOperation n i ex w secs f d = (d', Some (t, True))"
  obtains r where "r \<in> set (operations d)" "op_id r = i" "ex \<noteq> '''' \<longrightarrow> op_tenant r = ex"
    "status r \<in> {Queued, Retrying}" "d' = fst (exec_stmt (claim_stmt n i w secs (op_tenant r)) d)"
  using claimOperation_cases [of n i ex w secs f d] that
  unfolding assms fst_conv snd_conv by blast

lemma claimOperation_unclaimed:
  "claimOperation n i ex w secs f d = (d', res) \<Longrightarrow> (\<And>t. res \<noteq> Some (t, True)) \<Longrightarrow> d' = d"
  using claimOperation_cases [of n i ex w secs f d] by (elim disjE exE conjE) auto

definition claim :: "int \<Rightarrow> string \<Rightarrow> (string \<times> int) option \<Rightarrow> faults \<Rightarrow> op_handler" where
  "claim n i bound f h d =
     (case bound of None \<Rightarrow> (d, [], HTTPError 400 ''invalid JSON'')
      | Some (w, secs) \<Rightarrow>
         (let secs = (if secs \<le> 0 then 30 else secs);
              (d', res) = claimOperation n i '''' w secs f d
          in case res of
               None \<Rightarrow> (d', [], PlainError)
             | Some (t, claimed) \<Rightarrow>
                 if \<not> claimed then (d', [], HTTPError 409 ''operation is not claimable'')
                 else (d', [], JSON 200 (Fields [(''tenant_id'', t), (''status'', ''RUNNING'')]))))"

end
