(* ===== verification/Leases.thy ===== *)
theory Leases
  imports Operations
begin

text \<open>
  \<open>cmd/operations/main.go\<close>, the protocol of a lease after the claim: heartbeats, completion
  and failure on the internal (cloud) and the public (private worker) routes, the outbox of
  operation events, its dispatcher, and the reaper of expired leases.
\<close>

section \<open>The internal routes\<close>

definition heartbeat :: "int \<Rightarrow> string \<Rightarrow> string option \<Rightarrow> faults \<Rightarrow> op_handler" where
  "heartbeat n i bound f h d =
     (let w = (case bound of None \<Rightarrow> '''' | Some x \<Rightarrow> x) in
      if f 0 then (d, [], PlainError)
      else let (d', affected) = exec_stmt (heartbeat_stmt n i w) d
      in if affected = 0 then (d', [], HTTPError 409 ''lease not owned'')
         else (d', [], NoContent 204))"

definition complete :: "int \<Rightarrow> string \<Rightarrow> completeInput option \<Rightarrow> faults \<Rightarrow> op_handler" where
  "complete n i bound f h d =
     (case bound of None \<Rightarrow> (d, [], HTTPError 400 ''invalid JSON'')
      | Some inp \<Rightarrow>
          if f 0 then (d, [], PlainError)
          else let (d', affected) = exec_stmt (complete_stmt n i (co_worker_id inp) (co_result inp)
                 (co_ai_explanation inp)) d
          in if affected = 0 then (d', [], HTTPError 409 ''operation cannot be completed'')
             else (d', [], NoContent 204))"

text \<open>
  The workflow that requeues a failed attempt, after the delay of the attempt.
\<close>

definition retry_call :: "int \<Rightarrow> QueueEnvelope \<Rightarrow> call" where
  "retry_call n env = RunWorkflow
     (''retry:'' @ env_operation_id env @ '':'' @ itoa (env_attempt env))
     (env\<lparr>env_not_before := Some (n + RetryDelay (env_attempt env))\<rparr>)"

text \<open>\<open>fail\<close>: the select (0), the update (1), the workflow (2).\<close>

definition fail :: "int \<Rightarrow> string \<Rightarrow> failInput option \<Rightarrow> faults \<Rightarrow> op_handler" where
  "fail n i bound f h d =
     (case bound of None \<Rightarrow> (d, [], HTTPError 400 ''invalid JSON'')
      | Some inp \<Rightarrow>
      (if f 0 then (d, [], PlainError)
       else case find_row (\<lambda>r. op_id r = i \<and> status r = Running \<and>
                   lease_owner r = Some (fi_worker_id inp)) (operations d) of
         None \<Rightarrow> (d, [], HTTPError 409 ''operation cannot be failed'')
       | Some r \<Rightarrow>
          (let env = scan_envelope r;
               st = failure_status (fi_retryable inp) (attempt r) (env_max_attempts env)
           in if f 1 then (d, [], PlainError)
              else let (d', affected) = exec_stmt (fail_stmt n i (fi_worker_id inp) st
                     (fi_error_code inp) (fi_error_message inp) (fi_ai_explanation inp)) d
              in if affected = 0 then (d', [], HTTPError 409 ''operation cannot be failed'')
                 else if st = Retrying
                   then (if f 2 then (d', [], PlainError)
                         else (d', [retry_call n env], JSON 200 (Fields [(''status'', status_string st)])))
                 else (d', [], JSON 200 (Fields [(''status'', status_string st)])))))"

section \<open>The event outbox\<close>

text \<open>
  \<open>insertEvent\<close>: an empty or invalid payload becomes the empty object, a known event key is
  ignored, a clash of the generated primary key is an error.
\<close>

definition event_payload :: "string \<Rightarrow> string" where
  "event_payload p = (if p = [] \<or> \<not> json_valid p then ''{}'' else p)"

definition new_event :: "int \<Rightarrow> string \<Rightarrow> string \<Rightarrow> string \<Rightarrow> string \<Rightarrow> string \<Rightarrow> string \<Rightarrow> event_row" where
  "new_event n g key typ i t p = \<lparr>eo_id = g, eo_event_key = key, eo_event_type = typ,
     eo_operation_id = i, eo_tenant_id = t, eo_units = 1, eo_payload = event_payload p,
     eo_status = ObPending, eo_attempt = 0, eo_next_attempt_at = n, eo_last_error = None,
     eo_created_at = n, eo_delivered_at = None\<rparr>"

definition insertEvent ::
    "int \<Rightarrow> string \<Rightarrow> string \<Rightarrow> string \<Rightarrow> string \<Rightarrow> string \<Rightarrow> string \<Rightarrow> database \<Rightarrow> database option" where
  "insertEvent n g key typ i t p d =
     (if key \<notin> eo_event_key ` set (event_outbox d) \<and> g \<in> eo_id ` set (event_outbox d) then None
      else Some (put_event (new_event n g key typ i t p) d))"

definition event_key :: "string \<Rightarrow> string \<Rightarrow> int \<Rightarrow> string" where
  "event_key i typ a = i @ '':'' @ typ @ '':'' @ itoa a"

section \<open>The private worker's routes\<close>

definition workerHeartbeat :: "int \<Rightarrow> string \<Rightarrow> string option \<Rightarrow> faults \<Rightarrow> op_handler" where
  "workerHeartbeat n i bound f h d =
     (let t = hdr_get h TenantHeader; w = (case bound of None \<Rightarrow> '''' | Some x \<Rightarrow> x) in
      if f 0 then (d, [], PlainError)
      else let (d', affected) = exec_stmt (worker_heartbeat_stmt n i t w) d
      in if affected = 0 then (d', [], HTTPError 409 ''lease not owned'')
         else (d', [], NoContent 204))"

text \<open>\<open>workerComplete\<close>: begin (0), update (1), event (2), commit (3).\<close>

definition workerComplete ::
    "int \<Rightarrow> string \<Rightarrow> string \<Rightarrow> completeInput option \<Rightarrow> faults \<Rightarrow> op_handler" where
  "workerComplete n g i bound f h d =
     (let t = hdr_get h TenantHeader in
      case bound of None \<Rightarrow> (d, [], HTTPError 400 ''invalid JSON'')
      | Some inp \<Rightarrow>
      (let st = worker_complete_stmt n i t (co_worker_id inp) (co_result inp) (co_ai_explanation inp)
       in if f 0 \<or> f 1 then (d, [], PlainError)
          else case find_row (st_where st) (operations d) of
            None \<Rightarrow> (d, [], HTTPError 409 ''operation cannot be completed'')
          | Some r \<Rightarrow>
             (case (if f 2 then None
                    else insertEvent n g (event_key i ''operation.succeeded'' (attempt r))
                           ''operation.succeeded'' i t (co_result inp) (fst (exec_stmt st d))) of
                None \<Rightarrow> (d, [], PlainError)
              | Some d' \<Rightarrow> if f 3 then (d, [], PlainError) else (d', [], NoContent 204))))"

definition fail_event_payload :: "OperationStatus \<Rightarrow> failInput \<Rightarrow> string" where
  "fail_event_payload st inp = json_object [
     (''error_code'', json_quote (fi_error_code inp)),
     (''error_message'', json_quote (fi_error_message inp)),
     (''retryable'', json_bool (fi_retryable inp)),
     (''status'', json_quote (status_string st))]"

text \<open>\<open>workerFail\<close>: select (0), begin (1), update (2), event (3), commit (4), workflow (5).\<close>

definition workerFail ::
    "int \<Rightarrow> string \<Rightarrow> string \<Rightarrow> failInput option \<Rightarrow> faults \<Rightarrow> op_handler" where
  "workerFail n g i bound f h d =
     (let t = hdr_get h TenantHeader in
      case bound of None \<Rightarrow> (d, [], HTTPError 400 ''invalid JSON'')
      | Some inp \<Rightarrow>
      (if f 0 then (d, [], PlainError)
       else case find_row (\<lambda>r. op_id r = i \<and> op_tenant r = t \<and> status r = Running \<and>
                   lease_owner r = Some (fi_worker_id inp)) (operations d) of
         None \<Rightarrow> (d, [], HTTPError 409 ''operation cannot be failed'')
       | Some r \<Rightarrow>
          (let env = scan_envelope r;
               st = failure_status (fi_retryable inp) (env_attempt env) (env_max_attempts env);
               typ = (if st = DeadLettered then ''operation.dead_lettered'' else ''operation.failed'')
           in if f 1 \<or> f 2 then (d, [], PlainError)
              else let (d', affected) = exec_stmt (worker_fail_stmt n i t (fi_worker_id inp) st
                     (fi_error_code inp) (fi_error_message inp) (fi_ai_explanation inp)) d
              in if affected = 0 then (d, [], HTTPError 409 ''operation cannot be failed'')
                 else (case (if f 3 then None
                             else insertEvent n g (event_key i typ (env_attempt env)) typ i t
                                    (fail_event_payload st inp) d') of
                     None \<Rightarrow> (d, [], PlainError)
                   | Some d'' \<Rightarrow>
                       if f 4 then (d, [], PlainError)
                       else if st = Retrying
                         then (if f 5 then (d'', [], PlainError)
                               else (d'', [retry_call n env],
                                     JSON 200 (Fields [(''status'', status_string st)])))
                       else (d'', [], JSON 200 (Fields [(''status'', status_string st)]))))))"

section \<open>The dispatcher of events\<close>

text \<open>What an HTTP call gave: a transport error, or a status and a body.\<close>

datatype http_result = HttpError string | HttpResponse int string

definition is_2xx :: "int \<Rightarrow> bool" where
  "is_2xx code = (200 \<le> code \<and> code < 300)"

definition usage_error :: "http_result \<Rightarrow> string option" where
  "usage_error resp = (case resp of HttpError e \<Rightarrow> Some e
     | HttpResponse code _ \<Rightarrow>
         if is_2xx code then None else Some (''usage service returned '' @ itoa code))"

definition outbox_delay :: "int \<Rightarrow> int" where
  "outbox_delay att = push_bit (nat (min (att + 1) 8)) 1"

definition due_events :: "int \<Rightarrow> event_row list \<Rightarrow> event_row list" where
  "due_events n evs = take 20 (sort_key eo_created_at
     (filter (\<lambda>e. eo_status e = ObPending \<and> eo_next_attempt_at e \<le> n) evs))"

definition event_of_row :: "int \<Rightarrow> event_row \<Rightarrow> OperationEvent" where
  "event_of_row n x = \<lparr>ev_event_key = eo_event_key x, ev_event_type = eo_event_type x,
     ev_operation_id = eo_operation_id x, ev_tenant_id = eo_tenant_id x, ev_units = eo_units x,
     ev_payload = eo_payload x, ev_occurred_at = n\<rparr>"

definition event_delivered :: "int \<Rightarrow> string \<Rightarrow> event_row list \<Rightarrow> event_row list" where
  "event_delivered n i = update_where (\<lambda>e. eo_id e = i)
     (\<lambda>e. e\<lparr>eo_status := ObDelivered, eo_delivered_at := Some n, eo_attempt := eo_attempt e + 1\<rparr>)"

definition event_retry :: "int \<Rightarrow> string \<Rightarrow> string \<Rightarrow> int \<Rightarrow> event_row list \<Rightarrow> event_row list" where
  "event_retry n i err secs = update_where (\<lambda>e. eo_id e = i)
     (\<lambda>e. e\<lparr>eo_attempt := eo_attempt e + 1, eo_last_error := Some err,
            eo_next_attempt_at := n + secs * second\<rparr>)"

text \<open>One item: the post, then the update of its row (whose failure is ignored).\<close>

definition dispatch_item ::
    "int \<Rightarrow> http_result \<Rightarrow> bool \<Rightarrow> event_row \<Rightarrow> database \<Rightarrow> database \<times> call list" where
  "dispatch_item n resp upd_fails x d =
     ((if upd_fails then d
       else d\<lparr>event_outbox :=
         (case usage_error resp of
            None \<Rightarrow> event_delivered n (eo_id x) (event_outbox d)
          | Some e \<Rightarrow> event_retry n (eo_id x) e (outbox_delay (eo_attempt x)) (event_outbox d))\<rparr>),
      [PostEvent (event_of_row n x)])"

fun dispatch_items ::
    "int \<Rightarrow> (OperationEvent \<Rightarrow> http_result) \<Rightarrow> faults \<Rightarrow> nat \<Rightarrow> event_row list \<Rightarrow> database \<Rightarrow>
     database \<times> call list" where
  "dispatch_items n usage f k [] d = (d, [])"
| "dispatch_items n usage f k (x # xs) d =
     (let (d', c) = dispatch_item n (usage (event_of_row n x)) (f k) x d;
          (d'', cs) = dispatch_items n usage f (Suc k) xs d'
      in (d'', c @ cs))"

text \<open>\<open>usage\<close> is what the Usage service answers; call 0 is the query.\<close>

definition dispatchEventBatch ::
    "int \<Rightarrow> (OperationEvent \<Rightarrow> http_result) \<Rightarrow> faults \<Rightarrow> database \<Rightarrow> database \<times> call list" where
  "dispatchEventBatch n usage f d =
     (if f 0 then (d, [])
      else dispatch_items n usage f 1 (due_events n (event_outbox d)) d)"

section \<open>The reaper\<close>

definition expired_rows :: "int \<Rightarrow> op_row list \<Rightarrow> op_row list" where
  "expired_rows n rows = take 50 (sort_key (\<lambda>r. case lease_expires_at r of None \<Rightarrow> 0 | Some e \<Rightarrow> e)
     (filter (\<lambda>r. status r = Running \<and> lease_expired n r) rows))"

definition reap_payload :: string where
  "reap_payload = json_object [(''error'', json_quote ''worker lease expired'')]"

definition recovery_call :: "int \<Rightarrow> QueueEnvelope \<Rightarrow> call" where
  "recovery_call n env = RunWorkflow
     (''lease-recovery:'' @ env_operation_id env @ '':'' @ itoa (env_attempt env))
     (env\<lparr>env_not_before := Some (n + 2 * second)\<rparr>)"

text \<open>
  One expired lease. The budget is exhausted: begin (0), update (1), event (2), commit (3).
  Otherwise: update (1), workflow (2).
\<close>

definition reap_item ::
    "int \<Rightarrow> string \<Rightarrow> faults \<Rightarrow> QueueEnvelope \<Rightarrow> database \<Rightarrow> database \<times> call list" where
  "reap_item n g f env d =
     (if env_attempt env \<ge> env_max_attempts env
      then (if f 0 \<or> f 1 then (d, [])
            else let (d', affected) = exec_stmt (reap_dead_stmt n (env_operation_id env)) d;
                     ins = (if affected = 1
                       then (if f 2 then None
                             else insertEvent n g
                               (event_key (env_operation_id env) ''operation.dead_lettered'' (env_attempt env))
                               ''operation.dead_lettered'' (env_operation_id env) (env_tenant_id env)
                               reap_payload d')
                       else Some d')
                 in (case ins of None \<Rightarrow> (d, [])
                     | Some d'' \<Rightarrow> if f 3 then (d, []) else (d'', [])))
      else if f 1 then (d, [])
      else let (d', affected) = exec_stmt (reap_retry_stmt n (env_operation_id env)) d
           in if affected = 0 then (d', [])
              else (d', if f 2 then [] else [recovery_call n env]))"

fun reap_items ::
    "int \<Rightarrow> (nat \<Rightarrow> string) \<Rightarrow> (nat \<Rightarrow> faults) \<Rightarrow> nat \<Rightarrow> QueueEnvelope list \<Rightarrow> database \<Rightarrow>
     database \<times> call list" where
  "reap_items n g f k [] d = (d, [])"
| "reap_items n g f k (env # envs) d =
     (let (d', c) = reap_item n (g k) (f k) env d;
          (d'', cs) = reap_items n g f (Suc k) envs d'
      in (d'', c @ cs))"

definition reapExpiredLeaseBatch ::
    "int \<Rightarrow> (nat \<Rightarrow> string) \<Rightarrow> bool \<Rightarrow> (nat \<Rightarrow> faults) \<Rightarrow> database \<Rightarrow> database \<times> call list" where
  "reapExpiredLeaseBatch n g query_fails f d =
     (if query_fails then (d, [])
      else reap_items n g f 0 (map scan_envelope (expired_rows n (operations d))) d)"

end
