(* ===== verification/Poll.thy ===== *)
theory Poll
  imports Leases
begin

text \<open>
  \<open>workerPoll\<close> of \<open>cmd/operations/main.go\<close>: a private worker asks for one operation. The
  tenant's cursor into the stream is read, up to 50 entries after it are read, entries that
  are not for this worker are skipped by moving the cursor, and the first claimable
  operation is claimed and returned.
\<close>

section \<open>What Redis returns\<close>

text \<open>
  The entry of a stream message: it has no string field \<open>envelope\<close>, or a field that does not
  parse, or an envelope.
\<close>

datatype entry = NoEnvelope | BadEnvelope | Envelope QueueEnvelope

datatype cursor_reply = CursorNil | CursorError | CursorAt stream_id

datatype xread_reply = XReadNil | XReadError | XReadEntries "(stream_id \<times> entry) list"

definition cursor_key :: "string \<Rightarrow> string" where
  "cursor_key t = ''private-worker-cursor:'' @ t"

section \<open>The loop over the entries\<close>

text \<open>
  The failures of the \<open>k\<close>-th entry are \<open>g k\<close>: 0 to 5 are those of its claim, 6 is the query
  of the status. A scan that fails leaves the status variable empty.
\<close>

definition polled_status :: "string \<Rightarrow> string \<Rightarrow> bool \<Rightarrow> database \<Rightarrow> OperationStatus" where
  "polled_status i t scan_fails d =
     (if scan_fails then OtherStatus ''''
      else case find_row (\<lambda>r. op_id r = i \<and> op_tenant r = t) (operations d) of
        None \<Rightarrow> OtherStatus '''' | Some r \<Rightarrow> status r)"

definition add_call :: "call \<Rightarrow> database \<times> call list \<times> body reply \<Rightarrow> database \<times> call list \<times> body reply" where
  "add_call c res = (case res of (d, cs, r) \<Rightarrow> (d, c # cs, r))"

fun poll_entries ::
    "int \<Rightarrow> string \<Rightarrow> string \<Rightarrow> (nat \<Rightarrow> faults) \<Rightarrow> nat \<Rightarrow> (stream_id \<times> entry) list \<Rightarrow> database \<Rightarrow>
     database \<times> call list \<times> body reply" where
  "poll_entries n t w g k [] d = (d, [], NoContent 204)"
| "poll_entries n t w g k ((sid, e) # es) d =
     (let skip = (\<lambda>d. add_call (SetCursor (cursor_key t) sid) (poll_entries n t w g (Suc k) es d)) in
      case e of
        NoEnvelope \<Rightarrow> skip d
      | BadEnvelope \<Rightarrow> skip d
      | Envelope env \<Rightarrow>
          if env_tenant_id env \<noteq> t \<or> env_execution_mode env \<noteq> ''PRIVATE'' then skip d
          else let (d', res) = claimOperation n (env_operation_id env) t w 45 (g k) d
          in (case res of
               None \<Rightarrow> (d', [], PlainError)
             | Some (_, claimed) \<Rightarrow>
                 if claimed
                 then (d', [SetCursor (cursor_key t) sid],
                       JSON 200 (EnvelopeBody (env\<lparr>env_attempt := env_attempt env + 1\<rparr>)))
                 else
                   let scan_fails = g k 6;
                       no_rows = (\<not> scan_fails \<and> find_row (\<lambda>r. op_id r = env_operation_id env \<and>
                         op_tenant r = t) (operations d') = None);
                       st = polled_status (env_operation_id env) t scan_fails d'
                   in if no_rows \<or> \<not> CanTransition st Running then skip d'
                      else if scan_fails then (d', [], PlainError)
                      else (d', [], NoContent 204)))"

text \<open>\<open>xread\<close> is what Redis answers to \<open>XREAD COUNT 50 BLOCK 2000\<close> after a position.\<close>

definition workerPoll ::
    "int \<Rightarrow> string option \<Rightarrow> cursor_reply \<Rightarrow> (stream_id \<Rightarrow> xread_reply) \<Rightarrow> (nat \<Rightarrow> faults) \<Rightarrow> op_handler" where
  "workerPoll n bound cursor xread g h d =
     (let t = hdr_get h TenantHeader; w = (case bound of None \<Rightarrow> '''' | Some x \<Rightarrow> x) in
      if w = '''' then (d, [], HTTPError 400 ''worker_id is required'')
      else case (case cursor of CursorNil \<Rightarrow> Some stream_start | CursorError \<Rightarrow> None
                 | CursorAt s \<Rightarrow> Some s) of
        None \<Rightarrow> (d, [], PlainError)
      | Some cur \<Rightarrow>
         (case xread cur of
            XReadNil \<Rightarrow> (d, [], NoContent 204)
          | XReadError \<Rightarrow> (d, [], PlainError)
          | XReadEntries es \<Rightarrow> poll_entries n t w g 0 es d))"

end
