(* ===== verification/Interleaving.thy ===== *)
theory Interleaving
  imports Poll
begin

text \<open>
  The database under concurrency. Every write of the Operations service is one statement or
  one transaction; \<open>op_step\<close> has a rule for each, with parameters as free as a stale read
  can make them. A list of such steps is an interleaving of any number of handlers, workers
  and service replicas. What holds along every run holds whatever the schedule.
\<close>

section \<open>Steps\<close>

datatype tag = TCreate | TEnqueue | TLog | TCancel | TRedrive | TClaim | THeartbeat
  | TComplete | TFail | TReap | TOutbox

inductive op_step :: "database \<Rightarrow> tag \<Rightarrow> database \<Rightarrow> bool" where
  step_create: "1 \<le> ci_max_attempts inp \<Longrightarrow>
    insert_operation (new_operation n i t idem inp) d = Some d' \<Longrightarrow> op_step d TCreate d'"
| step_enqueue: "op_step d TEnqueue (fst (exec_stmt (enqueue_stmt n i) d))"
| step_log: "op_step d TLog (d\<lparr>transition_log := transition_log d @ [l]\<rparr>)"
| step_cancel: "op_step d TCancel (fst (exec_stmt (cancel_stmt n i t) d))"
| step_redrive: "op_step d TRedrive (fst (exec_stmt (redrive_stmt n i t) d))"
| step_claim: "find_row (\<lambda>x. tn_id x = t) (tenants d) = Some tn \<Longrightarrow>
    int (running_count t d) < tn_concurrency_limit tn \<Longrightarrow>
    op_step d TClaim (fst (exec_stmt (claim_stmt n i w secs t) d))"
| step_heartbeat: "op_step d THeartbeat (fst (exec_stmt (heartbeat_stmt n i w) d))"
| step_worker_heartbeat: "op_step d THeartbeat (fst (exec_stmt (worker_heartbeat_stmt n i t w) d))"
| step_complete: "op_step d TComplete (fst (exec_stmt (complete_stmt n i w res expl) d))"
| step_worker_complete: "st = worker_complete_stmt n i t w res expl \<Longrightarrow>
    find_row (st_where st) (operations d) = Some r \<Longrightarrow>
    insertEvent n g (event_key i ''operation.succeeded'' (attempt r)) ''operation.succeeded'' i t p
      (fst (exec_stmt st d)) = Some d' \<Longrightarrow>
    op_step d TComplete d'"
| step_fail: "st \<in> {Retrying, DeadLettered} \<Longrightarrow>
    op_step d TFail (fst (exec_stmt (fail_stmt n i w st code msg expl) d))"
| step_worker_fail: "ty \<in> {''operation.failed'', ''operation.dead_lettered''} \<Longrightarrow> st \<in> {Retrying, DeadLettered} \<Longrightarrow>
    insertEvent n g (event_key i ty a) ty i t p
      (fst (exec_stmt (worker_fail_stmt n i t w st code msg expl) d)) = Some d' \<Longrightarrow>
    op_step d TFail d'"
| step_reap_dead: "insertEvent n g (event_key i ''operation.dead_lettered'' a)
      ''operation.dead_lettered'' i t p (fst (exec_stmt (reap_dead_stmt n i) d)) = Some d' \<Longrightarrow>
    op_step d TReap d'"
| step_reap_update: "op_step d TReap (fst (exec_stmt (reap_dead_stmt n i) d))"
| step_reap_retry: "op_step d TReap (fst (exec_stmt (reap_retry_stmt n i) d))"
| step_delivered: "op_step d TOutbox (d\<lparr>event_outbox := event_delivered n g (event_outbox d)\<rparr>)"
| step_retry: "op_step d TOutbox (d\<lparr>event_outbox := event_retry n g e secs (event_outbox d)\<rparr>)"

inductive_cases op_stepE: "op_step d l d'"

lemma insertEvent_frame:
  "insertEvent n g key typ i t p d = Some d' \<Longrightarrow>
     operations d' = operations d \<and> tenants d' = tenants d"
  by (auto simp: insertEvent_def split: if_splits)

lemma tenants_step: "op_step d l d' \<Longrightarrow> tenants d' = tenants d"
  by (induction rule: op_step.induct)
     (auto simp: exec_stmt_def insert_operation_def dest!: insertEvent_frame split: if_splits)

text \<open>
  Every step that touches the operations is one of three shapes, with the row statement
  named. All invariants of rows follow from this case split and the statements' contract.
\<close>

datatype row_write = WEnqueue | WCancel | WRedrive | WClaim | WHeartbeat | WComplete | WFail

definition row_effect :: "row_write \<Rightarrow> op_row \<Rightarrow> op_row \<Rightarrow> bool" where
  "row_effect w r r' \<longleftrightarrow> identity r' = identity r \<and> version r \<le> version r' \<and>
     (case w of
        WEnqueue \<Rightarrow> status r \<in> {Pending, Retrying} \<and> status r' = Queued \<and>
          lease_owner r' = lease_owner r \<and> lease_expires_at r' = lease_expires_at r \<and> attempt r' = attempt r
      | WCancel \<Rightarrow> status r \<in> {Pending, Queued, Running, Retrying, Failed} \<and> status r' = Cancelled \<and>
          lease_owner r' = None \<and> lease_expires_at r' = None \<and> attempt r' = attempt r
      | WRedrive \<Rightarrow> status r \<in> {Failed, DeadLettered} \<and> status r' = Retrying \<and>
          lease_owner r' = lease_owner r \<and> lease_expires_at r' = lease_expires_at r \<and> attempt r' = 0
      | WClaim \<Rightarrow> status r \<in> {Queued, Retrying} \<and> status r' = Running \<and>
          lease_owner r' \<noteq> None \<and> lease_expires_at r' \<noteq> None \<and> attempt r' = attempt r + 1
      | WHeartbeat \<Rightarrow> status r = Running \<and> status r' = Running \<and>
          lease_owner r' = lease_owner r \<and> lease_expires_at r' \<noteq> None \<and> attempt r' = attempt r
      | WComplete \<Rightarrow> status r = Running \<and> status r' = Succeeded \<and>
          lease_owner r' = None \<and> lease_expires_at r' = None \<and> attempt r' = attempt r
      | WFail \<Rightarrow> status r = Running \<and> status r' \<in> {Retrying, DeadLettered} \<and>
          lease_owner r' = None \<and> lease_expires_at r' = None \<and> attempt r' = attempt r) \<and>
     (status r' \<noteq> status r \<longrightarrow> version r < version r')"

fun tag_write :: "tag \<Rightarrow> row_write option" where
  "tag_write TEnqueue = Some WEnqueue"
| "tag_write TCancel = Some WCancel"
| "tag_write TRedrive = Some WRedrive"
| "tag_write TClaim = Some WClaim"
| "tag_write THeartbeat = Some WHeartbeat"
| "tag_write TComplete = Some WComplete"
| "tag_write TFail = Some WFail"
| "tag_write TReap = Some WFail"
| "tag_write _ = None"

lemma stmt_effect:
  "st_where (enqueue_stmt n i) r \<Longrightarrow> row_effect WEnqueue r (st_set (enqueue_stmt n i) r)"
  "st_where (cancel_stmt n i t) r \<Longrightarrow> row_effect WCancel r (st_set (cancel_stmt n i t) r)"
  "st_where (redrive_stmt n i t) r \<Longrightarrow> row_effect WRedrive r (st_set (redrive_stmt n i t) r)"
  "st_where (claim_stmt n i w secs t) r \<Longrightarrow> row_effect WClaim r (st_set (claim_stmt n i w secs t) r)"
  "st_where (heartbeat_stmt n i w) r \<Longrightarrow> row_effect WHeartbeat r (st_set (heartbeat_stmt n i w) r)"
  "st_where (worker_heartbeat_stmt n i t w) r \<Longrightarrow>
     row_effect WHeartbeat r (st_set (worker_heartbeat_stmt n i t w) r)"
  "st_where (complete_stmt n i w res expl) r \<Longrightarrow>
     row_effect WComplete r (st_set (complete_stmt n i w res expl) r)"
  "st_where (worker_complete_stmt n i t w res expl) r \<Longrightarrow>
     row_effect WComplete r (st_set (worker_complete_stmt n i t w res expl) r)"
  "st \<in> {Retrying, DeadLettered} \<Longrightarrow> st_where (fail_stmt n i w st code msg expl) r \<Longrightarrow>
     row_effect WFail r (st_set (fail_stmt n i w st code msg expl) r)"
  "st \<in> {Retrying, DeadLettered} \<Longrightarrow> st_where (worker_fail_stmt n i t w st code msg expl) r \<Longrightarrow>
     row_effect WFail r (st_set (worker_fail_stmt n i t w st code msg expl) r)"
  "st_where (reap_dead_stmt n i) r \<Longrightarrow> row_effect WFail r (st_set (reap_dead_stmt n i) r)"
  "st_where (reap_retry_stmt n i) r \<Longrightarrow> row_effect WFail r (st_set (reap_retry_stmt n i) r)"
  by (auto simp: stmt_defs row_defs identity_def row_effect_def)

text \<open>The relation between the tables of operations before and after a step.\<close>

inductive rows_step :: "tag \<Rightarrow> op_row list \<Rightarrow> op_row list \<Rightarrow> bool" where
  rows_update: "tag_write l = Some w \<Longrightarrow>
    (\<And>r. P r \<Longrightarrow> op_id r = i) \<Longrightarrow> (\<And>r. P r \<Longrightarrow> row_effect w r (f r)) \<Longrightarrow>
    rows_step l rs (update_where P f rs)"
| rows_same: "rows_step l rs rs"
| rows_append: "op_id r \<notin> op_id ` set rs \<Longrightarrow> idem_key r \<notin> idem_key ` set rs \<Longrightarrow>
    wf_row r \<Longrightarrow> status r = Pending \<Longrightarrow> attempt r = 0 \<Longrightarrow> 1 \<le> max_attempts r \<Longrightarrow>
    rows_step TCreate rs (rs @ [r])"

lemma rows_stepI:
  assumes "tag_write l = Some w"
    and "\<And>r. st_where st r \<Longrightarrow> op_id r = i"
    and "\<And>r. st_where st r \<Longrightarrow> row_effect w r (st_set st r)"
  shows "rows_step l (operations d) (operations (fst (exec_stmt st d)))"
  using rows_update [of l w "st_where st" i "st_set st" "operations d"] assms
  by (simp add: exec_stmt_def)

lemma rows_step_create:
  assumes "1 \<le> ci_max_attempts inp"
    and "insert_operation (new_operation n i t idem inp) d = Some d'"
  shows "rows_step TCreate (operations d) (operations d')"
proof (cases "idem_key (new_operation n i t idem inp) \<in> idem_key ` set (operations d)")
  case True
  with assms have "operations d' = operations d"
    by (auto simp: insert_operation_def op_store.put_known)
  then show ?thesis by (simp add: rows_same)
next
  case False
  with assms have "d' = put_operation (new_operation n i t idem inp) d"
    and "op_id (new_operation n i t idem inp) \<notin> op_id ` set (operations d)"
    by (auto simp: insert_operation_def split: if_splits)
  with False assms(1) show ?thesis
    by (auto simp: op_store.rows_put new_operation_def wf_row_def statuses_def intro!: rows_append)
qed

lemma fail_selects:
  "st_where (fail_stmt n i w st code msg expl) r \<Longrightarrow> op_id r = i"
  "st_where (worker_fail_stmt n i t w st code msg expl) r \<Longrightarrow> op_id r = i"
  by (simp_all add: fail_stmt_def worker_fail_stmt_def)

lemmas selects = enqueue.selects cancelling.selects redriving.selects claiming.selects
  beating.selects worker_beating.selects completing.selects worker_completing.selects
  fail_selects reaping_dead.selects reaping_retry.selects

lemma op_step_rows: "op_step d l d' \<Longrightarrow> rows_step l (operations d) (operations d')"
proof (induction rule: op_step.induct)
  case (step_create inp n i t idem d d')
  then show ?case by (rule rows_step_create)
next
  case (step_worker_complete st n i t w res expl d r g p d')
  have "rows_step TComplete (operations d) (operations (fst (exec_stmt st d)))"
    unfolding step_worker_complete(1)
    by (rule rows_stepI [where i = i]) (auto simp: stmt_effect selects)
  with step_worker_complete(3) show ?case by (auto dest!: insertEvent_frame)
next
  case (step_worker_fail ty st n g i a t p w code msg expl d d')
  have "rows_step TFail (operations d) (operations (fst (exec_stmt
      (worker_fail_stmt n i t w st code msg expl) d)))"
    by (rule rows_stepI [where i = i]) (use step_worker_fail(2) in \<open>auto simp: stmt_effect selects\<close>)
  with step_worker_fail(3) show ?case by (auto dest!: insertEvent_frame)
next
  case (step_reap_dead n g i a t p d d')
  have "rows_step TReap (operations d) (operations (fst (exec_stmt (reap_dead_stmt n i) d)))"
    by (rule rows_stepI [where i = i]) (auto simp: stmt_effect selects)
  with step_reap_dead show ?case by (auto dest!: insertEvent_frame)
next
  case (step_enqueue d n i)
  show ?case by (rule rows_stepI [where i = i]) (auto simp: stmt_effect selects)
next
  case (step_cancel d n i t)
  show ?case by (rule rows_stepI [where i = i]) (auto simp: stmt_effect selects)
next
  case (step_redrive d n i t)
  show ?case by (rule rows_stepI [where i = i]) (auto simp: stmt_effect selects)
next
  case (step_claim t d tn n i w secs)
  show ?case by (rule rows_stepI [where i = i]) (auto simp: stmt_effect selects)
next
  case (step_heartbeat d n i w)
  show ?case by (rule rows_stepI [where i = i]) (auto simp: stmt_effect selects)
next
  case (step_worker_heartbeat d n i t w)
  show ?case by (rule rows_stepI [where i = i]) (auto simp: stmt_effect selects)
next
  case (step_complete d n i w res expl)
  show ?case by (rule rows_stepI [where i = i]) (auto simp: stmt_effect selects)
next
  case (step_fail st d n i w code msg expl)
  then show ?case by (intro rows_stepI [where i = i]) (auto simp: stmt_effect selects)
next
  case (step_reap_update d n i)
  show ?case by (rule rows_stepI [where i = i]) (auto simp: stmt_effect selects)
next
  case (step_reap_retry d n i)
  show ?case by (rule rows_stepI [where i = i]) (auto simp: stmt_effect selects)
qed (simp_all add: rows_same)

section \<open>Well-formed tables\<close>

definition ops_inv :: "database \<Rightarrow> bool" where
  "ops_inv d \<longleftrightarrow> distinct (map op_id (operations d)) \<and>
     distinct (map idem_key (operations d)) \<and> (\<forall>r\<in>set (operations d). wf_row r)"

lemma identity_parts:
  "identity r = identity s \<Longrightarrow> op_id r = op_id s \<and> op_tenant r = op_tenant s \<and>
     idem_key r = idem_key s \<and> max_attempts r = max_attempts s"
  by (simp add: identity_def idem_key_def)

lemma row_effect_identity: "row_effect w r r' \<Longrightarrow> identity r' = identity r"
  by (simp add: row_effect_def)

lemma row_effect_wf: "row_effect w r r' \<Longrightarrow> wf_row r \<Longrightarrow> wf_row r'"
  by (cases w) (auto simp: row_effect_def wf_row_def statuses_def)

lemma rows_step_inv:
  assumes "rows_step l rs rs'" "distinct (map op_id rs)" "distinct (map idem_key rs)"
    "\<forall>r\<in>set rs. wf_row r"
  shows "distinct (map op_id rs') \<and> distinct (map idem_key rs') \<and> (\<forall>r\<in>set rs'. wf_row r)"
  using assms
proof (cases rule: rows_step.cases)
  case (rows_update w P i f)
  have "map op_id rs' = map op_id rs" "map idem_key rs' = map idem_key rs"
    unfolding rows_update(1)
    by (intro map_update_where; use rows_update(4) row_effect_identity identity_parts in blast)+
  moreover have "\<forall>r\<in>set rs'. wf_row r"
    using assms(4) row_effect_wf [OF rows_update(4)]
    unfolding rows_update(1) by (auto simp: in_update_where)
  ultimately show ?thesis using assms by simp
qed auto

lemma ops_inv_step: "op_step d l d' \<Longrightarrow> ops_inv d \<Longrightarrow> ops_inv d'"
  unfolding ops_inv_def using op_step_rows rows_step_inv by blast

interpretation ops: step_invariant op_step ops_inv
  by unfold_locales (rule ops_inv_step)

end
