(* ===== verification/Lifecycle.thy ===== *)
theory Lifecycle
  imports Interleaving
begin

text \<open>
  What every interleaving of the Operations service keeps: the lifecycle of an operation as
  an abstract machine the database refines, the permanence of terminal statuses, the
  tenant's concurrency limit, one row per idempotency key, one success event per operation,
  and the version as a change detector.
\<close>

section \<open>The row of an operation\<close>

definition lookup_op :: "database \<Rightarrow> string \<Rightarrow> op_row option" where
  "lookup_op d i = find_row (\<lambda>r. op_id r = i) (operations d)"

lemma lookup_op_Some: "lookup_op d i = Some r \<Longrightarrow> r \<in> set (operations d) \<and> op_id r = i"
  by (auto simp: lookup_op_def dest: find_row_Some)

lemma lookup_op_in: "distinct (map op_id (operations d)) \<Longrightarrow> r \<in> set (operations d) \<Longrightarrow>
    lookup_op d (op_id r) = Some r"
  unfolding lookup_op_def by (rule find_row_unique [where k = op_id]) auto

lemma find_row_update:
  assumes "\<And>r. P r \<Longrightarrow> op_id (f r) = op_id r"
  shows "find_row (\<lambda>r. op_id r = j) (update_where P f rs) =
    map_option (\<lambda>r. if P r then f r else r) (find_row (\<lambda>r. op_id r = j) rs)"
  using assms by (induction rs) auto

text \<open>What executing a statement does to the row it selects, and when it selects none.\<close>

context row_stmt
begin

lemma exec_hit:
  assumes "distinct (map op_id (operations d))" "lookup_op d i = Some r" "st_where st r"
  shows "snd (exec_stmt st d) = 1 \<and> lookup_op (result_db d) i = Some (st_set st r) \<and>
    (\<forall>j. j \<noteq> i \<longrightarrow> lookup_op (result_db d) j = lookup_op d j)"
proof -
  have id: "op_id (st_set st x) = op_id x" for x
    using keeps_identity [of x] by (simp add: identity_def)
  have look: "lookup_op (result_db d) j =
      map_option (\<lambda>r. if st_where st r then st_set st r else r) (lookup_op d j)" for j
    unfolding lookup_op_def operations_exec by (rule find_row_update) (rule id)
  have "r \<in> set (operations d)" using assms(2) by (auto dest: lookup_op_Some)
  then have "count_where (st_where st) (operations d) \<noteq> 0" using assms(3) by auto
  moreover have "count_where (st_where st) (operations d) \<le> 1"
    using affected_le_1 [OF assms(1)] by (simp add: exec_stmt_def)
  ultimately have "snd (exec_stmt st d) = 1" by (simp only: exec_stmt_def snd_conv)
  moreover have "\<forall>j. j \<noteq> i \<longrightarrow> lookup_op (result_db d) j = lookup_op d j"
  proof (intro allI impI)
    fix j assume j: "j \<noteq> i"
    have "\<not> st_where st x" if "lookup_op d j = Some x" for x
      using lookup_op_Some [OF that] selects [of x] j by auto
    then show "lookup_op (result_db d) j = lookup_op d j"
      by (cases "lookup_op d j") (simp_all add: look)
  qed
  ultimately show ?thesis using assms(2,3) by (simp add: look)
qed

lemma exec_miss:
  assumes "\<And>r. lookup_op d i = Some r \<Longrightarrow> \<not> st_where st r" "distinct (map op_id (operations d))"
  shows "exec_stmt st d = (d, 0)"
proof -
  have "\<not> st_where st r" if "r \<in> set (operations d)" for r
    using assms lookup_op_in [OF assms(2) that] selects [of r] by metis
  then show ?thesis by (simp add: exec_stmt_def update_where_id)
qed

end

text \<open>
  How one step changes the row of one operation: not at all, or by the effect of its tag on
  a row, or by creating it.
\<close>

lemma lookup_step:
  assumes "op_step d l d'"
  shows "lookup_op d' j = lookup_op d j \<or>
    (\<exists>w r r'. tag_write l = Some w \<and> lookup_op d j = Some r \<and> lookup_op d' j = Some r' \<and>
       row_effect w r r') \<or>
    (l = TCreate \<and> lookup_op d j = None \<and>
       (\<exists>r. lookup_op d' j = Some r \<and> status r = Pending \<and> attempt r = 0))"
  using op_step_rows [OF assms]
proof (cases rule: rows_step.cases)
  case (rows_update w P i f)
  have "find_row (\<lambda>r. op_id r = j) (operations d') =
      map_option (\<lambda>r. if P r then f r else r) (find_row (\<lambda>r. op_id r = j) (operations d))"
    unfolding rows_update(1) using row_effect_identity [OF rows_update(4)] identity_parts
    by (intro find_row_update) blast
  with rows_update(2,4) show ?thesis
    by (cases "find_row (\<lambda>r. op_id r = j) (operations d)") (auto simp: lookup_op_def)
next
  case (rows_append r)
  then show ?thesis
    by (cases "find_row (\<lambda>r. op_id r = j) (operations d)")
       (auto simp: lookup_op_def find_row_append)
qed (simp add: lookup_op_def)

lemma lookup_step_frame:
  assumes "op_step d l d'"
  shows "\<exists>i. \<forall>j. j \<noteq> i \<longrightarrow> lookup_op d' j = lookup_op d j"
  using op_step_rows [OF assms]
proof (cases rule: rows_step.cases)
  case (rows_update w P i f)
  have "find_row (\<lambda>r. op_id r = j) (operations d') =
      map_option (\<lambda>r. if P r then f r else r) (find_row (\<lambda>r. op_id r = j) (operations d))" for j
    unfolding rows_update(1) using row_effect_identity [OF rows_update(4)] identity_parts
    by (intro find_row_update) blast
  then have "lookup_op d' j = lookup_op d j" if "j \<noteq> i" for j
    using rows_update(3) that
    by (cases "find_row (\<lambda>r. op_id r = j) (operations d)")
       (auto simp: lookup_op_def dest: find_row_Some)
  then show ?thesis by blast
next
  case (rows_append r)
  then have "lookup_op d' j = lookup_op d j" if "j \<noteq> op_id r" for j
    using that by (auto simp: lookup_op_def find_row_append split: option.splits)
  then show ?thesis by blast
qed (auto simp: lookup_op_def)

section \<open>The lifecycle as an abstract machine\<close>

type_synonym lifecycle = "string \<Rightarrow> OperationStatus option"

inductive life_step :: "lifecycle \<Rightarrow> tag \<Rightarrow> lifecycle \<Rightarrow> bool" where
  life_submit: "m i = None \<Longrightarrow> life_step m TCreate (m(i \<mapsto> Pending))"
| life_move: "m i = Some s \<Longrightarrow> CanTransition s s' \<Longrightarrow> life_step m l (m(i \<mapsto> s'))"
| life_redrive: "m i = Some DeadLettered \<Longrightarrow> life_step m TRedrive (m(i \<mapsto> Retrying))"
| life_stutter: "life_step m l m"

definition abs_status :: "database \<Rightarrow> lifecycle" where
  "abs_status d i = map_option status (lookup_op d i)"

lemma row_effect_transition:
  "row_effect w r r' \<Longrightarrow> status r' = status r \<or> CanTransition (status r) (status r') \<or>
     (w = WRedrive \<and> status r = DeadLettered \<and> status r' = Retrying)"
  by (cases w) (auto simp: row_effect_def CanTransition_def)

lemma tag_write_redrive: "tag_write l = Some WRedrive \<Longrightarrow> l = TRedrive"
  by (cases l) auto

text \<open>
  C6: The database refines the lifecycle of the transition table: every statement of the
  Operations service, whatever parameters a stale read gives it, maps to a submission, to a
  move that \<open>CanTransition\<close> allows, to a stutter, or to the redrive of a dead-lettered
  operation, which is the one move outside the table.
\<close>
theorem op_step_refines_lifecycle:
  assumes "op_step d l d'"
  shows "life_step (abs_status d) l (abs_status d')"
proof -
  obtain i where frame: "\<And>j. j \<noteq> i \<Longrightarrow> lookup_op d' j = lookup_op d j"
    using lookup_step_frame [OF assms] by blast
  have upd: "abs_status d' = (abs_status d)(i := map_option status (lookup_op d' i))"
    by (auto simp: abs_status_def frame)
  from lookup_step [OF assms, of i] show ?thesis
  proof (elim disjE exE conjE)
    assume "lookup_op d' i = lookup_op d i"
    then have "abs_status d' = abs_status d" by (auto simp: upd abs_status_def)
    then show ?thesis by (simp add: life_stutter)
  next
    fix w r r'
    assume w: "tag_write l = Some w" and r: "lookup_op d i = Some r"
      and r': "lookup_op d' i = Some r'" and eff: "row_effect w r r'"
    have abs: "abs_status d i = Some (status r)" by (simp add: abs_status_def r)
    have upd': "abs_status d' = (abs_status d)(i \<mapsto> status r')" by (simp add: upd r')
    from row_effect_transition [OF eff] show ?thesis
    proof (elim disjE conjE)
      assume "status r' = status r"
      then have "abs_status d' = abs_status d" using upd' abs by (metis fun_upd_triv)
      then show ?thesis by (simp add: life_stutter)
    next
      assume "CanTransition (status r) (status r')"
      then show ?thesis unfolding upd' using abs by (rule life_move [rotated])
    next
      assume "w = WRedrive" "status r = DeadLettered" "status r' = Retrying"
      then show ?thesis using w abs upd' by (auto dest: tag_write_redrive intro: life_redrive)
    qed
  next
    fix r
    assume "l = TCreate" "lookup_op d i = None" "lookup_op d' i = Some r" "status r = Pending"
    then show ?thesis by (auto simp: upd abs_status_def intro: life_submit)
  qed
qed

theorem op_step_refines_lifecycle_witness:
  "op_step (sample_db [sample_op Pending 0 None]) TEnqueue
     (fst (exec_stmt (enqueue_stmt 7 ''op1'') (sample_db [sample_op Pending 0 None]))) \<and>
   life_step (abs_status (sample_db [sample_op Pending 0 None])) TEnqueue
     (abs_status (fst (exec_stmt (enqueue_stmt 7 ''op1'') (sample_db [sample_op Pending 0 None])))) \<and>
   abs_status (fst (exec_stmt (enqueue_stmt 7 ''op1'') (sample_db [sample_op Pending 0 None]))) ''op1'' =
     Some Queued"
proof -
  let ?d = "sample_db [sample_op Pending 0 None]"
  have step: "op_step ?d TEnqueue (fst (exec_stmt (enqueue_stmt 7 ''op1'') ?d))"
    by (rule step_enqueue)
  have "abs_status (fst (exec_stmt (enqueue_stmt 7 ''op1'') ?d)) ''op1'' = Some Queued"
    by (simp add: sample_defs exec_stmt_def enqueue_stmt_def bump_def abs_status_def lookup_op_def)
  with step op_step_refines_lifecycle [OF step] show ?thesis by blast
qed

section \<open>Terminal statuses\<close>

lemma terminal_step:
  assumes "op_step d l d'" "lookup_op d i = Some r" "IsTerminal (status r)"
    and "l = TRedrive \<longrightarrow> status r \<noteq> DeadLettered"
  shows "lookup_op d' i = Some r"
  using lookup_step [OF assms(1), of i]
proof (elim disjE exE conjE)
  fix w r0 r'
  assume "tag_write l = Some w" "lookup_op d i = Some r0" "row_effect w r0 r'"
  then show ?thesis
    using assms(2-4) by (cases w) (auto simp: row_effect_def IsTerminal_def dest: tag_write_redrive)
qed (use assms in auto)

lemma terminal_runs:
  assumes "runs op_step d ls d'"
  shows "lookup_op d i = Some r \<Longrightarrow> IsTerminal (status r) \<Longrightarrow>
    TRedrive \<in> set ls \<longrightarrow> status r \<noteq> DeadLettered \<Longrightarrow> lookup_op d' i = Some r"
  using assms by (induction rule: runs.induct) (auto intro: terminal_step)

text \<open>
  C10: A terminal operation is never overwritten: along every interleaving the whole row of a
  succeeded or cancelled operation stays as it is, and so does the row of a dead-lettered one
  as long as nobody redrives.
\<close>
theorem terminal_permanent:
  assumes "runs op_step d ls d'" "lookup_op d i = Some r" "IsTerminal (status r)"
    and "TRedrive \<in> set ls \<longrightarrow> status r \<noteq> DeadLettered"
  shows "lookup_op d' i = Some r"
  using assms by (rule terminal_runs)

theorem terminal_permanent_witness:
  "runs op_step (sample_db [sample_op Succeeded 1 None]) [TCancel]
     (fst (exec_stmt (cancel_stmt 9 ''op1'' ''t1'') (sample_db [sample_op Succeeded 1 None]))) \<and>
   lookup_op (fst (exec_stmt (cancel_stmt 9 ''op1'' ''t1'') (sample_db [sample_op Succeeded 1 None])))
     ''op1'' = Some (sample_op Succeeded 1 None)"
proof -
  let ?d = "sample_db [sample_op Succeeded 1 None]"
  have r: "runs op_step ?d [TCancel] (fst (exec_stmt (cancel_stmt 9 ''op1'' ''t1'') ?d))"
    by (intro runs_single step_cancel)
  have "lookup_op (fst (exec_stmt (cancel_stmt 9 ''op1'' ''t1'') ?d)) ''op1'' =
      Some (sample_op Succeeded 1 None)"
    by (rule terminal_permanent [OF r]) (simp_all add: sample_defs lookup_op_def IsTerminal_def)
  with r show ?thesis by blast
qed

section \<open>The concurrency limit\<close>

definition cap_inv :: "database \<Rightarrow> bool" where
  "cap_inv d \<longleftrightarrow> distinct (map tn_id (tenants d)) \<and> distinct (map op_id (operations d)) \<and>
     (\<forall>tn\<in>set (tenants d). int (running_count (tn_id tn) d) \<le> tn_concurrency_limit tn)"

lemma running_count_other:
  assumes "rows_step l (operations d) (operations d')" "l \<noteq> TClaim"
  shows "running_count t d' \<le> running_count t d"
  using assms(1)
proof (cases rule: rows_step.cases)
  case (rows_update w P i f)
  have "status r = Running \<and> op_tenant r = t" if "P r" "status (f r) = Running" "op_tenant (f r) = t" for r
    using rows_update(2) rows_update(4) [OF that(1)] that assms(2)
    by (cases l) (auto simp: row_effect_def identity_def)
  then show ?thesis
    unfolding running_count_def rows_update(1) by (intro count_update_le) auto
next
  case (rows_append r)
  then show ?thesis by (simp add: running_count_def)
qed (simp add: running_count_def)

lemma running_count_claim:
  fixes n i w secs t d
  defines "d' \<equiv> fst (exec_stmt (claim_stmt n i w secs t) d)"
  assumes "distinct (map op_id (operations d))"
  shows "running_count u d' \<le> running_count u d + (if u = t then 1 else 0)"
proof -
  let ?P = "st_where (claim_stmt n i w secs t)" and ?f = "st_set (claim_stmt n i w secs t)"
  let ?Q = "\<lambda>r. op_tenant r = u \<and> status r = Running"
  have ops: "operations d' = update_where ?P ?f (operations d)"
    by (simp add: d'_def exec_stmt_def)
  show ?thesis
  proof (cases "u = t")
    case True
    have "count_where ?P (operations d) \<le> 1"
      using assms(2) by (rule count_unique_key) (rule claiming.selects)
    with count_update_Suc [of ?Q ?P ?f "operations d"] True show ?thesis
      by (simp add: running_count_def ops)
  next
    case False
    have "count_where ?Q (update_where ?P ?f (operations d)) \<le> count_where ?Q (operations d)"
      by (rule count_update_le) (use False in \<open>auto simp: claim_stmt_def bump_def\<close>)
    with False show ?thesis by (simp add: running_count_def ops)
  qed
qed

lemma distinct_op_id_step:
  "op_step d l d' \<Longrightarrow> distinct (map op_id (operations d)) \<Longrightarrow> distinct (map op_id (operations d'))"
proof -
  assume step: "op_step d l d'" and dist: "distinct (map op_id (operations d))"
  from op_step_rows [OF step] show ?thesis
  proof (cases rule: rows_step.cases)
    case (rows_update w P i f)
    have "map op_id (operations d') = map op_id (operations d)"
      unfolding rows_update(1)
      by (intro map_update_where; use rows_update(4) row_effect_identity identity_parts in blast)
    with dist show ?thesis by simp
  qed (use dist in auto)
qed

lemma cap_inv_step:
  assumes "op_step d l d'" "cap_inv d"
  shows "cap_inv d'"
proof -
  have "int (running_count (tn_id tn) d') \<le> tn_concurrency_limit tn" if tn: "tn \<in> set (tenants d)" for tn
  proof (cases "l = TClaim")
    case False
    with running_count_other [OF op_step_rows [OF assms(1)], of "tn_id tn"] assms(2) tn
    show ?thesis by (force simp: cap_inv_def)
  next
    case True
    with assms(1) obtain t tn0 n i w secs
      where d': "d' = fst (exec_stmt (claim_stmt n i w secs t) d)"
        and t: "find_row (\<lambda>x. tn_id x = t) (tenants d) = Some tn0"
        and lim: "int (running_count t d) < tn_concurrency_limit tn0"
      by (auto elim: op_step.cases)
    have cnt: "running_count (tn_id tn) d' \<le> running_count (tn_id tn) d + (if tn_id tn = t then 1 else 0)"
      unfolding d' using assms(2) by (intro running_count_claim) (simp add: cap_inv_def)
    show ?thesis
    proof (cases "tn_id tn = t")
      case True
      with t tn assms(2) have "tn = tn0"
        by (auto simp: cap_inv_def dest!: find_row_Some intro: distinct_map_eq)
      with True cnt lim show ?thesis by simp
    next
      case False
      with cnt assms(2) tn show ?thesis by (force simp: cap_inv_def)
    qed
  qed
  with assms show ?thesis
    by (auto simp: cap_inv_def tenants_step [OF assms(1)] intro: distinct_op_id_step)
qed

interpretation cap: step_invariant op_step cap_inv
  by unfold_locales (rule cap_inv_step)

text \<open>
  C9: No tenant ever runs more operations than its concurrency limit: the bound holds along
  every interleaving of claims by any number of workers, because each claim counts the
  running operations under the lock of the tenant row.
\<close>
theorem concurrency_limit_respected:
  assumes "runs op_step d ls d'" "cap_inv d" "tn \<in> set (tenants d')"
  shows "int (running_count (tn_id tn) d') \<le> tn_concurrency_limit tn"
  using cap.inv_runs [OF assms(1,2)] assms(3) by (simp add: cap_inv_def)

theorem concurrency_limit_respected_witness:
  "runs op_step (sample_db [sample_op Queued 0 None]) [TClaim]
     (fst (exec_stmt (claim_stmt 9 ''op1'' ''w'' 45 ''t1'') (sample_db [sample_op Queued 0 None]))) \<and>
   int (running_count ''t1'' (fst (exec_stmt (claim_stmt 9 ''op1'' ''w'' 45 ''t1'')
     (sample_db [sample_op Queued 0 None])))) \<le> 2"
proof -
  let ?d = "sample_db [sample_op Queued 0 None]"
  let ?d' = "fst (exec_stmt (claim_stmt 9 ''op1'' ''w'' 45 ''t1'') ?d)"
  have r: "runs op_step ?d [TClaim] ?d'"
    by (intro runs_single step_claim [of "''t1''" ?d sample_tenant])
       (simp_all add: sample_defs running_count_def)
  have inv: "cap_inv ?d" and mem: "sample_tenant \<in> set (tenants ?d')"
    by (simp_all add: cap_inv_def sample_defs running_count_def exec_stmt_def)
  from concurrency_limit_respected [OF r inv mem] r show ?thesis
    by (simp add: sample_tenant_def)
qed

section \<open>Rows, keys and leases\<close>

text \<open>
  C17: Along every interleaving identifiers and (tenant, idempotency key) pairs stay unique,
  every status is one the table's CHECK admits, and a row carries a lease owner and an
  expiry exactly while it is \<open>RUNNING\<close>.
\<close>
theorem tables_well_formed:
  assumes "runs op_step d ls d'" "ops_inv d"
  shows "count_where (\<lambda>r. op_id r = i) (operations d') \<le> 1 \<and>
    count_where (\<lambda>r. idem_key r = k) (operations d') \<le> 1 \<and>
    (\<forall>r\<in>set (operations d').
      (lease_owner r \<noteq> None \<longleftrightarrow> status r = Running) \<and>
      (lease_expires_at r \<noteq> None \<longleftrightarrow> status r = Running) \<and> status r \<in> set statuses)"
proof -
  have inv: "ops_inv d'" using assms by (rule ops.inv_runs)
  then have "count_where (\<lambda>r. idem_key r = k) (operations d') \<le> 1"
    by (intro op_store.count_le_1) (simp add: ops_inv_def)
  moreover have "count_where (\<lambda>r. op_id r = i) (operations d') \<le> 1"
    by (rule count_unique_key [where k = op_id and i = i]) (use inv in \<open>simp_all add: ops_inv_def\<close>)
  ultimately show ?thesis using inv by (simp add: ops_inv_def wf_row_def)
qed

theorem tables_well_formed_witness:
  "runs op_step (sample_db [sample_op Queued 0 None]) [TEnqueue]
     (fst (exec_stmt (enqueue_stmt 9 ''op1'') (sample_db [sample_op Queued 0 None]))) \<and>
   count_where (\<lambda>r. op_id r = ''op1'')
     (operations (fst (exec_stmt (enqueue_stmt 9 ''op1'') (sample_db [sample_op Queued 0 None])))) \<le> 1"
proof -
  let ?d = "sample_db [sample_op Queued 0 None]"
  have r: "runs op_step ?d [TEnqueue] (fst (exec_stmt (enqueue_stmt 9 ''op1'') ?d))"
    by (intro runs_single step_enqueue)
  have inv: "ops_inv ?d" by (simp add: ops_inv_def sample_defs wf_row_def statuses_def)
  from tables_well_formed [OF r inv, of "''op1''"] r show ?thesis by blast
qed

section \<open>The version column\<close>

lemma version_runs:
  assumes "runs op_step d ls d'"
  shows "lookup_op d i = Some r \<Longrightarrow> \<exists>r'. lookup_op d' i = Some r' \<and> identity r' = identity r \<and>
    version r \<le> version r' \<and> (version r' = version r \<longrightarrow> status r' = status r)"
  using assms
proof (induction arbitrary: r rule: runs.induct)
  case (runs_Nil d)
  then show ?case by simp
next
  case (runs_Cons d l d1 ls d')
  obtain r1 where r1: "lookup_op d1 i = Some r1" "identity r1 = identity r"
      "version r \<le> version r1" "status r1 \<noteq> status r \<longrightarrow> version r < version r1"
    using lookup_step [OF runs_Cons(1), of i] runs_Cons.prems
    by (auto simp: row_effect_def)
  from runs_Cons.IH [OF r1(1)] obtain r' where "lookup_op d' i = Some r'"
      "identity r' = identity r1" "version r1 \<le> version r'"
      "version r' = version r1 \<longrightarrow> status r' = status r1"
    by blast
  with r1 show ?case by force
qed

text \<open>
  An operation once stored is never lost and never changes owner or content: along every
  interleaving its row persists with the same identity columns and a version that never
  decreases, and an unchanged version means an unchanged status.
\<close>
lemma version_detects_change:
  assumes "runs op_step d ls d'" "lookup_op d i = Some r"
  shows "\<exists>r'. lookup_op d' i = Some r' \<and> identity r' = identity r \<and>
    version r \<le> version r' \<and> (version r' = version r \<longrightarrow> status r' = status r)"
  using assms by (rule version_runs)

lemma version_detects_change_witness:
  "runs op_step (sample_db [sample_op Pending 0 None]) [TEnqueue]
     (fst (exec_stmt (enqueue_stmt 9 ''op1'') (sample_db [sample_op Pending 0 None]))) \<and>
   (\<exists>r'. lookup_op (fst (exec_stmt (enqueue_stmt 9 ''op1'') (sample_db [sample_op Pending 0 None])))
      ''op1'' = Some r' \<and> 4 \<le> version r')"
proof -
  let ?d = "sample_db [sample_op Pending 0 None]"
  have r: "runs op_step ?d [TEnqueue] (fst (exec_stmt (enqueue_stmt 9 ''op1'') ?d))"
    by (intro runs_single step_enqueue)
  have "lookup_op ?d ''op1'' = Some (sample_op Pending 0 None)"
    by (simp add: sample_defs lookup_op_def)
  from version_detects_change [OF r this] r show ?thesis by (auto simp: sample_op_def)
qed

end
