(* ===== verification/Events.thy ===== *)
theory Events
  imports Lifecycle
begin

text \<open>
  The operation events the service stores for billing and notification: their keys are
  unique, an event key names one event, and along every interleaving an operation has at
  most one success event, which it has only when it has succeeded.
\<close>

section \<open>How a step changes the outbox\<close>

abbreviation success_type :: string where
  "success_type \<equiv> ''operation.succeeded''"

definition is_success :: "string \<Rightarrow> event_row \<Rightarrow> bool" where
  "is_success i e = (eo_event_type e = success_type \<and> eo_operation_id e = i)"

lemma insertEvent_outbox:
  "insertEvent n g key ty i t p d = Some d' \<Longrightarrow>
     event_outbox d' = insert_new eo_event_key (new_event n g key ty i t p) (event_outbox d)"
  by (auto simp: insertEvent_def put_event_def split: if_splits)

lemma exec_outbox [simp]: "event_outbox (fst (exec_stmt st d)) = event_outbox d"
  by (simp add: exec_stmt_def)

lemma count_success_update:
  "count_where (is_success i) (event_delivered n g es) = count_where (is_success i) es"
  "count_where (is_success i) (event_retry n g e s es) = count_where (is_success i) es"
  unfolding event_delivered_def event_retry_def
  by (rule count_update_same, simp add: is_success_def)+

lemma count_success_insert:
  assumes "insertEvent n g key ty j t p d = Some d'"
  shows "count_where (is_success i) (event_outbox d') \<le>
     count_where (is_success i) (event_outbox d) + (if ty = success_type \<and> j = i then 1 else 0)"
  unfolding insertEvent_outbox [OF assms]
  by (auto simp: insert_new_def is_success_def new_event_def)

text \<open>
  The number of success events of an operation changes only when a private worker completes
  it, by at most one, and then the operation moves from \<open>RUNNING\<close> to \<open>SUCCEEDED\<close>.
\<close>

lemma worker_complete_moves:
  assumes dist: "distinct (map op_id (operations d))"
    and st: "st = worker_complete_stmt n i t w res expl"
    and row: "find_row (st_where st) (operations d) = Some r"
    and ins: "insertEvent n g key ty i t p (fst (exec_stmt st d)) = Some d'"
  shows "lookup_op d i = Some r \<and> status r = Running \<and>
    (\<exists>r'. lookup_op d' i = Some r' \<and> status r' = Succeeded)"
proof -
  from find_row_Some [OF row] have r: "r \<in> set (operations d)" and sel: "st_where st r" by auto
  from sel have i: "op_id r = i" and run: "status r = Running"
    by (auto simp: st worker_complete_stmt_def)
  from lookup_op_in [OF dist r] have l: "lookup_op d i = Some r" by (simp add: i)
  have "operations d' = update_where (st_where st) (st_set st) (operations d)"
    using insertEvent_frame [OF ins] by (simp add: exec_stmt_def)
  then have "lookup_op d' i = Some (st_set st r)"
    using l sel unfolding lookup_op_def
    by (simp add: find_row_update st worker_complete_stmt_def row_defs)
  moreover have "status (st_set st r) = Succeeded"
    by (simp add: st worker_complete_stmt_def row_defs)
  ultimately show ?thesis using l run by blast
qed

lemma success_count_step:
  assumes "op_step d l d'" "distinct (map op_id (operations d))"
  shows "count_where (is_success i) (event_outbox d') \<le> count_where (is_success i) (event_outbox d) \<or>
    (count_where (is_success i) (event_outbox d') \<le> Suc (count_where (is_success i) (event_outbox d)) \<and>
     (\<exists>r r'. lookup_op d i = Some r \<and> status r = Running \<and>
        lookup_op d' i = Some r' \<and> status r' = Succeeded))"
  using assms(1)
proof (cases rule: op_step.cases)
  case (step_create inp n j t idem)
  then have "event_outbox d' = event_outbox d"
    by (auto simp: insert_operation_def split: if_splits)
  then show ?thesis by simp
next
  case (step_worker_complete st n j t w res expl r g p)
  show ?thesis
  proof (cases "j = i")
    case False
    then show ?thesis using count_success_insert [OF step_worker_complete(4), of i] by simp
  next
    case True
    show ?thesis
      using count_success_insert [OF step_worker_complete(4), of i]
        worker_complete_moves [OF assms(2) step_worker_complete(2-4)] True
      by auto
  qed
next
  case (step_worker_fail ty st n g j a t p w code msg expl)
  then show ?thesis using count_success_insert [OF step_worker_fail(4), of i] by auto
next
  case (step_reap_dead n g j a t p)
  then show ?thesis using count_success_insert [OF step_reap_dead(2), of i] by auto
qed (auto simp: count_success_update)

definition success_inv :: "database \<Rightarrow> bool" where
  "success_inv d \<longleftrightarrow> distinct (map op_id (operations d)) \<and>
     (\<forall>i. count_where (is_success i) (event_outbox d) \<le> 1 \<and>
        (count_where (is_success i) (event_outbox d) \<noteq> 0 \<longrightarrow>
          (\<exists>r. lookup_op d i = Some r \<and> status r = Succeeded)))"

lemma success_inv_step:
  assumes step: "op_step d l d'" and inv: "success_inv d"
  shows "success_inv d'"
proof -
  let ?c = "\<lambda>d i. count_where (is_success i) (event_outbox d)"
  have dist: "distinct (map op_id (operations d))" using inv by (simp add: success_inv_def)
  have "?c d' i \<le> 1 \<and> (?c d' i \<noteq> 0 \<longrightarrow> (\<exists>r. lookup_op d' i = Some r \<and> status r = Succeeded))" for i
    using success_count_step [OF step dist, of i]
  proof (elim disjE conjE exE)
    assume le: "?c d' i \<le> ?c d i"
    have "\<exists>r. lookup_op d' i = Some r \<and> status r = Succeeded" if nz: "?c d' i \<noteq> 0"
    proof -
      from le nz inv obtain r where "lookup_op d i = Some r" "status r = Succeeded"
        by (metis success_inv_def le_zero_eq)
      with terminal_step [OF step, of i r] show ?thesis by (auto simp: IsTerminal_def)
    qed
    with le inv show ?thesis by (meson success_inv_def le_trans)
  next
    fix r r'
    assume le: "?c d' i \<le> Suc (?c d i)" and r: "lookup_op d i = Some r" "status r = Running"
      and r': "lookup_op d' i = Some r'" "status r' = Succeeded"
    have "?c d i = 0"
      using inv r unfolding success_inv_def by fastforce
    with le r' show ?thesis by auto
  qed
  then show ?thesis
    using distinct_op_id_step [OF step dist] by (simp add: success_inv_def)
qed

interpretation success: step_invariant op_step success_inv
  by unfold_locales (rule success_inv_step)

text \<open>
  C16: An operation is charged for success at most once: along every interleaving of workers,
  retries, reapers and redrives there is at most one \<open>operation.succeeded\<close> event per
  operation, and only for an operation whose row is \<open>SUCCEEDED\<close>.
\<close>
theorem success_event_once:
  assumes "runs op_step d ls d'" "success_inv d"
  shows "count_where (is_success i) (event_outbox d') \<le> 1 \<and>
    (count_where (is_success i) (event_outbox d') = 0 \<or>
     (\<exists>r. lookup_op d' i = Some r \<and> status r = Succeeded))"
  using success.inv_runs [OF assms] unfolding success_inv_def by blast

theorem success_event_once_witness:
  "runs op_step (sample_db [sample_op Running 1 (Some (''w'', 50))]) [TComplete]
     (fst (exec_stmt (complete_stmt 9 ''op1'' ''w'' ''{}'' ''ok'')
        (sample_db [sample_op Running 1 (Some (''w'', 50))]))) \<and>
   count_where (is_success ''op1'') (event_outbox (fst (exec_stmt (complete_stmt 9 ''op1'' ''w'' ''{}'' ''ok'')
        (sample_db [sample_op Running 1 (Some (''w'', 50))])))) \<le> 1"
proof -
  let ?d = "sample_db [sample_op Running 1 (Some (''w'', 50))]"
  have r: "runs op_step ?d [TComplete] (fst (exec_stmt (complete_stmt 9 ''op1'' ''w'' ''{}'' ''ok'') ?d))"
    by (intro runs_single step_complete)
  have inv: "success_inv ?d" by (simp add: success_inv_def sample_defs)
  from success_event_once [OF r inv, of "''op1''"] r show ?thesis by blast
qed

section \<open>Event keys\<close>

text \<open>
  An event key determines its event: for operation identifiers and event types without a
  colon (a UUID, the types of the service), equal keys come from the same operation, type
  and attempt, so the unique constraint on the key never merges two different events.
\<close>
theorem event_key_injective:
  assumes "event_key i ty a = event_key i' ty' a'"
    and "CHR '':'' \<notin> set i" "CHR '':'' \<notin> set i'" "CHR '':'' \<notin> set ty" "CHR '':'' \<notin> set ty'"
  shows "i = i' \<and> ty = ty' \<and> a = a'"
proof -
  from assms(1) have "i @ CHR '':'' # (ty @ CHR '':'' # itoa a) =
      i' @ CHR '':'' # (ty' @ CHR '':'' # itoa a')"
    by (simp add: event_key_def)
  then have 1: "i = i' \<and> ty @ CHR '':'' # itoa a = ty' @ CHR '':'' # itoa a'"
    by (rule split_unique [OF assms(2,3)])
  then have "ty = ty' \<and> itoa a = itoa a'"
    using split_unique [OF assms(4,5)] by blast
  with 1 show ?thesis by (auto dest: itoa_inj)
qed

theorem event_key_injective_witness:
  "event_key ''op1'' ''operation.failed'' 2 = event_key ''op1'' ''operation.failed'' 2 \<and>
   ''op1'' = ''op1'' \<and> (2::int) = 2"
  using event_key_injective [of "''op1''" "''operation.failed''" 2 "''op1''" "''operation.failed''" 2]
  by simp

text \<open>
  The payload of a failure event is valid JSON whatever the worker reports, quotes,
  control characters and angle brackets included, so \<open>insertEvent\<close> stores it unchanged and
  never replaces it by the empty object.
\<close>
theorem fail_event_payload_kept:
  "event_payload (fail_event_payload st inp) = fail_event_payload st inp"
proof -
  have "json_valid (fail_event_payload st inp)"
    unfolding fail_event_payload_def by (rule json_valid_object) auto
  then show ?thesis by (auto simp: event_payload_def dest: json_valid_nonempty)
qed

end
