(* ===== verification/Handlers.thy ===== *)
theory Handlers
  imports Events
begin

text \<open>
  The handlers refine the step relation: whatever its arguments and whichever of its calls
  fail, a handler, a workflow step, a dispatcher batch or a reaper batch changes the
  database by a list of \<open>op_step\<close>s. So every fact about runs holds of the service.
\<close>

section \<open>One handler at a time\<close>

text \<open>\<open>steps_to T d d'\<close>: a run whose statements all have a tag in \<open>T\<close>.\<close>

definition steps_to :: "tag set \<Rightarrow> database \<Rightarrow> database \<Rightarrow> bool" where
  "steps_to T d d' \<longleftrightarrow> (\<exists>ls. runs op_step d ls d' \<and> set ls \<subseteq> T)"

lemma steps_to_refl [simp, intro]: "steps_to T d d"
  unfolding steps_to_def by (rule exI [of _ "[]"]) simp

lemma steps_to_step: "op_step d l d' \<Longrightarrow> l \<in> T \<Longrightarrow> steps_to T d d'"
  unfolding steps_to_def by (rule exI [of _ "[l]"]) (simp add: runs_single)

lemma steps_to_trans: "steps_to T d d' \<Longrightarrow> steps_to T d' d'' \<Longrightarrow> steps_to T d d''"
  unfolding steps_to_def by (metis runs_append set_append Un_subset_iff)

lemma steps_to_mono: "steps_to T d d' \<Longrightarrow> T \<subseteq> T' \<Longrightarrow> steps_to T' d d'"
  unfolding steps_to_def by blast

lemma publish_step_steps: "steps_to {TEnqueue, TLog} d (fst (publish_step n f env d))"
  unfolding publish_step_def Let_def
  by (auto intro: step_log [THEN steps_to_step])

lemma enqueueOperationStep_steps: "steps_to {TEnqueue, TLog} d (fst (enqueueOperationStep n f env d))"
proof (cases "f 0")
  case True
  then show ?thesis by (simp add: enqueueOperationStep_def)
next
  case False
  let ?d1 = "fst (exec_stmt (enqueue_stmt n (env_operation_id env)) d)"
  have "fst (enqueueOperationStep n f env d) = ?d1 \<or>
      fst (enqueueOperationStep n f env d) = fst (publish_step n f env ?d1)"
    using False by (auto simp: enqueueOperationStep_def split_def Let_def split: option.splits)
  moreover have "steps_to {TEnqueue, TLog} d ?d1" by (rule step_enqueue [THEN steps_to_step]) simp
  ultimately show ?thesis by (metis publish_step_steps steps_to_trans)
qed

lemma queueOperationWorkflow_steps: "steps_to {TEnqueue, TLog} d (fst (queueOperationWorkflow n f env d))"
  using enqueueOperationStep_steps by (simp add: queueOperationWorkflow_def Let_def split_def)

lemma check_input_bounds:
  "check_input raw = Inr inp \<Longrightarrow> 1 \<le> ci_max_attempts inp \<and> ci_max_attempts inp \<le> 10"
  by (auto simp: check_input_def Let_def split: if_splits)

lemma store_operation_steps:
  "1 \<le> ci_max_attempts inp \<Longrightarrow> steps_to {TCreate} d (fst (store_operation n i t idem inp f d))"
  unfolding store_operation_def
  by (auto split: option.splits intro: step_create [THEN steps_to_step])

lemma create_steps: "steps_to {TCreate} d (fst (create clk i bound f h d))"
  by (auto simp: create_def Let_def split: option.splits sum.splits
      intro: store_operation_steps dest: check_input_bounds)

lemma cancel_steps: "steps_to {TCancel} d (fst (cancel n i f h d))"
  unfolding cancel_def Let_def split_def
  by (auto split: option.splits intro: step_cancel [THEN steps_to_step])

lemma redrive_steps: "steps_to {TRedrive} d (fst (redrive n u i f h d))"
  unfolding redrive_def Let_def split_def
  by (auto split: option.splits intro: step_redrive [THEN steps_to_step])

lemma claimOperation_steps: "steps_to {TClaim} d (fst (claimOperation n i ex w secs f d))"
  unfolding claimOperation_def Let_def split_def
  by (auto split: option.splits intro: step_claim [THEN steps_to_step])

lemma claim_steps: "steps_to {TClaim} d (fst (claim n i bound f h d))"
  unfolding claim_def Let_def split_def
  by (auto split: option.splits intro: claimOperation_steps)

lemma heartbeat_steps: "steps_to {THeartbeat} d (fst (heartbeat n i bound f h d))"
  unfolding heartbeat_def Let_def split_def by (auto intro: step_heartbeat [THEN steps_to_step])

lemma workerHeartbeat_steps: "steps_to {THeartbeat} d (fst (workerHeartbeat n i bound f h d))"
  unfolding workerHeartbeat_def Let_def split_def by (auto intro: step_worker_heartbeat [THEN steps_to_step])

lemma complete_steps: "steps_to {TComplete} d (fst (complete n i bound f h d))"
  unfolding complete_def Let_def split_def by (auto split: option.splits intro: step_complete [THEN steps_to_step])

lemma failure_status_set: "failure_status b a m \<in> {Retrying, DeadLettered}"
  using failure_status_cases by auto

lemma fail_steps: "steps_to {TFail} d (fst (fail n i bound f h d))"
  unfolding fail_def Let_def split_def
  by (auto split: option.splits intro: step_fail [THEN steps_to_step]
      step_fail [OF failure_status_set, THEN steps_to_step])

lemma workerComplete_steps: "steps_to {TComplete} d (fst (workerComplete n g i bound f h d))"
  unfolding workerComplete_def Let_def split_def
  by (auto split: option.splits intro: step_worker_complete [OF refl, THEN steps_to_step])

text \<open>The transaction of \<open>workerFail\<close> either committed with its event or did nothing.\<close>

lemma workerFail_cases:
  "fst (workerFail n g i bound f h d) = d \<or>
   (\<exists>(r :: op_row) (inp :: failInput) st ty p t. r \<in> set (operations d) \<and>
      st = failure_status (fi_retryable inp) (attempt r) (max_attempts r) \<and>
      st_where (worker_fail_stmt n i t (fi_worker_id inp) st (fi_error_code inp)
        (fi_error_message inp) (fi_ai_explanation inp)) r \<and>
      ty = (if st = DeadLettered then ''operation.dead_lettered'' else ''operation.failed'') \<and>
      insertEvent n g (event_key i ty (attempt r)) ty i t p
        (fst (exec_stmt (worker_fail_stmt n i t (fi_worker_id inp) st (fi_error_code inp)
          (fi_error_message inp) (fi_ai_explanation inp)) d)) =
      Some (fst (workerFail n g i bound f h d)))"
proof (cases bound)
  case None
  then show ?thesis by (simp add: workerFail_def)
next
  case (Some inp)
  note b = this
  let ?t = "hdr_get h TenantHeader"
  show ?thesis
  proof (cases "find_row (\<lambda>r. op_id r = i \<and> op_tenant r = ?t \<and> status r = Running \<and>
      lease_owner r = Some (fi_worker_id inp)) (operations d)")
    case None
    then show ?thesis by (simp add: workerFail_def b Let_def)
  next
    case (Some r)
    define st where "st = failure_status (fi_retryable inp) (env_attempt (scan_envelope r))
      (env_max_attempts (scan_envelope r))"
    define ty where "ty = (if st = DeadLettered then ''operation.dead_lettered'' else ''operation.failed'')"
    define s where "s = worker_fail_stmt n i ?t (fi_worker_id inp) st (fi_error_code inp)
      (fi_error_message inp) (fi_ai_explanation inp)"
    define ins where "ins = insertEvent n g (event_key i ty (env_attempt (scan_envelope r))) ty i ?t
      (fail_event_payload st inp) (fst (exec_stmt s d))"
    have tx: "fst (workerFail n g i bound f h d) = d \<or> ins = Some (fst (workerFail n g i bound f h d))"
      unfolding workerFail_def b Let_def split_def
      by (simp add: Some st_def [symmetric] ty_def [symmetric] s_def [symmetric]
          ins_def [symmetric] split: option.split)
    have mem: "r \<in> set (operations d)" and sel: "st_where s r"
      using find_row_Some [OF Some] by (auto simp: s_def worker_fail_stmt_def)
    have st: "st = failure_status (fi_retryable inp) (attempt r) (max_attempts r)"
      by (simp add: st_def scan_envelope_def)
    have ins: "ins = insertEvent n g (event_key i ty (attempt r)) ty i ?t
        (fail_event_payload st inp) (fst (exec_stmt s d))"
      by (simp add: ins_def scan_envelope_def)
    from tx show ?thesis
    proof
      assume "ins = Some (fst (workerFail n g i bound f h d))"
      then have tx: "insertEvent n g (event_key i ty (attempt r)) ty i ?t (fail_event_payload st inp)
          (fst (exec_stmt s d)) = Some (fst (workerFail n g i bound f h d))"
        by (simp add: ins)
      note facts = mem st sel [unfolded s_def] ty_def tx [unfolded s_def]
      show ?thesis
        by (rule disjI2, intro exI [where x = r] exI [where x = inp] exI [where x = st] exI [where x = ty]
            exI [where x = "fail_event_payload st inp"] exI [where x = ?t] conjI) (rule facts)+
    qed simp
  qed
qed

lemma workerFail_steps: "steps_to {TFail} d (fst (workerFail n g i bound f h d))"
  using workerFail_cases [of n g i bound f h d]
proof (elim disjE exE conjE)
  fix r inp st ty p t
  assume st: "st = failure_status (fi_retryable inp) (attempt r) (max_attempts r)"
    and ty: "ty = (if st = DeadLettered then ''operation.dead_lettered'' else ''operation.failed'')"
    and ins: "insertEvent n g (event_key i ty (attempt r)) ty i t p
      (fst (exec_stmt (worker_fail_stmt n i t (fi_worker_id inp) st (fi_error_code inp)
        (fi_error_message inp) (fi_ai_explanation inp)) d)) =
      Some (fst (workerFail n g i bound f h d))"
  show ?thesis
    by (rule steps_to_step, rule step_worker_fail [OF _ _ ins])
       (use st ty failure_status_set in auto)
qed simp

lemma dispatch_item_steps: "steps_to {TOutbox} d (fst (dispatch_item n resp u x d))"
  unfolding dispatch_item_def
  by (auto split: option.splits intro: step_delivered [THEN steps_to_step] step_retry [THEN steps_to_step])

lemma dispatch_items_steps: "steps_to {TOutbox} d (fst (dispatch_items n usage f k xs d))"
  by (induction xs arbitrary: k d)
     (auto simp: Let_def split_def intro: steps_to_trans [OF dispatch_item_steps])

lemma dispatchEventBatch_steps: "steps_to {TOutbox} d (fst (dispatchEventBatch n usage f d))"
  by (simp add: dispatchEventBatch_def dispatch_items_steps)

lemma reap_item_steps: "steps_to {TReap} d (fst (reap_item n g f env d))"
  unfolding reap_item_def Let_def split_def
  by (auto split: option.splits intro: step_reap_dead [THEN steps_to_step] step_reap_retry [THEN steps_to_step] step_reap_update [THEN steps_to_step])

lemma reap_items_steps: "steps_to {TReap} d (fst (reap_items n g f k envs d))"
  by (induction envs arbitrary: k d)
     (auto simp: Let_def split_def intro: steps_to_trans [OF reap_item_steps])

lemma reapExpiredLeaseBatch_steps: "steps_to {TReap} d (fst (reapExpiredLeaseBatch n g q f d))"
  by (simp add: reapExpiredLeaseBatch_def reap_items_steps)

lemma poll_entries_steps: "steps_to {TClaim} d (fst (poll_entries n t w g k es d))"
proof (induction es arbitrary: k d t)
  case Nil
  then show ?case by simp
next
  case (Cons x es)
  have skip: "steps_to {TClaim} d (fst (add_call c (poll_entries n t w g (Suc k) es d)))" for c d t
    using Cons by (simp add: add_call_def split_def)
  have skip': "steps_to {TClaim} d (fst (add_call c (poll_entries n t w g (Suc k) es
      (fst (claimOperation n i t w 45 (g k) d)))))" for c i t
    by (rule steps_to_trans [OF claimOperation_steps skip])
  obtain sid e where x: "x = (sid, e)" by (cases x)
  show ?case
    unfolding x poll_entries.simps Let_def split_def
    by (auto split: entry.splits option.splits intro: skip skip' claimOperation_steps)
qed

lemma workerPoll_steps: "steps_to {TClaim} d (fst (workerPoll n bound cur xread g h d))"
  by (auto simp: workerPoll_def Let_def poll_entries_steps
      split: option.splits cursor_reply.splits xread_reply.splits)

section \<open>The whole service\<close>

text \<open>
  One activation of the Operations service: a handler behind its middleware, a workflow, or
  a batch of one of its two background loops.
\<close>

inductive activation :: "database \<Rightarrow> database \<Rightarrow> bool" where
  act_create: "RequireTenant (create clk i bound f) h d = (d', calls, r) \<Longrightarrow> activation d d'"
| act_cancel: "RequireTenant (cancel n i f) h d = (d', calls, r) \<Longrightarrow> activation d d'"
| act_redrive: "RequireTenant (redrive n u i f) h d = (d', calls, r) \<Longrightarrow> activation d d'"
| act_poll: "RequireTenant (workerPoll n b cur xread g) h d = (d', calls, r) \<Longrightarrow> activation d d'"
| act_worker_heartbeat: "RequireTenant (workerHeartbeat n i b f) h d = (d', calls, r) \<Longrightarrow> activation d d'"
| act_worker_complete: "RequireTenant (workerComplete n u i c f) h d = (d', calls, r) \<Longrightarrow> activation d d'"
| act_worker_fail: "RequireTenant (workerFail n u i x f) h d = (d', calls, r) \<Longrightarrow> activation d d'"
| act_claim: "RequireInternal s (claim n i cl f) h d = (d', calls, r) \<Longrightarrow> activation d d'"
| act_heartbeat: "RequireInternal s (heartbeat n i b f) h d = (d', calls, r) \<Longrightarrow> activation d d'"
| act_complete: "RequireInternal s (complete n i c f) h d = (d', calls, r) \<Longrightarrow> activation d d'"
| act_fail: "RequireInternal s (fail n i x f) h d = (d', calls, r) \<Longrightarrow> activation d d'"
| act_workflow: "queueOperationWorkflow n f env d = (d', calls, res) \<Longrightarrow> activation d d'"
| act_dispatch: "dispatchEventBatch n usage f d = (d', calls) \<Longrightarrow> activation d d'"
| act_reap: "reapExpiredLeaseBatch n gs q fs d = (d', calls) \<Longrightarrow> activation d d'"

lemma RequireTenant_steps:
  "(\<And>d. steps_to T d (fst (next h d))) \<Longrightarrow> steps_to T d (fst (RequireTenant next h d))"
  by (simp add: RequireTenant_def)

lemma RequireInternal_steps:
  "(\<And>d. steps_to T d (fst (next h d))) \<Longrightarrow> steps_to T d (fst (RequireInternal s next h d))"
  by (simp add: RequireInternal_def)

lemmas handler_steps = create_steps cancel_steps redrive_steps workerPoll_steps
  workerHeartbeat_steps workerComplete_steps workerFail_steps claim_steps heartbeat_steps
  complete_steps fail_steps queueOperationWorkflow_steps dispatchEventBatch_steps
  reapExpiredLeaseBatch_steps

text \<open>
  C7: Every activation of the service, whatever its input and whichever of its calls fail,
  changes the database by a run of the statements of \<open>op_step\<close>; so the invariants of runs
  hold of the running service.
\<close>
theorem activation_is_run:
  assumes "activation d d'"
  shows "\<exists>ls. runs op_step d ls d'"
proof -
  have "\<exists>T. steps_to T d d'"
    using assms
    by (cases rule: activation.cases)
       (metis fst_conv handler_steps RequireTenant_steps RequireInternal_steps)+
  then show ?thesis by (auto simp: steps_to_def)
qed

theorem activation_is_run_witness:
  "\<exists>ls. runs op_step (sample_db [sample_op Pending 0 None]) ls
     (fst (RequireTenant (cancel 9 ''op1'' no_faults) [(''X-Nexora-Tenant-Id'', [''t1''])]
       (sample_db [sample_op Pending 0 None])))"
proof -
  let ?d = "sample_db [sample_op Pending 0 None]"
  let ?res = "RequireTenant (cancel 9 ''op1'' no_faults) [(''X-Nexora-Tenant-Id'', [''t1''])] ?d"
  have "?res = (fst ?res, fst (snd ?res), snd (snd ?res))" by simp
  then have "activation ?d (fst ?res)" by (rule act_cancel)
  then show ?thesis by (rule activation_is_run)
qed

end
