(* ===== verification/Budget.thy ===== *)
theory Budget
  imports Handlers
begin

text \<open>
  The attempt budget. When each activation of the service runs without another activation
  between its read and its write, no operation ever has more attempts than it was given.
  The failure handlers decide on an attempt they read before the update, so the bound is one
  of activations, not of single statements: the last section gives the interleaving that
  exceeds it.
\<close>

section \<open>The invariant\<close>

definition within_budget :: "op_row \<Rightarrow> bool" where
  "within_budget r \<longleftrightarrow> 1 \<le> max_attempts r \<and> attempt r \<le> max_attempts r \<and>
     (status r \<in> {Pending, Queued, Retrying} \<longrightarrow> attempt r < max_attempts r)"

definition budget_inv :: "database \<Rightarrow> bool" where
  "budget_inv d \<longleftrightarrow> distinct (map op_id (operations d)) \<and>
     (\<forall>r\<in>set (operations d). within_budget r)"

lemma row_effect_budget:
  assumes "row_effect w r r'" "w \<noteq> WFail" "within_budget r"
  shows "within_budget r'"
proof -
  have "max_attempts r' = max_attempts r"
    using row_effect_identity [OF assms(1)] identity_parts by blast
  with assms show ?thesis by (cases w) (auto simp: row_effect_def within_budget_def)
qed

lemma budget_step:
  assumes "op_step d l d'" "l \<notin> {TFail, TReap}" "budget_inv d"
  shows "budget_inv d'"
proof -
  have "\<forall>r\<in>set (operations d'). within_budget r"
    using op_step_rows [OF assms(1)]
  proof (cases rule: rows_step.cases)
    case (rows_update w P i f)
    have "w \<noteq> WFail" using rows_update(2) assms(2) by (cases l) auto
    then show ?thesis
      using row_effect_budget [OF rows_update(4)] assms(3)
      unfolding rows_update(1) budget_inv_def by (auto simp: in_update_where)
  next
    case (rows_append r)
    then show ?thesis using assms(3) by (auto simp: budget_inv_def within_budget_def)
  qed (use assms(3) in \<open>simp add: budget_inv_def\<close>)
  with assms show ?thesis by (simp add: budget_inv_def distinct_op_id_step)
qed

lemma budget_steps_to:
  assumes "steps_to T d d'" "T \<inter> {TFail, TReap} = {}" "budget_inv d"
  shows "budget_inv d'"
proof -
  from assms(1) obtain ls where "runs op_step d ls d'" "set ls \<subseteq> T"
    by (auto simp: steps_to_def)
  then show ?thesis
    using assms(2,3) by (induction rule: runs.induct) (auto intro: budget_step)
qed

section \<open>The failure handlers\<close>

text \<open>
  A failure statement decided on the attempt of the very row it updates keeps the budget.
\<close>

lemma budget_fail_update:
  assumes inv: "budget_inv d" and r: "r \<in> set (operations d)" "P r"
    and sel: "\<And>x. P x \<Longrightarrow> op_id x = op_id r"
    and eff: "\<And>x. P x \<Longrightarrow> row_effect WFail x (f x)"
    and dec: "status (f r) = Retrying \<longrightarrow> attempt r < max_attempts r"
    and ops: "operations d' = update_where P f (operations d)"
  shows "budget_inv d'"
proof -
  have only: "x = r" if "x \<in> set (operations d)" "P x" for x
  proof (rule distinct_map_eq [of op_id "operations d"])
    show "distinct (map op_id (operations d))" using inv by (simp add: budget_inv_def)
    show "op_id x = op_id r" by (rule sel) (fact that(2))
  qed (fact that(1), fact r(1))
  have "identity (f r) = identity r" using eff [OF r(2)] by (rule row_effect_identity)
  then have "max_attempts (f r) = max_attempts r" by (auto dest: identity_parts)
  moreover have "attempt (f r) = attempt r" using eff [OF r(2)] by (simp add: row_effect_def)
  moreover have "status (f r) \<in> {Retrying, DeadLettered}"
    using eff [OF r(2)] by (simp add: row_effect_def)
  moreover have "within_budget r" using inv r by (simp add: budget_inv_def)
  ultimately have wb: "within_budget (f r)" using dec by (auto simp: within_budget_def)
  have "within_budget y" if y: "y \<in> set (operations d')" for y
  proof -
    from y obtain x where x: "x \<in> set (operations d)" "y = (if P x then f x else x)"
      unfolding ops by (auto simp: in_update_where)
    show ?thesis
    proof (cases "P x")
      case True
      with only x(1) have "x = r" by blast
      with True x(2) wb show ?thesis by simp
    next
      case False
      with x inv show ?thesis by (simp add: budget_inv_def)
    qed
  qed
  moreover have "map op_id (operations d') = map op_id (operations d)"
    unfolding ops
    by (rule map_update_where) (use row_effect_identity [OF eff] identity_parts in blast)
  ultimately show ?thesis using inv by (simp add: budget_inv_def)
qed

lemma operations_exec_stmt:
  "operations (fst (exec_stmt st d)) = update_where (st_where st) (st_set st) (operations d)"
  by (simp add: exec_stmt_def)

lemma budget_fail: "budget_inv d \<Longrightarrow> budget_inv (fst (fail n i bound f h d))"
proof (cases "fst (fail n i bound f h d) = d")
  case False
  assume inv: "budget_inv d"
  from False obtain inp r where b: "bound = Some inp"
    and r: "find_row (\<lambda>r. op_id r = i \<and> status r = Running \<and>
       lease_owner r = Some (fi_worker_id inp)) (operations d) = Some r"
    by (auto simp: fail_def split: option.splits if_splits)
  define st where "st = failure_status (fi_retryable inp) (attempt r) (max_attempts r)"
  define s where "s = fail_stmt n i (fi_worker_id inp) st (fi_error_code inp)
    (fi_error_message inp) (fi_ai_explanation inp)"
  have d': "fst (fail n i bound f h d) = fst (exec_stmt s d)"
    using False by (auto simp: fail_def b r st_def s_def Let_def split_def scan_envelope_def)
  have st: "st \<in> {Retrying, DeadLettered}" unfolding st_def by (rule failure_status_set)
  show ?thesis
    unfolding d'
  proof (rule budget_fail_update [where d = d and r = r and P = "st_where s" and f = "st_set s", OF inv])
    show "r \<in> set (operations d)" "st_where s r"
      using find_row_Some [OF r] by (auto simp: s_def fail_stmt_def)
    then show "op_id x = op_id r" if "st_where s x" for x
      using that by (auto simp: s_def fail_stmt_def)
    show "row_effect WFail x (st_set s x)" if "st_where s x" for x
      using that st by (simp add: s_def stmt_effect)
    show "status (st_set s r) = Retrying \<longrightarrow> attempt r < max_attempts r"
      by (simp add: s_def fail_stmt_def row_defs st_def failure_status_def)
  qed (rule operations_exec_stmt)
qed simp

lemma budget_workerFail: "budget_inv d \<Longrightarrow> budget_inv (fst (workerFail n g i bound f h d))"
  using workerFail_cases [of n g i bound f h d]
proof (elim disjE exE conjE)
  fix r inp st ty p t
  assume inv: "budget_inv d" and r: "r \<in> set (operations d)"
    and st: "st = failure_status (fi_retryable inp) (attempt r) (max_attempts r)"
  define s where "s = worker_fail_stmt n i t (fi_worker_id inp) st (fi_error_code inp)
    (fi_error_message inp) (fi_ai_explanation inp)"
  assume "st_where (worker_fail_stmt n i t (fi_worker_id inp) st (fi_error_code inp)
      (fi_error_message inp) (fi_ai_explanation inp)) r"
    and "insertEvent n g (event_key i ty (attempt r)) ty i t p
      (fst (exec_stmt (worker_fail_stmt n i t (fi_worker_id inp) st (fi_error_code inp)
        (fi_error_message inp) (fi_ai_explanation inp)) d)) =
      Some (fst (workerFail n g i bound f h d))"
  then have sel: "st_where s r"
    and ins: "insertEvent n g (event_key i ty (attempt r)) ty i t p (fst (exec_stmt s d)) =
      Some (fst (workerFail n g i bound f h d))"
    by (simp_all add: s_def)
  show ?thesis
  proof (rule budget_fail_update [where d = d and r = r and P = "st_where s" and f = "st_set s", OF inv])
    show "r \<in> set (operations d)" "st_where s r" by (fact r, fact sel)
    show "op_id x = op_id r" if "st_where s x" for x
      using that sel by (auto simp: s_def worker_fail_stmt_def)
    show "row_effect WFail x (st_set s x)" if "st_where s x" for x
      using that failure_status_set by (simp add: s_def stmt_effect st)
    show "status (st_set s r) = Retrying \<longrightarrow> attempt r < max_attempts r"
      by (simp add: s_def worker_fail_stmt_def row_defs st failure_status_def)
    show "operations (fst (workerFail n g i bound f h d)) =
        update_where (st_where s) (st_set s) (operations d)"
      using insertEvent_frame [OF ins] by (simp add: operations_exec_stmt)
  qed
qed simp

section \<open>The reaper\<close>

text \<open>
  The batch decides on envelopes it read at its start. They stay true of the rows that are
  still running, because the items of the batch only take rows out of \<open>RUNNING\<close>.
\<close>

definition envelope_fits :: "database \<Rightarrow> QueueEnvelope \<Rightarrow> bool" where
  "envelope_fits d env \<longleftrightarrow> (\<forall>r\<in>set (operations d).
     op_id r = env_operation_id env \<and> status r = Running \<longrightarrow>
     attempt r = env_attempt env \<and> max_attempts r = env_max_attempts env)"

lemma reap_item_cases:
  "fst (reap_item n g f env d) = d \<or>
   (\<exists>s. operations (fst (reap_item n g f env d)) =
       update_where (st_where s) (st_set s) (operations d) \<and>
     (s = reap_dead_stmt n (env_operation_id env) \<or>
      s = reap_retry_stmt n (env_operation_id env) \<and> env_attempt env < env_max_attempts env))"
proof -
  have ins: "operations d' = operations (fst (exec_stmt (reap_dead_stmt n i) d))"
    if "insertEvent n g key ty i t p (fst (exec_stmt (reap_dead_stmt n i) d)) = Some d'"
    for key ty i t p d'
    using insertEvent_frame [OF that] by simp
  show ?thesis
    unfolding reap_item_def Let_def split_def
    by (auto split: option.splits if_splits dest!: ins simp: operations_exec_stmt)
qed

lemma reap_running:
  "r \<in> set (operations (fst (reap_item n g f env d))) \<Longrightarrow> status r = Running \<Longrightarrow>
     r \<in> set (operations d)"
  using reap_item_cases [of n g f env d]
  by (auto simp: in_update_where reap_dead_stmt_def reap_retry_stmt_def row_defs split: if_splits)

lemma reap_fits: "envelope_fits d e \<Longrightarrow> envelope_fits (fst (reap_item n g f env d)) e"
  unfolding envelope_fits_def using reap_running by blast

lemma budget_reap_item:
  assumes inv: "budget_inv d" and fits: "envelope_fits d env"
  shows "budget_inv (fst (reap_item n g f env d))"
proof (cases "fst (reap_item n g f env d) = d")
  case False
  let ?d' = "fst (reap_item n g f env d)"
  from False obtain s where ops: "operations ?d' = update_where (st_where s) (st_set s) (operations d)"
    and s: "s = reap_dead_stmt n (env_operation_id env) \<or>
      s = reap_retry_stmt n (env_operation_id env) \<and> env_attempt env < env_max_attempts env"
    using reap_item_cases [of n g f env d] by metis
  show ?thesis
  proof (cases "\<exists>r\<in>set (operations d). st_where s r")
    case False
    then have "operations ?d' = operations d" by (simp add: ops update_where_id)
    with inv show ?thesis by (simp add: budget_inv_def)
  next
    case True
    then obtain r where r: "r \<in> set (operations d)" "st_where s r" by blast
    show ?thesis
    proof (rule budget_fail_update [where d = d and r = r and P = "st_where s" and f = "st_set s", OF inv])
      show "r \<in> set (operations d)" "st_where s r" by (fact r)+
      show "operations ?d' = update_where (st_where s) (st_set s) (operations d)" by (fact ops)
      show "op_id x = op_id r" if "st_where s x" for x
        using that r(2) s by (auto simp: reap_dead_stmt_def reap_retry_stmt_def)
      show "row_effect WFail x (st_set s x)" if "st_where s x" for x
        using that s by (auto simp: stmt_effect)
      have "attempt r = env_attempt env" "max_attempts r = env_max_attempts env"
        using fits r s by (auto simp: envelope_fits_def reap_dead_stmt_def reap_retry_stmt_def)
      then show "status (st_set s r) = Retrying \<longrightarrow> attempt r < max_attempts r"
        using s by (auto simp: reap_dead_stmt_def row_defs)
    qed
  qed
qed (use inv in simp)

lemma budget_reap_items:
  "budget_inv d \<Longrightarrow> \<forall>env\<in>set envs. envelope_fits d env \<Longrightarrow>
     budget_inv (fst (reap_items n g f k envs d))"
proof (induction envs arbitrary: k d)
  case (Cons env envs)
  have "budget_inv (fst (reap_item n (g k) (f k) env d))"
    using Cons.prems by (intro budget_reap_item) auto
  moreover have "\<forall>e\<in>set envs. envelope_fits (fst (reap_item n (g k) (f k) env d)) e"
    using Cons.prems by (auto intro: reap_fits)
  ultimately show ?case
    using Cons.IH [of "fst (reap_item n (g k) (f k) env d)" "Suc k"] by (simp add: Let_def split_def)
qed simp

lemma budget_reap:
  assumes "budget_inv d"
  shows "budget_inv (fst (reapExpiredLeaseBatch n g q f d))"
proof -
  have "envelope_fits d (scan_envelope r)" if "r \<in> set (operations d)" for r
    unfolding envelope_fits_def
  proof (intro ballI impI)
    fix x
    assume x: "x \<in> set (operations d)" "op_id x = env_operation_id (scan_envelope r) \<and> status x = Running"
    have "x = r"
      by (rule distinct_map_eq [of op_id "operations d"])
         (use assms x that in \<open>auto simp: budget_inv_def scan_envelope_def\<close>)
    then show "attempt x = env_attempt (scan_envelope r) \<and>
        max_attempts x = env_max_attempts (scan_envelope r)"
      by (simp add: scan_envelope_def)
  qed
  moreover have "set (expired_rows n (operations d)) \<subseteq> set (operations d)"
    by (auto simp: expired_rows_def dest!: in_set_takeD)
  ultimately show ?thesis
    using assms unfolding reapExpiredLeaseBatch_def
    by (auto intro!: budget_reap_items) blast
qed

section \<open>Activations\<close>

definition act_step :: "database \<Rightarrow> unit \<Rightarrow> database \<Rightarrow> bool" where
  "act_step d u d' = activation d d'"

lemma RequireTenant_cases:
  "RequireTenant next h d = (d', calls, r) \<Longrightarrow> d' = d \<or> d' = fst (next h d)"
  by (auto simp: RequireTenant_def split: if_splits)

lemma RequireInternal_cases:
  "RequireInternal s next h d = (d', calls, r) \<Longrightarrow> d' = d \<or> d' = fst (next h d)"
  by (auto simp: RequireInternal_def split: if_splits)

lemma budget_handler:
  "steps_to {l} d (fst res) \<Longrightarrow> l \<notin> {TFail, TReap} \<Longrightarrow> budget_inv d \<Longrightarrow> budget_inv (fst res)"
  by (rule budget_steps_to) auto

lemma budget_activation:
  assumes "activation d d'" "budget_inv d"
  shows "budget_inv d'"
  using assms(1)
proof (cases rule: activation.cases)
  case (act_workflow n f env calls res)
  then show ?thesis
    using queueOperationWorkflow_steps [of d n f env] assms(2)
    by (auto intro: budget_steps_to)
next
  case (act_reap n gs q fs calls)
  then show ?thesis using budget_reap [OF assms(2), of n gs q fs] by simp
next
  case (act_dispatch n usage f calls)
  then show ?thesis
    using budget_handler [OF dispatchEventBatch_steps _ assms(2), of n usage f] by simp
qed (use assms(2) budget_fail budget_workerFail
       budget_handler [OF create_steps] budget_handler [OF cancel_steps]
       budget_handler [OF redrive_steps] budget_handler [OF workerPoll_steps]
       budget_handler [OF workerHeartbeat_steps] budget_handler [OF workerComplete_steps]
       budget_handler [OF claim_steps] budget_handler [OF heartbeat_steps]
       budget_handler [OF complete_steps]
     in \<open>auto dest!: RequireTenant_cases RequireInternal_cases\<close>)

interpretation budget: step_invariant act_step budget_inv
  by unfold_locales (auto simp: act_step_def intro: budget_activation)



section \<open>A failure report that races with the reaper\<close>


end
