(* ===== verification/Usage.thy ===== *)
theory Usage
  imports Leases
begin

text \<open>
  \<open>cmd/usage/main.go\<close>: the ledger of billed units, the webhook endpoints and their outbox,
  the dispatcher of webhooks, and the live event stream with its bounded subscriber
  buffers. The handlers work on the database and the table of subscribers; \<open>enc\<close> is the
  JSON text \<open>json.Marshal\<close> gives an event.
\<close>

section \<open>State, calls and bodies\<close>

text \<open>One open event stream: its tenant and what its channel of 16 places holds.\<close>

record subscriber =
  sb_tenant :: string
  sb_buffer :: "string list"

record usage_state =
  us_db :: database
  us_subs :: "subscriber list"

record delivery =
  dl_id :: string
  dl_tenant_id :: string
  dl_url :: string
  dl_secret :: string
  dl_event_type :: string
  dl_operation_id :: string
  dl_payload :: string
  dl_attempt :: int

datatype usage_call = PostWebhook string header string

record usage_info =
  ui_used :: int
  ui_quota :: int
  ui_remaining :: int

record tenant_usage =
  tu_tenant_id :: string
  tu_name :: string
  tu_quota :: int
  tu_used :: int

record webhook_info =
  wi_id :: string
  wi_url :: string
  wi_enabled :: bool
  wi_created_at :: int

datatype usage_body =
  UsageInfo usage_info
| TenantItems "tenant_usage list"
| WebhookItems "webhook_info list"
| WebhookCreated string string

type_synonym usage_handler = "(usage_state, usage_call, usage_body) handler"

section \<open>The event stream\<close>

definition buffer_size :: nat where
  "buffer_size = 16"

text \<open>\<open>publish\<close> sends without blocking: a full buffer drops the event.\<close>

definition offer :: "string \<Rightarrow> subscriber \<Rightarrow> subscriber" where
  "offer data s = (if length (sb_buffer s) < buffer_size then s\<lparr>sb_buffer := sb_buffer s @ [data]\<rparr> else s)"

definition publish :: "string \<Rightarrow> string \<Rightarrow> subscriber list \<Rightarrow> subscriber list" where
  "publish t data subs = map (\<lambda>s. if sb_tenant s = t then offer data s else s) subs"

text \<open>
  \<open>events\<close>: a stream opens with an empty channel, writes what it receives and a comment at
  every tick, and is removed when its client leaves.
\<close>

definition subscribe :: "string \<Rightarrow> subscriber list \<Rightarrow> subscriber list" where
  "subscribe t subs = subs @ [\<lparr>sb_tenant = t, sb_buffer = []\<rparr>]"

definition sse_frame :: "string \<Rightarrow> string" where
  "sse_frame data = ''event: operation'' @ [CHR 0x0A] @ ''data: '' @ data @ [CHR 0x0A, CHR 0x0A]"

definition keepalive :: string where
  "keepalive = '': keepalive'' @ [CHR 0x0A, CHR 0x0A]"

definition receive :: "nat \<Rightarrow> subscriber list \<Rightarrow> (subscriber list \<times> string) option" where
  "receive k subs = (if k < length subs then
     (case sb_buffer (subs ! k) of [] \<Rightarrow> None
      | data # rest \<Rightarrow> Some (subs[k := (subs ! k)\<lparr>sb_buffer := rest\<rparr>], sse_frame data)) else None)"

definition unsubscribe :: "nat \<Rightarrow> subscriber list \<Rightarrow> subscriber list" where
  "unsubscribe k subs = take k subs @ drop (Suc k) subs"

section \<open>Recording an event\<close>

text \<open>The checks and defaults of \<open>recordEvent\<close>; the zero instant is 0.\<close>

definition check_event :: "int \<Rightarrow> OperationEvent \<Rightarrow> OperationEvent option" where
  "check_event n ev =
     (if ev_event_key ev = '''' \<or> ev_operation_id ev = '''' \<or> ev_tenant_id ev = '''' then None
      else let ev = (if ev_occurred_at ev = 0 then ev\<lparr>ev_occurred_at := n\<rparr> else ev)
           in Some (if ev_payload ev = [] then ev\<lparr>ev_payload := ''{}''\<rparr> else ev))"

definition ledger_entry :: "int \<Rightarrow> OperationEvent \<Rightarrow> ledger_row" where
  "ledger_entry n ev = \<lparr>le_tenant_id = ev_tenant_id ev, le_operation_id = ev_operation_id ev,
     le_event_key = ev_event_key ev, le_units = ev_units ev, le_metadata = ev_payload ev,
     le_created_at = n\<rparr>"

text \<open>
  The insert into the ledger with the table's constraints: negative units are rejected, a
  known key is ignored, a new row needs its tenant. The flag is \<open>RowsAffected() > 0\<close>.
\<close>

definition insert_ledger :: "int \<Rightarrow> OperationEvent \<Rightarrow> database \<Rightarrow> (database \<times> bool) option" where
  "insert_ledger n ev d =
     (if ev_units ev < 0 then None
      else if ev_event_key ev \<in> le_event_key ` set (ledger d)
        then Some (put_ledger (ledger_entry n ev) d, False)
      else if ev_tenant_id ev \<notin> tn_id ` set (tenants d) then None
      else Some (put_ledger (ledger_entry n ev) d, True))"

definition new_webhook :: "int \<Rightarrow> string \<Rightarrow> OperationEvent \<Rightarrow> endpoint_row \<Rightarrow> webhook_row" where
  "new_webhook n g ev e = \<lparr>wo_id = g, wo_tenant_id = ev_tenant_id ev, wo_endpoint_id = we_id e,
     wo_event_type = ev_event_type ev, wo_operation_id = ev_operation_id ev,
     wo_payload = ev_payload ev, wo_status = ObPending, wo_attempt = 0, wo_next_attempt_at = n,
     wo_last_error = None, wo_created_at = n, wo_delivered_at = None\<rparr>"

definition fan_out :: "int \<Rightarrow> (endpoint_row \<Rightarrow> string) \<Rightarrow> OperationEvent \<Rightarrow> database \<Rightarrow> database" where
  "fan_out n g ev d = d\<lparr>webhook_outbox := webhook_outbox d @
     map (\<lambda>e. new_webhook n (g e) ev e)
       (filter (\<lambda>e. we_tenant_id e = ev_tenant_id ev \<and> we_enabled e) (webhook_endpoints d))\<rparr>"

text \<open>The transaction: begin (0), ledger (1), outbox (2), commit (3).\<close>

definition record_tx ::
    "int \<Rightarrow> (endpoint_row \<Rightarrow> string) \<Rightarrow> OperationEvent \<Rightarrow> faults \<Rightarrow> database \<Rightarrow> database option" where
  "record_tx n g ev f d =
     (if f 0 \<or> f 1 then None
      else case insert_ledger n ev d of None \<Rightarrow> None
      | Some (d', fresh) \<Rightarrow>
          if fresh \<and> f 2 then None
          else let d'' = (if fresh then fan_out n g ev d' else d')
               in if f 3 then None else Some d'')"

definition recordEvent ::
    "(OperationEvent \<Rightarrow> string) \<Rightarrow> int \<Rightarrow> (endpoint_row \<Rightarrow> string) \<Rightarrow> OperationEvent option \<Rightarrow> faults \<Rightarrow>
     usage_handler" where
  "recordEvent enc n g bound f h s =
     (case bound of None \<Rightarrow> (s, [], HTTPError 400 ''invalid JSON'')
      | Some raw \<Rightarrow>
     (case check_event n raw of
        None \<Rightarrow> (s, [], HTTPError 400 ''event_key, operation_id and tenant_id are required'')
      | Some ev \<Rightarrow>
     (case record_tx n g ev f (us_db s) of
        None \<Rightarrow> (s, [], PlainError)
      | Some d' \<Rightarrow> (\<lparr>us_db = d', us_subs = publish (ev_tenant_id ev) (enc ev) (us_subs s)\<rparr>, [],
                    NoContent 202))))"

section \<open>Reading usage\<close>

definition month_units :: "clock \<Rightarrow> string \<Rightarrow> database \<Rightarrow> int" where
  "month_units clk t d = sum_list (map le_units
     (filter (\<lambda>l. le_tenant_id l = t \<and> month_start clk \<le> le_created_at l) (ledger d)))"

definition getUsage :: "clock \<Rightarrow> faults \<Rightarrow> usage_handler" where
  "getUsage clk f h s =
     (let t = hdr_get h TenantHeader in
      case (if f 0 then None else find_row (\<lambda>x. tn_id x = t) (tenants (us_db s))) of
        None \<Rightarrow> (s, [], PlainError)
      | Some tn \<Rightarrow>
         (let used = month_units clk t (us_db s); quota = tn_monthly_quota tn
          in (s, [], JSON 200 (UsageInfo \<lparr>ui_used = used, ui_quota = quota,
                ui_remaining = max (quota - used) 0\<rparr>))))"

definition adminUsage :: "clock \<Rightarrow> faults \<Rightarrow> usage_handler" where
  "adminUsage clk f h s =
     (if hdr_get h RoleHeader \<noteq> ''admin'' then (s, [], HTTPError 403 ''admin role required'')
      else if f 0 \<or> f 1 then (s, [], PlainError)
      else (s, [], JSON 200 (TenantItems (sort_key (\<lambda>x. - tu_used x)
        (map (\<lambda>tn. \<lparr>tu_tenant_id = tn_id tn, tu_name = tn_name tn, tu_quota = tn_monthly_quota tn,
                     tu_used = month_units clk (tn_id tn) (us_db s)\<rparr>) (tenants (us_db s)))))))"

section \<open>Webhook endpoints\<close>

definition createWebhook :: "int \<Rightarrow> string \<Rightarrow> (string \<times> string) option \<Rightarrow> faults \<Rightarrow> usage_handler" where
  "createWebhook n i bound f h s =
     (let t = hdr_get h TenantHeader in
      case bound of None \<Rightarrow> (s, [], HTTPError 400 ''invalid JSON'')
      | Some (url, secret) \<Rightarrow>
          if \<not> has_prefix url ''http://'' \<and> \<not> has_prefix url ''https://''
            then (s, [], HTTPError 400 ''webhook URL must use http or https'')
          else if length secret < 16
            then (s, [], HTTPError 400 ''webhook secret must have at least 16 characters'')
          else if f 0 \<or> t \<notin> tn_id ` set (tenants (us_db s)) \<or>
              i \<in> we_id ` set (webhook_endpoints (us_db s)) then (s, [], PlainError)
          else (s\<lparr>us_db := (us_db s)\<lparr>webhook_endpoints := webhook_endpoints (us_db s) @
                   [\<lparr>we_id = i, we_tenant_id = t, we_url = url, we_secret = secret,
                     we_enabled = True, we_created_at = n\<rparr>]\<rparr>\<rparr>, [], JSON 201 (WebhookCreated i url)))"

definition listWebhooks :: "faults \<Rightarrow> usage_handler" where
  "listWebhooks f h s =
     (let t = hdr_get h TenantHeader in
      if f 0 \<or> f 1 then (s, [], PlainError)
      else (s, [], JSON 200 (WebhookItems (map
        (\<lambda>e. \<lparr>wi_id = we_id e, wi_url = we_url e, wi_enabled = we_enabled e, wi_created_at = we_created_at e\<rparr>)
        (sort_key (\<lambda>e. - we_created_at e)
          (filter (\<lambda>e. we_tenant_id e = t) (webhook_endpoints (us_db s))))))))"

text \<open>
  The delete fails with a foreign key violation while the outbox has a row of the endpoint.
\<close>

definition deleteWebhook :: "string \<Rightarrow> faults \<Rightarrow> usage_handler" where
  "deleteWebhook i f h s =
     (let d = us_db s; own = (\<lambda>e. we_id e = i \<and> we_tenant_id e = hdr_get h TenantHeader) in
      if f 0 \<or> (\<exists>e\<in>set (webhook_endpoints d). own e \<and> we_id e \<in> wo_endpoint_id ` set (webhook_outbox d))
        then (s, [], PlainError)
      else if count_where own (webhook_endpoints d) = 0 then (s, [], HTTPError 404 ''webhook not found'')
      else (s\<lparr>us_db := d\<lparr>webhook_endpoints := filter (\<lambda>e. \<not> own e) (webhook_endpoints d)\<rparr>\<rparr>, [], NoContent 204))"

section \<open>The dispatcher of webhooks\<close>

text \<open>
  One transaction picks the due rows that nobody else has locked and marks them in flight;
  \<open>locked\<close> are the identifiers another dispatcher holds.
\<close>

definition due_webhooks :: "int \<Rightarrow> string set \<Rightarrow> webhook_row list \<Rightarrow> webhook_row list" where
  "due_webhooks n locked rows = take 20 (sort_key wo_created_at
     (filter (\<lambda>r. wo_status r = ObPending \<and> wo_next_attempt_at r \<le> n \<and> wo_id r \<notin> locked) rows))"

definition delivery_of :: "endpoint_row list \<Rightarrow> webhook_row \<Rightarrow> delivery option" where
  "delivery_of eps x = (case find_row (\<lambda>e. we_id e = wo_endpoint_id x) eps of
      None \<Rightarrow> None
    | Some e \<Rightarrow> Some \<lparr>dl_id = wo_id x, dl_tenant_id = wo_tenant_id x, dl_url = we_url e,
        dl_secret = we_secret e, dl_event_type = wo_event_type x,
        dl_operation_id = wo_operation_id x, dl_payload = wo_payload x, dl_attempt = wo_attempt x\<rparr>)"

definition pick_batch :: "int \<Rightarrow> string set \<Rightarrow> database \<Rightarrow> database \<times> delivery list" where
  "pick_batch n locked d =
     (let items = List.map_filter (delivery_of (webhook_endpoints d))
                    (due_webhooks n locked (webhook_outbox d))
      in (d\<lparr>webhook_outbox := update_where (\<lambda>r. wo_id r \<in> set (map dl_id items))
             (\<lambda>r. r\<lparr>wo_status := ObInFlight\<rparr>) (webhook_outbox d)\<rparr>, items))"

definition signature_header :: "(string \<Rightarrow> string \<Rightarrow> string) \<Rightarrow> delivery \<Rightarrow> string" where
  "signature_header mac x = ''sha256='' @ hex_encode (mac (dl_secret x) (dl_payload x))"

definition webhook_headers :: "(string \<Rightarrow> string \<Rightarrow> string) \<Rightarrow> delivery \<Rightarrow> header" where
  "webhook_headers mac x =
     hdr_set (hdr_set (hdr_set (hdr_set [] ''Content-Type'' ''application/json'')
       ''X-Nexora-Event'' (dl_event_type x)) ''X-Nexora-Signature'' (signature_header mac x))
       ''X-Nexora-Delivery'' (dl_id x)"

definition webhook_error :: "http_result \<Rightarrow> string option" where
  "webhook_error resp = (case resp of HttpError e \<Rightarrow> Some e
     | HttpResponse code _ \<Rightarrow>
         if is_2xx code then None else Some (''webhook returned '' @ itoa code))"

definition max_webhook_attempts :: int where
  "max_webhook_attempts = 8"

definition webhook_outcome :: "int \<Rightarrow> http_result \<Rightarrow> int \<Rightarrow> webhook_row \<Rightarrow> webhook_row" where
  "webhook_outcome n resp att r =
     (case webhook_error resp of
        None \<Rightarrow> r\<lparr>wo_status := ObDelivered, wo_delivered_at := Some n, wo_attempt := wo_attempt r + 1\<rparr>
      | Some err \<Rightarrow>
         (let a = att + 1
          in if a \<ge> max_webhook_attempts
             then r\<lparr>wo_status := ObDeadLettered, wo_attempt := a, wo_last_error := Some err\<rparr>
             else r\<lparr>wo_status := ObPending, wo_attempt := a, wo_last_error := Some err,
                   wo_next_attempt_at := n + push_bit (nat (min a 8)) 1 * second\<rparr>))"

definition deliver ::
    "int \<Rightarrow> (string \<Rightarrow> string \<Rightarrow> string) \<Rightarrow> http_result \<Rightarrow> bool \<Rightarrow> delivery \<Rightarrow> database \<Rightarrow>
     database \<times> usage_call list" where
  "deliver n mac resp upd_fails x d =
     ((if upd_fails then d
       else d\<lparr>webhook_outbox := update_where (\<lambda>r. wo_id r = dl_id x \<and> wo_status r = ObInFlight)
              (webhook_outcome n resp (dl_attempt x)) (webhook_outbox d)\<rparr>),
      [PostWebhook (dl_url x) (webhook_headers mac x) (dl_payload x)])"

fun deliver_all ::
    "int \<Rightarrow> (string \<Rightarrow> string \<Rightarrow> string) \<Rightarrow> (delivery \<Rightarrow> http_result) \<Rightarrow> faults \<Rightarrow> nat \<Rightarrow> delivery list \<Rightarrow>
     database \<Rightarrow> database \<times> usage_call list" where
  "deliver_all n mac post f k [] d = (d, [])"
| "deliver_all n mac post f k (x # xs) d =
     (let (d', c) = deliver n mac (post x) (f k) x d;
          (d'', cs) = deliver_all n mac post f (Suc k) xs d'
      in (d'', c @ cs))"

text \<open>Begin (0), pick (1), the rows (2), commit (3); then the deliveries.\<close>

definition dispatchBatch ::
    "int \<Rightarrow> (string \<Rightarrow> string \<Rightarrow> string) \<Rightarrow> (delivery \<Rightarrow> http_result) \<Rightarrow> string set \<Rightarrow> faults \<Rightarrow>
     database \<Rightarrow> database \<times> usage_call list" where
  "dispatchBatch n mac post locked f d =
     (if f 0 \<or> f 1 \<or> f 2 \<or> f 3 then (d, [])
      else let (d', items) = pick_batch n locked d in deliver_all n mac post f 4 items d')"

end
