(* ===== verification/Worker.thy ===== *)
theory Worker
  imports Poll Usage Sample
begin

text \<open>
  \<open>cmd/worker/main.go\<close>: the cloud worker. It reads one stream message at a time, claims its
  operation at the Operations service, calls the target, and reports the outcome, the usage
  event and the acknowledgement. The model is the sequence of calls the worker issues, given
  what each of them answers.
\<close>

section \<open>Configuration, answers and calls\<close>

record worker_cfg =
  wc_id :: string
  wc_openrouter_key :: string
  wc_primary_model :: string
  wc_fallback_model :: string

text \<open>
  What a target call gives: a transport error (with its text), or a status with the body
  that was read or the error of reading it.
\<close>

datatype target_reply = TargetError string | TargetReadError int string | TargetReply int string

text \<open>What the AI provider gives for one model: the contents of the choices when it decodes.\<close>

datatype ai_reply = AiTransport | AiStatus int | AiUndecodable int | AiChoices int "string list"

record worker_answers =
  wa_now :: int
  wa_claim :: http_result
  wa_target :: target_reply
  wa_ticks :: nat
  wa_ai :: "string \<Rightarrow> ai_reply"
  wa_complete :: http_result

datatype worker_call =
  CallClaim string string int
| CallTarget string header string
| CallHeartbeat string string
| CallAI string string
| CallComplete string completeInput
| CallFail string failInput
| CallEvent OperationEvent
| CallAck stream_id

definition post_ok :: "http_result \<Rightarrow> bool" where
  "post_ok r = (case r of HttpError _ \<Rightarrow> False | HttpResponse code _ \<Rightarrow> is_2xx code)"

section \<open>Executing the target\<close>

definition body_limit :: nat where
  "body_limit = 1048576"

definition target_headers :: "QueueEnvelope \<Rightarrow> header" where
  "target_headers env = hdr_set (hdr_set (hdr_set [] ''Content-Type'' ''application/json'')
     ''X-Nexora-Operation-ID'' (env_operation_id env)) ''Idempotency-Key'' (env_operation_id env)"

text \<open>The result body, the status (0 without a response) and the error, if any.\<close>

definition execute :: "target_reply \<Rightarrow> string \<times> int \<times> string option" where
  "execute reply = (case reply of
      TargetError e \<Rightarrow> ([], 0, Some e)
    | TargetReadError code e \<Rightarrow> ([], code, Some e)
    | TargetReply code full \<Rightarrow>
        (let body = take body_limit full
         in if \<not> is_2xx code
            then (body, code, Some (''target returned HTTP '' @ itoa code @ '': '' @ body))
            else (if json_valid body then body
                  else json_object [(''body'', json_quote body), (''status'', itoa code)], code, None)))"

definition errorCode :: "int \<Rightarrow> string" where
  "errorCode code =
     (if code = 0 then ''NETWORK_ERROR''
      else if code = 408 then ''TARGET_TIMEOUT''
      else if code = 429 then ''TARGET_RATE_LIMITED''
      else if code \<ge> 500 then ''TARGET_SERVER_ERROR''
      else ''TARGET_REJECTED'')"

definition retryable_status :: "int \<Rightarrow> bool" where
  "retryable_status code = (code = 0 \<or> code = 408 \<or> code = 429 \<or> code \<ge> 500)"

section \<open>Explaining the outcome\<close>

definition truncate_text :: "string \<Rightarrow> nat \<Rightarrow> string" where
  "truncate_text v n = (if length v > n then take n v else v)"

definition callOpenRouter :: "ai_reply \<Rightarrow> string option" where
  "callOpenRouter reply = (case reply of
      AiTransport \<Rightarrow> None | AiStatus code \<Rightarrow> None | AiUndecodable code \<Rightarrow> None
    | AiChoices code choices \<Rightarrow>
        if \<not> is_2xx code then None
        else (case choices of [] \<Rightarrow> None
              | content # _ \<Rightarrow> if trim_space content = '''' then None else Some content))"

definition explain_prompt :: "QueueEnvelope \<Rightarrow> string \<Rightarrow> string \<Rightarrow> string" where
  "explain_prompt env res failure =
     ''Explain this automation operation outcome concisely for an operations engineer. Task type: '' @
     env_task_type env @ ''. Result: '' @ truncate_text res 3000 @ ''. Error: '' @ truncate_text failure 3000 @
     ''. Include likely cause and one next action. Never invent facts.''"

fun ask_models :: "(string \<Rightarrow> ai_reply) \<Rightarrow> string \<Rightarrow> string list \<Rightarrow> string \<Rightarrow> worker_call list \<times> string" where
  "ask_models ai prompt [] fallback = ([], fallback)"
| "ask_models ai prompt (m # ms) fallback =
     (case callOpenRouter (ai m) of
        Some answer \<Rightarrow> ([CallAI m prompt], answer)
      | None \<Rightarrow> (let (cs, text) = ask_models ai prompt ms fallback in (CallAI m prompt # cs, text)))"

definition explain ::
    "worker_cfg \<Rightarrow> (string \<Rightarrow> ai_reply) \<Rightarrow> QueueEnvelope \<Rightarrow> string \<Rightarrow> string \<Rightarrow> worker_call list \<times> string" where
  "explain cfg ai env res failure =
     (if wc_openrouter_key cfg = ''''
      then ([], if failure \<noteq> ''''
                then ''The operation failed after calling the configured target. Review the HTTP error and confirm the target is reachable and accepts the submitted payload.''
                else ''The operation completed successfully and the target acknowledged the request.'')
      else ask_models ai (explain_prompt env res failure) [wc_primary_model cfg, wc_fallback_model cfg]
        ''AI explanation was unavailable. Inspect the recorded result or error and retry after confirming the target service health.'')"

section \<open>Reporting\<close>

definition failure_report :: "worker_cfg \<Rightarrow> string \<Rightarrow> string \<Rightarrow> bool \<Rightarrow> string \<Rightarrow> failInput" where
  "failure_report cfg code msg retryable expl = \<lparr>fi_worker_id = wc_id cfg, fi_error_code = code,
     fi_error_message = msg, fi_ai_explanation = expl, fi_retryable = retryable\<rparr>"

definition reportFailure ::
    "worker_cfg \<Rightarrow> QueueEnvelope \<Rightarrow> string \<Rightarrow> string \<Rightarrow> bool \<Rightarrow> string \<Rightarrow> worker_call" where
  "reportFailure cfg env code msg retryable expl =
     CallFail (env_operation_id env) (failure_report cfg code msg retryable expl)"

definition emit :: "int \<Rightarrow> QueueEnvelope \<Rightarrow> string \<Rightarrow> int \<Rightarrow> string \<Rightarrow> worker_call" where
  "emit n env ty units p = CallEvent \<lparr>
     ev_event_key = event_key (env_operation_id env) ty (env_attempt env), ev_event_type = ty,
     ev_operation_id = env_operation_id env, ev_tenant_id = env_tenant_id env, ev_units = units,
     ev_payload = p, ev_occurred_at = n\<rparr>"

section \<open>Processing a message\<close>

text \<open>
  \<open>heartbeat\<close> runs beside the target call: one request at each tick of 15 seconds until the
  call returns, and its answers are ignored. \<open>wa_ticks\<close> is the number of ticks.
\<close>

definition worker_heartbeats :: "worker_cfg \<Rightarrow> string \<Rightarrow> nat \<Rightarrow> worker_call list" where
  "worker_heartbeats cfg i ticks = replicate ticks (CallHeartbeat i (wc_id cfg))"

definition past_deadline :: "int \<Rightarrow> QueueEnvelope \<Rightarrow> bool" where
  "past_deadline n env = (case env_deadline env of None \<Rightarrow> False | Some t \<Rightarrow> t < n)"

text \<open>After the claim was accepted.\<close>

definition run_claimed :: "worker_cfg \<Rightarrow> worker_answers \<Rightarrow> stream_id \<Rightarrow> QueueEnvelope \<Rightarrow> worker_call list" where
  "run_claimed cfg a sid env =
     (let (res, code, err) = execute (wa_target a);
          target = CallTarget (env_target_url env) (target_headers env) (env_payload env);
          beats = worker_heartbeats cfg (env_operation_id env) (wa_ticks a)
      in case err of
           None \<Rightarrow>
             (let (ai, expl) = explain cfg (wa_ai a) env res '''';
                  done = CallComplete (env_operation_id env)
                    \<lparr>co_worker_id = wc_id cfg, co_result = res, co_ai_explanation = expl\<rparr>
              in target # beats @ ai @ [done] @
                 (if post_ok (wa_complete a)
                  then [emit (wa_now a) env ''operation.succeeded'' 1 res, CallAck sid] else []))
         | Some msg \<Rightarrow>
             (let retryable = retryable_status code;
                  (ai, expl) = explain cfg (wa_ai a) env [] msg
              in target # beats @ ai @
                 [reportFailure cfg env (errorCode code) msg retryable expl,
                  (if \<not> retryable \<or> env_attempt env + 1 \<ge> env_max_attempts env
                   then emit (wa_now a) env ''operation.dead_lettered'' 1
                          (json_object [(''error'', json_quote msg)])
                   else emit (wa_now a) env ''operation.failed'' 1
                          (json_object [(''error'', json_quote msg), (''retryable'', json_bool True)])),
                  CallAck sid]))"

definition process :: "worker_cfg \<Rightarrow> worker_answers \<Rightarrow> stream_id \<times> entry \<Rightarrow> worker_call list" where
  "process cfg a msg = (case msg of
      (sid, NoEnvelope) \<Rightarrow> [CallAck sid]
    | (sid, BadEnvelope) \<Rightarrow> [CallAck sid]
    | (sid, Envelope env) \<Rightarrow>
        if past_deadline (wa_now a) env
          then [reportFailure cfg env ''DEADLINE_EXCEEDED'' ''operation deadline exceeded'' False '''', CallAck sid]
        else if env_execution_mode env \<noteq> ''CLOUD'' then [CallAck sid]
        else CallClaim (env_operation_id env) (wc_id cfg) 45 #
             (if post_ok (wa_claim a) then run_claimed cfg a sid env else []))"

section \<open>What the worker guarantees\<close>

lemma execute_valid: "execute reply = (res, code, None) \<Longrightarrow> json_valid res"
  by (auto simp: execute_def Let_def json_value_text_itoa intro!: json_valid_object
      split: target_reply.splits if_splits)

lemma ask_models_calls: "c \<in> set (fst (ask_models ai p ms fb)) \<Longrightarrow> \<exists>m. c = CallAI m p"
  by (induction ms) (auto split: option.splits simp: Let_def split_def)

lemma explain_calls: "c \<in> set (fst (explain cfg ai env res failure)) \<Longrightarrow> \<exists>m p. c = CallAI m p"
  unfolding explain_def
  by (auto simp del: ask_models.simps split: if_splits dest: ask_models_calls)

fun is_target :: "worker_call \<Rightarrow> bool" where
  "is_target (CallTarget u h p) = True" | "is_target _ = False"

fun is_report :: "worker_call \<Rightarrow> bool" where
  "is_report (CallComplete i x) = True" | "is_report (CallFail i x) = True" | "is_report _ = False"

fun is_claim :: "worker_call \<Rightarrow> bool" where
  "is_claim (CallClaim i w s) = True" | "is_claim _ = False"

fun is_event :: "worker_call \<Rightarrow> bool" where
  "is_event (CallEvent e) = True" | "is_event _ = False"

lemma explain_quiet:
  "c \<in> set (fst (explain cfg ai env res failure)) \<Longrightarrow>
     \<not> is_target c \<and> \<not> is_report c \<and> \<not> is_claim c \<and> \<not> is_event c \<and> c \<noteq> CallAck sid"
  by (auto dest!: explain_calls)

lemma filter_explain [simp]:
  "filter is_target (fst (explain cfg ai env res failure)) = []"
  "filter is_report (fst (explain cfg ai env res failure)) = []"
  "filter is_claim (fst (explain cfg ai env res failure)) = []"
  "filter is_event (fst (explain cfg ai env res failure)) = []"
  "CallAck sid \<notin> set (fst (explain cfg ai env res failure))"
  by (auto simp: filter_empty_conv dest: explain_quiet)

lemma filter_heartbeats [simp]:
  "filter is_target (worker_heartbeats cfg i n) = []"
  "filter is_report (worker_heartbeats cfg i n) = []"
  "CallComplete j x \<notin> set (worker_heartbeats cfg i n)"
  "CallFail j y \<notin> set (worker_heartbeats cfg i n)"
  "CallAck sid \<notin> set (worker_heartbeats cfg i n)"
  by (simp_all add: worker_heartbeats_def filter_replicate)

text \<open>
  C30: The cloud worker runs a target only under a claim. For every message and whatever the
  services answer: the target is called at most once, and only when the message carries a
  cloud operation within its deadline and its claim was accepted; then exactly one outcome
  is reported, under the worker's own identifier, and a completion carries valid JSON. The
  message is acknowledged unless the claim was rejected or a completion was not confirmed.
\<close>
theorem worker_runs_under_claim:
  "let cs = process cfg a (sid, e); runs = length (filter is_target cs);
       claimed = (\<exists>env. e = Envelope env \<and> \<not> past_deadline (wa_now a) env \<and>
         env_execution_mode env = ''CLOUD'' \<and> post_ok (wa_claim a))
   in runs = (if claimed then 1 else 0) \<and>
      length (filter is_report cs) = (if claimed \<or>
        (\<exists>env. e = Envelope env \<and> past_deadline (wa_now a) env) then 1 else 0) \<and>
      (\<forall>i x. CallComplete i x \<notin> set cs \<or> co_worker_id x = wc_id cfg \<and> json_valid (co_result x)) \<and>
      (\<forall>i x. CallFail i x \<notin> set cs \<or> fi_worker_id x = wc_id cfg) \<and>
      (CallAck sid \<in> set cs \<or> (\<exists>env. e = Envelope env \<and> (\<not> post_ok (wa_claim a) \<or>
         (\<not> post_ok (wa_complete a) \<and> (\<exists>res code. execute (wa_target a) = (res, code, None))))))"
proof (cases e)
  case (Envelope env)
  show ?thesis
  proof (cases "past_deadline (wa_now a) env \<or> env_execution_mode env \<noteq> ''CLOUD'' \<or> \<not> post_ok (wa_claim a)")
    case True
    then show ?thesis
      by (auto simp: Envelope process_def reportFailure_def failure_report_def Let_def)
  next
    case False
    obtain res code err where ex: "execute (wa_target a) = (res, code, err)" by (metis prod.collapse)
    have quiet: "CallComplete i x \<notin> set (fst (explain cfg ai env' r f))"
      "CallFail i y \<notin> set (fst (explain cfg ai env' r f))" for i x y ai env' r f
      using explain_quiet [of "CallComplete i x"] explain_quiet [of "CallFail i y"] by auto
    show ?thesis
    proof (cases err)
      case None
      then have "json_valid res" using ex execute_valid by simp
      with False None ex quiet show ?thesis
        by (auto simp: Envelope process_def run_claimed_def Let_def split_def emit_def)
    next
      case (Some msg)
      with False ex quiet show ?thesis
        by (auto simp: Envelope process_def run_claimed_def Let_def split_def emit_def
            reportFailure_def failure_report_def)
    qed
  qed
qed (simp_all add: process_def Let_def)

definition sample_worker :: worker_cfg where
  "sample_worker = \<lparr>wc_id = ''w'', wc_openrouter_key = '''', wc_primary_model = ''a'',
     wc_fallback_model = ''b''\<rparr>"

definition sample_answers :: "target_reply \<Rightarrow> worker_answers" where
  "sample_answers t = \<lparr>wa_now = 9, wa_claim = HttpResponse 200 [], wa_target = t, wa_ticks = 2,
     wa_ai = (\<lambda>m. AiTransport), wa_complete = HttpResponse 204 []\<rparr>"

definition sample_cloud :: QueueEnvelope where
  "sample_cloud = (scan_envelope (sample_op Queued 0 None))\<lparr>env_execution_mode := ''CLOUD''\<rparr>"

theorem worker_runs_under_claim_witness:
  "length (filter is_target (process sample_worker (sample_answers (TargetReply 200 ''{}''))
     (StreamId 1 0, Envelope sample_cloud))) = 1"
proof -
  have "\<not> past_deadline (wa_now (sample_answers t)) sample_cloud \<and>
      env_execution_mode sample_cloud = ''CLOUD'' \<and> post_ok (wa_claim (sample_answers t))" for t
    by (simp add: past_deadline_def sample_cloud_def sample_answers_def scan_envelope_def sample_op_def
        post_ok_def is_2xx_def)
  with worker_runs_under_claim [of sample_worker "sample_answers (TargetReply 200 ''{}'')" "StreamId 1 0"
      "Envelope sample_cloud"]
  show ?thesis by (simp add: Let_def)
qed

end
