(* ===== verification/Agent.thy ===== *)
theory Agent
  imports Worker
begin

text \<open>
  \<open>cmd/enterprise-worker/main.go\<close>: the agent a customer runs in its own network. It polls the
  gateway with its API key, calls the target, and reports to the public routes; it opens no
  port and acknowledges nothing, the claim of the poll being its acknowledgement.
\<close>

record agent_cfg =
  ag_api_url :: string
  ag_api_key :: string
  ag_target_override :: string
  ag_openrouter_key :: string
  ag_primary_model :: string
  ag_fallback_model :: string
  ag_id :: string

record agent_answers =
  aa_target :: target_reply
  aa_ticks :: nat
  aa_ai :: "string \<Rightarrow> ai_reply"

text \<open>\<open>call\<close>: the request the agent sends to the gateway; its headers carry the key.\<close>

datatype agent_input =
  PollInput string
| HeartbeatInput string
| CompleteBody completeInput
| FailBody failInput

datatype agent_call =
  ApiCall string string header agent_input
| AgentTarget string header string
| AgentAI string string

definition agent_headers :: "agent_cfg \<Rightarrow> header" where
  "agent_headers cfg = hdr_set (hdr_set [] ''X-API-Key'' (ag_api_key cfg)) ''Content-Type'' ''application/json''"

definition api_call :: "agent_cfg \<Rightarrow> string \<Rightarrow> string \<Rightarrow> agent_input \<Rightarrow> agent_call" where
  "api_call cfg method path inp = ApiCall method (ag_api_url cfg @ path) (agent_headers cfg) inp"

text \<open>
  What the call returns: the status and, for a poll answered with a body, the envelope. The
  error is a transport failure, a status that is not 2xx, or a body that does not decode.
\<close>

datatype poll_reply = PollTransport string | PollReply int "QueueEnvelope option"

definition poll_result :: "poll_reply \<Rightarrow> int \<times> QueueEnvelope option \<times> bool" where
  "poll_result r = (case r of
      PollTransport e \<Rightarrow> (0, None, True)
    | PollReply code body \<Rightarrow>
        if \<not> is_2xx code then (code, None, True)
        else if code = 204 then (code, None, False)
        else (case body of None \<Rightarrow> (code, None, True) | Some env \<Rightarrow> (code, Some env, False)))"

section \<open>Executing and explaining\<close>

definition agent_execute :: "target_reply \<Rightarrow> string \<times> int \<times> string option" where
  "agent_execute reply = (case reply of
      TargetError e \<Rightarrow> ([], 0, Some e)
    | TargetReadError code e \<Rightarrow>
        ([], code, if is_2xx code then None else Some (''target returned HTTP '' @ itoa code @ '': ''))
    | TargetReply code full \<Rightarrow>
        (let body = take body_limit full
         in (body, code, if is_2xx code then None
               else Some (''target returned HTTP '' @ itoa code @ '': '' @ body))))"

definition agent_errorCode :: "int \<Rightarrow> string" where
  "agent_errorCode code =
     (if code = 0 then ''NETWORK_ERROR''
      else if code = 408 then ''TARGET_TIMEOUT''
      else if code = 429 then ''TARGET_RATE_LIMITED''
      else if code \<ge> 500 then ''TARGET_SERVER_ERROR''
      else ''TARGET_REJECTED'')"

definition agent_prompt :: "QueueEnvelope \<Rightarrow> string \<Rightarrow> string \<Rightarrow> string" where
  "agent_prompt env res failure =
     ''Explain this private job outcome concisely without inventing facts. Task: '' @ env_task_type env @
     [CHR 0x0A] @ ''Result: '' @ truncate_text res 2500 @ [CHR 0x0A] @ ''Error: '' @ truncate_text failure 2500"

text \<open>The agent takes the first choice of a decoded 2xx answer, whatever its content.\<close>

definition agent_answer :: "ai_reply \<Rightarrow> string option" where
  "agent_answer reply = (case reply of
      AiChoices code (content # _) \<Rightarrow> if is_2xx code then Some content else None
    | _ \<Rightarrow> None)"

fun agent_models :: "(string \<Rightarrow> ai_reply) \<Rightarrow> string \<Rightarrow> string list \<Rightarrow> agent_call list \<times> string" where
  "agent_models ai prompt [] =
     ([], ''AI explanation was unavailable; inspect the private worker error details.'')"
| "agent_models ai prompt (m # ms) =
     (case agent_answer (ai m) of
        Some answer \<Rightarrow> ([AgentAI m prompt], answer)
      | None \<Rightarrow> (let (cs, text) = agent_models ai prompt ms in (AgentAI m prompt # cs, text)))"

definition agent_explain ::
    "agent_cfg \<Rightarrow> (string \<Rightarrow> ai_reply) \<Rightarrow> QueueEnvelope \<Rightarrow> string \<Rightarrow> string \<Rightarrow> agent_call list \<times> string" where
  "agent_explain cfg ai env res failure =
     (if ag_openrouter_key cfg = ''''
      then ([], if failure \<noteq> ''''
                then ''The private worker could not complete the operation. Check the target service, network path, and error details.''
                else ''The private worker completed the operation successfully.'')
      else agent_models ai (agent_prompt env res failure) [ag_primary_model cfg, ag_fallback_model cfg])"

section \<open>One operation\<close>

text \<open>\<open>heartbeat\<close>, at each tick of 15 seconds while the target runs.\<close>

definition agent_heartbeats :: "agent_cfg \<Rightarrow> string \<Rightarrow> nat \<Rightarrow> agent_call list" where
  "agent_heartbeats cfg i ticks = replicate ticks (api_call cfg ''POST''
     (''/v1/worker/operations/'' @ i @ ''/heartbeat'') (HeartbeatInput (ag_id cfg)))"

definition agent_target :: "agent_cfg \<Rightarrow> QueueEnvelope \<Rightarrow> string" where
  "agent_target cfg env = (if ag_target_override cfg \<noteq> '''' then ag_target_override cfg else env_target_url env)"

definition agent_target_headers :: "QueueEnvelope \<Rightarrow> header" where
  "agent_target_headers env = hdr_set (hdr_set (hdr_set [] ''Content-Type'' ''application/json'')
     ''Idempotency-Key'' (env_operation_id env)) ''X-Nexora-Operation-ID'' (env_operation_id env)"

definition agent_process :: "agent_cfg \<Rightarrow> agent_answers \<Rightarrow> QueueEnvelope \<Rightarrow> agent_call list" where
  "agent_process cfg a env =
     (let (res, code, err) = agent_execute (aa_target a);
          target = AgentTarget (agent_target cfg env) (agent_target_headers env) (env_payload env);
          beats = agent_heartbeats cfg (env_operation_id env) (aa_ticks a)
      in case err of
           None \<Rightarrow>
             (let res = (if json_valid res then res else json_object [(''body'', json_quote res)]);
                  (ai, expl) = agent_explain cfg (aa_ai a) env res ''''
              in target # beats @ ai @ [api_call cfg ''POST''
                   (''/v1/worker/operations/'' @ env_operation_id env @ ''/complete'')
                   (CompleteBody \<lparr>co_worker_id = ag_id cfg, co_result = res, co_ai_explanation = expl\<rparr>)])
         | Some msg \<Rightarrow>
             (let (ai, expl) = agent_explain cfg (aa_ai a) env res msg
              in target # beats @ ai @ [api_call cfg ''POST''
                   (''/v1/worker/operations/'' @ env_operation_id env @ ''/fail'')
                   (FailBody \<lparr>fi_worker_id = ag_id cfg, fi_error_code = agent_errorCode code,
                     fi_error_message = msg, fi_ai_explanation = expl,
                     fi_retryable = retryable_status code\<rparr>)]))"

text \<open>
  \<open>run\<close>: one turn of the loop, given what the poll answers and what the target and the
  provider answer. The flag says that the agent sleeps two seconds before the next turn.
\<close>

definition agent_turn :: "agent_cfg \<Rightarrow> poll_reply \<Rightarrow> agent_answers \<Rightarrow> agent_call list \<times> bool" where
  "agent_turn cfg reply a =
     (let poll = api_call cfg ''POST'' ''/v1/worker/poll'' (PollInput (ag_id cfg));
          (code, env, failed) = poll_result reply
      in if failed then ([poll], True)
         else if code = 204 then ([poll], False)
         else (case env of None \<Rightarrow> ([poll], False) | Some e \<Rightarrow> (poll # agent_process cfg a e, False)))"

section \<open>What the agent guarantees\<close>

lemma agent_models_calls: "c \<in> set (fst (agent_models ai p ms)) \<Longrightarrow> \<exists>m. c = AgentAI m p"
  by (induction ms) (auto split: option.splits simp: Let_def split_def)

lemma agent_explain_calls: "c \<in> set (fst (agent_explain cfg ai env res failure)) \<Longrightarrow> \<exists>m p. c = AgentAI m p"
  unfolding agent_explain_def
  by (auto simp del: agent_models.simps split: if_splits dest: agent_models_calls)

fun agent_is_target :: "agent_call \<Rightarrow> bool" where
  "agent_is_target (AgentTarget u h p) = True" | "agent_is_target _ = False"

fun agent_is_api :: "agent_call \<Rightarrow> bool" where
  "agent_is_api (ApiCall m u h i) = True" | "agent_is_api _ = False"

fun agent_is_report :: "agent_call \<Rightarrow> bool" where
  "agent_is_report (ApiCall m u h (CompleteBody x)) = True"
| "agent_is_report (ApiCall m u h (FailBody x)) = True"
| "agent_is_report _ = False"

lemma agent_explain_filter [simp]:
  "filter agent_is_target (fst (agent_explain cfg ai env res failure)) = []"
  "filter agent_is_report (fst (agent_explain cfg ai env res failure)) = []"
  by (auto simp: filter_empty_conv dest!: agent_explain_calls)

lemma agent_heartbeats_filter [simp]:
  "filter agent_is_target (agent_heartbeats cfg i n) = []"
  "filter agent_is_report (agent_heartbeats cfg i n) = []"
  by (simp_all add: agent_heartbeats_def api_call_def filter_replicate)

lemma agent_process_headers:
  "c \<in> set (agent_process cfg a env) \<Longrightarrow> agent_is_api c \<Longrightarrow> \<exists>m u i. c = ApiCall m u (agent_headers cfg) i"
  by (auto simp: agent_process_def agent_heartbeats_def api_call_def Let_def split_def
      split: option.splits dest!: agent_explain_calls)

text \<open>The one report of a processed operation.\<close>

definition agent_report :: "agent_cfg \<Rightarrow> QueueEnvelope \<Rightarrow> agent_call \<Rightarrow> bool" where
  "agent_report cfg env c \<longleftrightarrow> (\<exists>x. c = api_call cfg ''POST''
       (''/v1/worker/operations/'' @ env_operation_id env @ ''/complete'') (CompleteBody x) \<and>
       co_worker_id x = ag_id cfg \<and> json_valid (co_result x)) \<or>
     (\<exists>x. c = api_call cfg ''POST''
       (''/v1/worker/operations/'' @ env_operation_id env @ ''/fail'') (FailBody x) \<and>
       fi_worker_id x = ag_id cfg \<and>
       (fi_retryable x \<longleftrightarrow> fi_error_code x \<noteq> ''TARGET_REJECTED''))"

lemma agent_process_report:
  "\<exists>c. filter agent_is_report (agent_process cfg a env) = [c] \<and> last (agent_process cfg a env) = c \<and>
     agent_report cfg env c \<and> length (filter agent_is_target (agent_process cfg a env)) = 1"
proof -
  obtain res code err where ex: "agent_execute (aa_target a) = (res, code, err)" by (metis prod.collapse)
  show ?thesis
  proof (cases err)
    case None
    have "json_valid (json_object [(''body'', json_quote res)])" by (rule json_valid_object) auto
    with ex None show ?thesis
      by (auto simp: agent_process_def Let_def split_def api_call_def agent_report_def)
  next
    case (Some msg)
    with ex show ?thesis
      by (auto simp: agent_process_def Let_def split_def api_call_def agent_report_def
          agent_errorCode_def retryable_status_def)
  qed
qed

text \<open>
  The agent reports every operation it is given exactly once: whatever the poll, the
  target and the AI provider answer, a turn polls once; it calls a target only for an
  envelope the gateway returned, once, and then sends exactly one report, last, for that
  operation and under its own identifier: a completion with valid JSON, or a failure that is
  retryable exactly when its code is not \<open>TARGET_REJECTED\<close>. Every request carries its key.
\<close>
lemma agent_reports_once:
  "let cs = fst (agent_turn cfg reply a); given = fst (snd (poll_result reply))
   in hd cs = api_call cfg ''POST'' ''/v1/worker/poll'' (PollInput (ag_id cfg)) \<and>
      (\<forall>c\<in>set cs. \<not> agent_is_api c \<or> (\<exists>m u i. c = ApiCall m u (agent_headers cfg) i)) \<and>
      (case given of
         None \<Rightarrow> length cs = 1
       | Some env \<Rightarrow> length (filter agent_is_target cs) = 1 \<and>
           length (filter agent_is_report cs) = 1 \<and> agent_report cfg env (last cs))"
proof -
  obtain code env failed where p: "poll_result reply = (code, env, failed)" by (metis prod.collapse)
  show ?thesis
  proof (cases env)
    case None
    with p show ?thesis by (auto simp: agent_turn_def Let_def api_call_def)
  next
    case (Some e)
    then have ok: "\<not> failed" "code \<noteq> 204"
      using p by (auto simp: poll_result_def split: poll_reply.splits if_splits option.splits)
    obtain c where c: "filter agent_is_report (agent_process cfg a e) = [c]" "last (agent_process cfg a e) = c"
      "agent_report cfg e c" "length (filter agent_is_target (agent_process cfg a e)) = 1"
      using agent_process_report by blast
    have ne: "agent_process cfg a e \<noteq> []" using c(1) by auto
    show ?thesis
      using p Some ok c ne agent_process_headers by (auto simp: agent_turn_def Let_def api_call_def)
  qed
qed

text \<open>
  The two kinds of worker classify a target's answer alike, and the code tells what is
  retried: a status is retryable exactly when its code is not \<open>TARGET_REJECTED\<close>.
\<close>
lemma error_codes_agree:
  "errorCode code = agent_errorCode code \<and> (retryable_status code \<longleftrightarrow> errorCode code \<noteq> ''TARGET_REJECTED'')"
  by (simp add: errorCode_def agent_errorCode_def retryable_status_def)

definition sample_agent :: agent_cfg where
  "sample_agent = \<lparr>ag_api_url = ''http://g'', ag_api_key = ''nx'', ag_target_override = '''',
     ag_openrouter_key = '''', ag_primary_model = ''a'', ag_fallback_model = ''b'', ag_id = ''w''\<rparr>"

definition sample_agent_answers :: agent_answers where
  "sample_agent_answers = \<lparr>aa_target = TargetReply 500 ''down'', aa_ticks = 1, aa_ai = (\<lambda>m. AiTransport)\<rparr>"

lemma agent_reports_once_witness:
  "agent_report sample_agent sample_cloud
     (last (fst (agent_turn sample_agent (PollReply 200 (Some sample_cloud)) sample_agent_answers)))"
proof -
  have "fst (snd (poll_result (PollReply 200 (Some sample_cloud)))) = Some sample_cloud"
    by (simp add: poll_result_def is_2xx_def)
  with agent_reports_once [of sample_agent "PollReply 200 (Some sample_cloud)" sample_agent_answers]
  show ?thesis by (simp add: Let_def)
qed

end
