(* ===== verification/Gateway.thy ===== *)
theory Gateway
  imports Platform Worker
begin

text \<open>
  \<open>cmd/gateway/main.go\<close>: the one public entry. It authenticates each request at the Access
  service, replaces the identity headers, limits the rate per tenant with a counter in
  Redis, and forwards to the three services; an assistant answers from the caller's
  operations. The model keeps the Redis counters as its state and lists the calls issued.
\<close>

section \<open>State, calls and replies\<close>

text \<open>A counter of Redis: its value and the instant it expires.\<close>

type_synonym counters = "string \<Rightarrow> (int \<times> int) option"

datatype service = AccessService | OperationsService | UsageService

datatype gw_call =
  CallVerify header
| RedisIncr string int
| RespHeader string string
| Forward service string header
| LoadOperations header
| AskModel string string

datatype gw_body =
  Proxied header string
| BadGateway Problem
| Answer string string
| ReadyBody "(string \<times> string) list"

type_synonym gw_handler = "(counters, gw_call, gw_body) handler"

definition prepend_calls :: "'e list \<Rightarrow> 's \<times> 'e list \<times> 'b reply \<Rightarrow> 's \<times> 'e list \<times> 'b reply" where
  "prepend_calls cs res = (case res of (s, cs', r) \<Rightarrow> (s, cs @ cs', r))"

section \<open>Authentication\<close>

text \<open>
  What the Access service answers: nothing, or a status and the decoded principal (\<open>None\<close>
  when the body does not decode).
\<close>

datatype auth_reply = AuthTransport | AuthReply int "Principal option"

definition verify_request :: "string \<Rightarrow> header \<Rightarrow> header" where
  "verify_request secret h = hdr_set (hdr_set (hdr_set [] ''X-Internal-Secret'' secret)
     ''Authorization'' (hdr_get h ''Authorization'')) ''X-API-Key'' (hdr_get h ''X-API-Key'')"

definition identify :: "Principal \<Rightarrow> header \<Rightarrow> header" where
  "identify p h =
     (let h = hdr_del h TenantHeader; h = hdr_del h UserHeader; h = hdr_del h RoleHeader;
          h = hdr_set h TenantHeader (pr_tenant_id p); h = hdr_set h UserHeader (pr_user_id p)
      in hdr_set h RoleHeader (pr_role p))"

definition authenticate :: "string \<Rightarrow> (header \<Rightarrow> auth_reply) \<Rightarrow> gw_handler \<Rightarrow> gw_handler" where
  "authenticate secret access next h s =
     (let req = verify_request secret h in
      prepend_calls [CallVerify req]
        (case access req of
           AuthTransport \<Rightarrow> (s, [], HTTPError 503 ''authentication service unavailable'')
         | AuthReply code body \<Rightarrow>
             if code \<noteq> 200 then (s, [], HTTPError 401 ''invalid credentials'')
             else (case body of None \<Rightarrow> (s, [], PlainError)
                   | Some p \<Rightarrow> next (identify p h) s)))"

section \<open>Rate limiting\<close>

definition rate_window :: "int \<Rightarrow> int" where
  "rate_window n = n div second div 60"

definition rate_key :: "string \<Rightarrow> int \<Rightarrow> string" where
  "rate_key t w = ''rate:'' @ t @ '':'' @ itoa w"

text \<open>The script: increment the live counter, or start one that expires after \<open>ttl\<close> seconds.\<close>

definition incr_script :: "string \<Rightarrow> int \<Rightarrow> int \<Rightarrow> counters \<Rightarrow> counters \<times> int" where
  "incr_script key ttl n s =
     (case s key of
        Some (c, e) \<Rightarrow> if n < e then (s(key \<mapsto> (c + 1, e)), c + 1)
                      else (s(key \<mapsto> (1, n + ttl * second)), 1)
      | None \<Rightarrow> (s(key \<mapsto> (1, n + ttl * second)), 1))"

definition rate_cap :: "header \<Rightarrow> int" where
  "rate_cap h = (if hdr_get h RoleHeader = ''admin'' then 600 else 120)"

definition rateLimit :: "int \<Rightarrow> bool \<Rightarrow> gw_handler \<Rightarrow> gw_handler" where
  "rateLimit n redis_fails next h s =
     (let key = rate_key (hdr_get h TenantHeader) (rate_window n) in
      if redis_fails then (s, [], HTTPError 503 ''rate limiter unavailable'')
      else let (s', count) = incr_script key 70 n s; limit = rate_cap h;
               hdrs = [RedisIncr key 70, RespHeader ''X-RateLimit-Limit'' (itoa limit),
                       RespHeader ''X-RateLimit-Remaining'' (itoa (max (limit - count) 0))]
           in if count > limit
              then (s', hdrs @ [RespHeader ''Retry-After'' ''60''], HTTPError 429 ''tenant request rate exceeded'')
              else prepend_calls hdrs (next h s'))"

definition requireAdmin :: "gw_handler \<Rightarrow> gw_handler" where
  "requireAdmin next h s =
     (if hdr_get h RoleHeader \<noteq> ''admin'' then (s, [], HTTPError 403 ''admin role required'')
      else next h s)"

section \<open>Forwarding\<close>

text \<open>\<open>url.PathEscape\<close>: the bytes that may stand in a path segment stay.\<close>

definition path_char :: "char \<Rightarrow> bool" where
  "path_char c = (let n = of_char c :: nat in
     48 \<le> n \<and> n \<le> 57 \<or> 65 \<le> n \<and> n \<le> 90 \<or> 97 \<le> n \<and> n \<le> 122 \<or>
     c \<in> {CHR ''-'', CHR ''_'', CHR ''.'', CHR ''~'', CHR ''$'', CHR ''&'', CHR ''+'', CHR ''='', CHR '':'', CHR ''@''})"

definition upper_hex :: "nat \<Rightarrow> char" where
  "upper_hex n = (if n < 10 then char_of (48 + n) else char_of (55 + n))"

definition path_escape :: "string \<Rightarrow> string" where
  "path_escape s = concat (map (\<lambda>c. if path_char c then [c]
     else [CHR ''%'', upper_hex (of_char c div 16), upper_hex (of_char c mod 16)]) s)"

text \<open>\<open>strings.ReplaceAll\<close> for a pattern that is not empty.\<close>

fun replace_all :: "string \<Rightarrow> string \<Rightarrow> string \<Rightarrow> string" where
  "replace_all pat new [] = []"
| "replace_all pat new (c # cs) =
     (if pat \<noteq> [] \<and> take (length pat) (c # cs) = pat
      then new @ replace_all pat new (drop (length pat - 1) cs)
      else c # replace_all pat new cs)"

definition param_path :: "string \<Rightarrow> (string \<times> string) list \<Rightarrow> string" where
  "param_path path params =
     fold (\<lambda>(name, value) p. replace_all (CHR '':'' # name) (path_escape value) p) params path"

text \<open>What the upstream service answers, if it can be reached.\<close>

datatype up_reply = UpError | UpResponse int header string

definition stripUpstreamCORSHeaders :: "header \<Rightarrow> header" where
  "stripUpstreamCORSHeaders hs = fold (\<lambda>(k, _) acc.
     if has_prefix (to_lower k) ''access-control-'' then hdr_del acc k else acc) hs hs"

text \<open>
  \<open>httputil.ReverseProxy\<close> drops the hop-by-hop headers before it sends: the standard ones and
  each one a \<open>Connection\<close> value of the client names. What it adds itself
  (\<open>X-Forwarded-For\<close>, \<open>User-Agent\<close>) plays no part below.
\<close>

fun split_on :: "char \<Rightarrow> string \<Rightarrow> string list" where
  "split_on c [] = [[]]"
| "split_on c (x # xs) =
     (if x = c then [] # split_on c xs
      else case split_on c xs of [] \<Rightarrow> [[x]] | y # ys \<Rightarrow> (x # y) # ys)"

definition connection_named :: "header \<Rightarrow> string list" where
  "connection_named h = (case map_of h ''Connection'' of None \<Rightarrow> []
     | Some vs \<Rightarrow> filter (\<lambda>k. k \<noteq> '''') (map trim_space (concat (map (split_on (CHR '','')) vs))))"

definition hop_headers :: "string list" where
  "hop_headers = [''Connection'', ''Proxy-Connection'', ''Keep-Alive'', ''Proxy-Authenticate'',
     ''Proxy-Authorization'', ''Te'', ''Trailer'', ''Transfer-Encoding'', ''Upgrade'']"

definition remove_hop_headers :: "header \<Rightarrow> header" where
  "remove_hop_headers h = fold (\<lambda>k acc. hdr_del acc k) (connection_named h @ hop_headers) h"

lemma hdr_get_fold_del:
  "hdr_get (fold (\<lambda>k acc. hdr_del acc k) ks h) k' =
     (if \<exists>k\<in>set ks. canonical_key k' = canonical_key k then '''' else hdr_get h k')"
  by (induction ks arbitrary: h) (auto simp: hdr_get_del)

lemma hdr_get_remove_hop: "hdr_get (remove_hop_headers h) k \<in> {hdr_get h k, ''''}"
  by (simp add: remove_hop_headers_def hdr_get_fold_del)

definition proxyPath ::
    "(service \<Rightarrow> string \<Rightarrow> header \<Rightarrow> up_reply) \<Rightarrow> string \<Rightarrow> service \<Rightarrow> string \<Rightarrow> gw_handler" where
  "proxyPath up rid svc path h s =
     (let h' = remove_hop_headers (hdr_set h ''X-Request-ID'' rid) in
      (s, [Forward svc path h'],
       case up svc path h' of
         UpError \<Rightarrow> JSON 502 (BadGateway \<lparr>pb_type = ''about:blank'', pb_title = ''Bad Gateway'',
           pb_status = 502, pb_detail = ''upstream service unavailable'', pb_instance = path,
           pb_request_id = rid\<rparr>)
       | UpResponse code hs body \<Rightarrow> JSON code (Proxied (stripUpstreamCORSHeaders hs) body)))"

section \<open>The assistant\<close>

record gw_cfg =
  gw_internal_secret :: string
  gw_openrouter_key :: string
  gw_primary_model :: string
  gw_fallback_model :: string

definition assistant_prompt :: "string \<Rightarrow> string \<Rightarrow> string" where
  "assistant_prompt question context =
     ''Answer the tenant's operations question using only the JSON context. Be concise, mention operation IDs when useful, and say when evidence is insufficient.'' @
     [CHR 0x0A] @ ''Question: '' @ question @ [CHR 0x0A] @ ''Context: '' @ context"

fun ask_assistants :: "(string \<Rightarrow> ai_reply) \<Rightarrow> string \<Rightarrow> string list \<Rightarrow> gw_call list \<times> gw_body reply" where
  "ask_assistants ai prompt [] = ([], HTTPError 502 ''AI providers were unavailable'')"
| "ask_assistants ai prompt (m # ms) =
     (case callOpenRouter (ai m) of
        Some answer \<Rightarrow> ([AskModel m prompt], JSON 200 (Answer answer m))
      | None \<Rightarrow> (let (cs, r) = ask_assistants ai prompt ms in (AskModel m prompt # cs, r)))"

definition operations_request :: "header \<Rightarrow> header" where
  "operations_request h = hdr_set (hdr_set [] TenantHeader (hdr_get h TenantHeader))
     RoleHeader (hdr_get h RoleHeader)"

definition assistant ::
    "gw_cfg \<Rightarrow> (header \<Rightarrow> http_result) \<Rightarrow> (string \<Rightarrow> ai_reply) \<Rightarrow> string option \<Rightarrow> gw_handler" where
  "assistant cfg ops ai bound h s =
     (if gw_openrouter_key cfg = '''' then (s, [], HTTPError 503 ''OPENROUTER_API_KEY is not configured'')
      else case bound of None \<Rightarrow> (s, [], HTTPError 400 ''question is required'')
      | Some question \<Rightarrow>
         if trim_space question = '''' then (s, [], HTTPError 400 ''question is required'')
         else if length question > 2000 then (s, [], HTTPError 400 ''question is too long'')
         else let req = operations_request h in
           prepend_calls [LoadOperations req]
             (case ops req of
                HttpError e \<Rightarrow> (s, [], HTTPError 503 ''operations service unavailable'')
              | HttpResponse code full \<Rightarrow>
                  if code \<noteq> 200 then (s, [], HTTPError 502 ''could not load operation context'')
                  else let (cs, r) = ask_assistants ai (assistant_prompt question (take 262144 full))
                             [gw_primary_model cfg, gw_fallback_model cfg]
                       in (s, cs, r)))"

section \<open>Routes\<close>

datatype route = RouteProxy service string | RouteParam service string
  | RouteAdmin service string | RouteAssistant

text \<open>The routes of the group \<open>/v1\<close>, all behind \<open>authenticate\<close> and \<open>rateLimit\<close>.\<close>

definition v1_routes :: "(string \<times> string \<times> route) list" where
  "v1_routes = [
     (''GET'', ''/v1/tenant'', RouteProxy AccessService ''/tenant''),
     (''POST'', ''/v1/api-keys'', RouteProxy AccessService ''/api-keys''),
     (''POST'', ''/v1/operations'', RouteProxy OperationsService ''/operations''),
     (''GET'', ''/v1/operations'', RouteProxy OperationsService ''/operations''),
     (''GET'', ''/v1/operations/:id'', RouteParam OperationsService ''/operations/:id''),
     (''DELETE'', ''/v1/operations/:id'', RouteParam OperationsService ''/operations/:id''),
     (''POST'', ''/v1/operations/:id/redrive'', RouteParam OperationsService ''/operations/:id/redrive''),
     (''GET'', ''/v1/usage'', RouteProxy UsageService ''/usage''),
     (''GET'', ''/v1/events'', RouteProxy UsageService ''/events''),
     (''GET'', ''/v1/webhooks'', RouteProxy UsageService ''/webhooks''),
     (''POST'', ''/v1/webhooks'', RouteProxy UsageService ''/webhooks''),
     (''DELETE'', ''/v1/webhooks/:id'', RouteParam UsageService ''/webhooks/:id''),
     (''POST'', ''/v1/worker/poll'', RouteProxy OperationsService ''/worker/poll''),
     (''POST'', ''/v1/worker/operations/:id/heartbeat'', RouteParam OperationsService ''/worker/operations/:id/heartbeat''),
     (''POST'', ''/v1/worker/operations/:id/complete'', RouteParam OperationsService ''/worker/operations/:id/complete''),
     (''POST'', ''/v1/worker/operations/:id/fail'', RouteParam OperationsService ''/worker/operations/:id/fail''),
     (''POST'', ''/v1/assistant'', RouteAssistant),
     (''GET'', ''/v1/admin/tenants'', RouteAdmin AccessService ''/admin/tenants''),
     (''POST'', ''/v1/admin/tenants'', RouteAdmin AccessService ''/admin/tenants''),
     (''GET'', ''/v1/admin/operations'', RouteAdmin OperationsService ''/operations''),
     (''GET'', ''/v1/admin/usage'', RouteAdmin UsageService ''/admin/usage'')]"

text \<open>What the environment answers one request with.\<close>

record gw_env =
  ge_now :: int
  ge_request_id :: string
  ge_access :: "header \<Rightarrow> auth_reply"
  ge_redis_fails :: bool
  ge_upstream :: "service \<Rightarrow> string \<Rightarrow> header \<Rightarrow> up_reply"
  ge_operations :: "header \<Rightarrow> http_result"
  ge_ai :: "string \<Rightarrow> ai_reply"
  ge_question :: "string option"

fun route_handler :: "gw_cfg \<Rightarrow> gw_env \<Rightarrow> (string \<times> string) list \<Rightarrow> route \<Rightarrow> gw_handler" where
  "route_handler cfg env params (RouteProxy svc path) =
     proxyPath (ge_upstream env) (ge_request_id env) svc path"
| "route_handler cfg env params (RouteParam svc path) =
     proxyPath (ge_upstream env) (ge_request_id env) svc (param_path path params)"
| "route_handler cfg env params (RouteAdmin svc path) =
     requireAdmin (proxyPath (ge_upstream env) (ge_request_id env) svc path)"
| "route_handler cfg env params RouteAssistant =
     assistant cfg (ge_operations env) (ge_ai env) (ge_question env)"

definition serve_v1 :: "gw_cfg \<Rightarrow> gw_env \<Rightarrow> (string \<times> string) list \<Rightarrow> route \<Rightarrow> gw_handler" where
  "serve_v1 cfg env params r =
     authenticate (gw_internal_secret cfg) (ge_access env)
       (rateLimit (ge_now env) (ge_redis_fails env) (route_handler cfg env params r))"

definition serve_login :: "gw_env \<Rightarrow> gw_handler" where
  "serve_login env = proxyPath (ge_upstream env) (ge_request_id env) AccessService ''/auth/login''"

section \<open>Readiness\<close>

text \<open>Each target is healthy when its health route answers 200.\<close>

definition ready :: "(string \<times> http_result) list \<Rightarrow> gw_handler" where
  "ready checks h s =
     (let stat = map (\<lambda>(name, r). (name, case r of
            HttpError _ \<Rightarrow> ''unavailable''
          | HttpResponse code _ \<Rightarrow> if code \<noteq> 200 then ''unavailable'' else ''ok'')) checks;
          healthy = (\<forall>x\<in>set stat. snd x = ''ok'')
      in (s, [], JSON (if healthy then 200 else 503) (ReadyBody stat)))"

end
