(* ===== verification/Webhooks.thy ===== *)
theory Webhooks
  imports Usage Platform
begin

text \<open>
  Webhook deliveries of \<open>cmd/usage/main.go\<close> under any number of dispatchers: attempts are
  bounded, a row is in the hands of at most one dispatcher, every post is signed for its
  endpoint, and the live streams are bounded and separated by tenant.
\<close>

section \<open>Steps of the dispatchers\<close>

lemma disjoint_images: "\<forall>y\<in>set h. f y \<notin> f ` set xs \<Longrightarrow> f ` set xs \<inter> f ` set h = {}"
proof -
  assume h: "\<forall>y\<in>set h. f y \<notin> f ` set xs"
  have "k \<notin> f ` set h" if "k \<in> f ` set xs" for k
  proof
    assume "k \<in> f ` set h"
    then obtain y where "y \<in> set h" "k = f y" by (rule imageE)
    with h that show False by simp
  qed
  then show ?thesis by (auto simp only: disjoint_iff)
qed

text \<open>The state adds the deliveries that dispatchers have picked and not yet finished.\<close>

record wh_state =
  wh_rows :: "webhook_row list"
  wh_hands :: "delivery list"

datatype wh_tag = WRecord | WPick | WDeliver string

inductive wh_step :: "wh_state \<Rightarrow> wh_tag \<Rightarrow> wh_state \<Rightarrow> bool" where
  wh_record: "record_tx n g ev f d = Some d' \<Longrightarrow> distinct (map wo_id (webhook_outbox d')) \<Longrightarrow>
    wh_step \<lparr>wh_rows = webhook_outbox d, wh_hands = h\<rparr> WRecord
      \<lparr>wh_rows = webhook_outbox d', wh_hands = h\<rparr>"
| wh_pick: "pick_batch n locked d = (d', xs) \<Longrightarrow>
    wh_step \<lparr>wh_rows = webhook_outbox d, wh_hands = h\<rparr> WPick
      \<lparr>wh_rows = webhook_outbox d', wh_hands = xs @ h\<rparr>"
| wh_deliver: "x \<in> set h \<Longrightarrow> deliver n mac resp u x d = (d', cs) \<Longrightarrow>
    wh_step \<lparr>wh_rows = webhook_outbox d, wh_hands = h\<rparr> (WDeliver (dl_id x))
      \<lparr>wh_rows = webhook_outbox d', wh_hands = remove1 x h\<rparr>"

fun attempts_ok :: "outbox_status \<Rightarrow> int \<Rightarrow> bool" where
  "attempts_ok ObPending a = (0 \<le> a \<and> a < 8)"
| "attempts_ok ObInFlight a = (0 \<le> a \<and> a < 8)"
| "attempts_ok ObDelivered a = (1 \<le> a \<and> a \<le> 8)"
| "attempts_ok ObDeadLettered a = (a = 8)"

definition in_hand :: "webhook_row list \<Rightarrow> delivery \<Rightarrow> bool" where
  "in_hand rows x = (\<exists>r\<in>set rows. wo_id r = dl_id x \<and> wo_status r = ObInFlight \<and> wo_attempt r = dl_attempt x)"

definition wh_inv :: "wh_state \<Rightarrow> bool" where
  "wh_inv s \<longleftrightarrow> distinct (map wo_id (wh_rows s)) \<and> distinct (map dl_id (wh_hands s)) \<and>
     (\<forall>r\<in>set (wh_rows s). attempts_ok (wo_status r) (wo_attempt r)) \<and>
     (\<forall>x\<in>set (wh_hands s). in_hand (wh_rows s) x)"

lemma record_tx_rows:
  assumes "record_tx n g ev f d = Some d'"
  shows "\<exists>new. webhook_outbox d' = webhook_outbox d @ new \<and>
    (\<forall>r\<in>set new. wo_status r = ObPending \<and> wo_attempt r = 0)"
  using assms
  by (auto simp: record_tx_def insert_ledger_def Let_def fan_out_def put_ledger_def new_webhook_def
      split: if_splits)

text \<open>What a pick takes: pending rows with their attempt, each once.\<close>

lemma delivery_of_id: "delivery_of eps r = Some x \<Longrightarrow> dl_id x = wo_id r \<and> dl_attempt x = wo_attempt r"
  by (auto simp: delivery_of_def split: option.splits)

lemma map_filter_ids:
  "distinct (map wo_id rs) \<Longrightarrow> distinct (map dl_id (List.map_filter (delivery_of eps) rs)) \<and>
     set (map dl_id (List.map_filter (delivery_of eps) rs)) \<subseteq> wo_id ` set rs"
proof (induction rs)
  case (Cons r rs)
  then have IH: "distinct (map dl_id (List.map_filter (delivery_of eps) rs))"
    "set (map dl_id (List.map_filter (delivery_of eps) rs)) \<subseteq> wo_id ` set rs"
    "wo_id r \<notin> wo_id ` set rs"
    by auto
  show ?case
  proof (cases "delivery_of eps r")
    case None
    with IH show ?thesis by (auto simp: List.map_filter_simps)
  next
    case (Some a)
    then have "dl_id a = wo_id r" by (auto dest: delivery_of_id)
    with IH have "dl_id a \<notin> set (map dl_id (List.map_filter (delivery_of eps) rs))" by auto
    with IH Some \<open>dl_id a = wo_id r\<close> show ?thesis by (auto simp: List.map_filter_simps)
  qed
qed (simp add: List.map_filter_simps)

lemma in_map_filter: "x \<in> set (List.map_filter f rs) \<longleftrightarrow> (\<exists>r\<in>set rs. f r = Some x)"
  by (force simp: List.map_filter_def)

lemma due_webhooks_props:
  "set (due_webhooks n locked rows) \<subseteq> {r \<in> set rows. wo_status r = ObPending}"
  "distinct (map wo_id rows) \<Longrightarrow> distinct (map wo_id (due_webhooks n locked rows))"
proof -
  show "set (due_webhooks n locked rows) \<subseteq> {r \<in> set rows. wo_status r = ObPending}"
    by (auto simp: due_webhooks_def dest!: in_set_takeD)
  assume "distinct (map wo_id rows)"
  then have "distinct (map wo_id (sort_key wo_created_at (filter (\<lambda>r. wo_status r = ObPending \<and>
      wo_next_attempt_at r \<le> n \<and> wo_id r \<notin> locked) rows)))"
    by (simp add: distinct_map inj_on_def)
  then show "distinct (map wo_id (due_webhooks n locked rows))"
    unfolding due_webhooks_def take_map [symmetric] by (rule distinct_take)
qed

lemma pick_batch_props:
  assumes "pick_batch n locked d = (d', xs)" "distinct (map wo_id (webhook_outbox d))"
  shows "webhook_outbox d' = update_where (\<lambda>r. wo_id r \<in> set (map dl_id xs))
      (\<lambda>r. r\<lparr>wo_status := ObInFlight\<rparr>) (webhook_outbox d) \<and> distinct (map dl_id xs) \<and>
    (\<forall>x\<in>set xs. \<exists>r\<in>set (webhook_outbox d). wo_status r = ObPending \<and>
       delivery_of (webhook_endpoints d) r = Some x)"
proof -
  have xs: "xs = List.map_filter (delivery_of (webhook_endpoints d)) (due_webhooks n locked (webhook_outbox d))"
    using assms(1) by (auto simp: pick_batch_def Let_def)
  have "\<forall>x\<in>set xs. \<exists>r\<in>set (webhook_outbox d). wo_status r = ObPending \<and>
      delivery_of (webhook_endpoints d) r = Some x"
  proof
    fix x assume "x \<in> set xs"
    then obtain r where "r \<in> set (due_webhooks n locked (webhook_outbox d))"
      "delivery_of (webhook_endpoints d) r = Some x"
      by (auto simp: xs in_map_filter)
    with due_webhooks_props(1) show "\<exists>r\<in>set (webhook_outbox d). wo_status r = ObPending \<and>
      delivery_of (webhook_endpoints d) r = Some x" by blast
  qed
  moreover have "distinct (map dl_id xs)"
    unfolding xs using map_filter_ids [OF due_webhooks_props(2) [OF assms(2)]] by blast
  ultimately show ?thesis using assms(1) by (auto simp: pick_batch_def Let_def)
qed

lemma picked_pending:
  assumes "pick_batch n locked d = (d', xs)" "distinct (map wo_id (webhook_outbox d))"
    and "r \<in> set (webhook_outbox d)" "wo_id r \<in> set (map dl_id xs)"
  shows "wo_status r = ObPending"
proof -
  from assms(4) obtain x where x: "x \<in> set xs" "dl_id x = wo_id r" by auto
  with pick_batch_props [OF assms(1,2)] obtain r' where r': "r' \<in> set (webhook_outbox d)"
    "wo_status r' = ObPending" "wo_id r' = wo_id r"
    by (metis delivery_of_id)
  with distinct_map_eq [OF assms(2)] assms(3) show ?thesis by metis
qed

lemma outcome_id [simp]: "wo_id (webhook_outcome n resp a r) = wo_id r"
  by (auto simp: webhook_outcome_def Let_def split: option.split)

lemma outcome_ok:
  "0 \<le> a \<Longrightarrow> a < 8 \<Longrightarrow> wo_attempt r = a \<Longrightarrow>
   attempts_ok (wo_status (webhook_outcome n resp a r)) (wo_attempt (webhook_outcome n resp a r))"
  by (auto simp: webhook_outcome_def max_webhook_attempts_def Let_def split: option.split)

lemma wh_inv_pick:
  assumes inv: "wh_inv \<lparr>wh_rows = webhook_outbox d, wh_hands = h\<rparr>"
    and pick: "pick_batch n locked d = (d', xs)"
  shows "wh_inv \<lparr>wh_rows = webhook_outbox d', wh_hands = xs @ h\<rparr>"
proof -
  let ?P = "\<lambda>r. wo_id r \<in> set (map dl_id xs)" and ?f = "\<lambda>r. r\<lparr>wo_status := ObInFlight\<rparr>"
  let ?rows = "webhook_outbox d"
  have dist: "distinct (map wo_id ?rows)" using inv by (simp add: wh_inv_def)
  note p = pick_batch_props [OF pick dist] and pend = picked_pending [OF pick dist]
  have rows: "webhook_outbox d' = update_where ?P ?f ?rows" using p by blast
  have ids: "map wo_id (webhook_outbox d') = map wo_id ?rows"
    unfolding rows by (rule map_update_where) simp
  have xs: "in_hand (webhook_outbox d') x" if x: "x \<in> set xs" for x
  proof -
    from p x obtain r where r: "r \<in> set ?rows" "delivery_of (webhook_endpoints d) r = Some x" by blast
    have "?P r" using x delivery_of_id [OF r(2)] by force
    with r(1) have "?f r \<in> set (webhook_outbox d')" unfolding rows by (force simp: in_update_where)
    with delivery_of_id [OF r(2)] show ?thesis
      unfolding in_hand_def by (intro bexI [of _ "?f r"]) simp_all
  qed
  have keep: "r \<in> set (webhook_outbox d') \<and> \<not> ?P r" if "r \<in> set ?rows" "wo_status r = ObInFlight" for r
    using that pend unfolding rows by (force simp: in_update_where)
  have hs: "in_hand (webhook_outbox d') y \<and> dl_id y \<notin> dl_id ` set xs" if y: "y \<in> set h" for y
  proof -
    from inv y obtain r where r: "r \<in> set ?rows" "wo_id r = dl_id y" "wo_status r = ObInFlight"
        "wo_attempt r = dl_attempt y"
      by (auto simp: wh_inv_def in_hand_def)
    from keep [OF r(1,3)] r show ?thesis unfolding in_hand_def by auto
  qed
  have "attempts_ok (wo_status r) (wo_attempt r)" if "r \<in> set (webhook_outbox d')" for r
  proof -
    from that obtain y where y: "y \<in> set ?rows" "r = (if ?P y then ?f y else y)"
      unfolding rows by (auto simp: in_update_where)
    have "attempts_ok (wo_status y) (wo_attempt y)" using inv y(1) by (simp add: wh_inv_def)
    with y pend [OF y(1)] show ?thesis by (cases "?P y") auto
  qed
  moreover have "distinct (map dl_id (xs @ h))"
  proof -
    have "\<forall>y\<in>set h. dl_id y \<notin> dl_id ` set xs" using hs by simp
    then have "dl_id ` set xs \<inter> dl_id ` set h = {}" by (rule disjoint_images)
    then show ?thesis using p inv by (simp add: wh_inv_def)
  qed
  ultimately show ?thesis using xs hs dist by (auto simp: wh_inv_def ids)
qed

lemma wh_inv_deliver:
  assumes inv: "wh_inv \<lparr>wh_rows = webhook_outbox d, wh_hands = h\<rparr>" and x: "x \<in> set h"
    and del: "deliver n mac resp u x d = (d', cs)"
  shows "wh_inv \<lparr>wh_rows = webhook_outbox d', wh_hands = remove1 x h\<rparr>"
proof -
  let ?P = "\<lambda>r. wo_id r = dl_id x \<and> wo_status r = ObInFlight"
  let ?f = "webhook_outcome n resp (dl_attempt x)" and ?rows = "webhook_outbox d"
  have dist: "distinct (map wo_id ?rows)" "distinct (map dl_id h)" using inv by (simp_all add: wh_inv_def)
  have "distinct h" using dist(2) by (simp add: distinct_map)
  then have set: "set (remove1 x h) = set h - {x}" by (rule set_remove1_eq)
  have rest: "y \<in> set h \<and> dl_id y \<noteq> dl_id x" if "y \<in> set (remove1 x h)" for y
  proof -
    have y: "y \<in> set h" "y \<noteq> x" using that unfolding set by simp_all
    with distinct_map_eq [OF dist(2) y(1) x] show ?thesis by blast
  qed
  have sub: "distinct (map dl_id (remove1 x h))"
    by (metis dist(2) distinct_map distinct_remove1 inj_on_subset set_remove1_subset)
  show ?thesis
  proof (cases u)
    case True
    then have "d' = d" using del by (auto simp: deliver_def)
    with inv sub show ?thesis by (simp add: wh_inv_def set)
  next
    case False
    then have rows: "webhook_outbox d' = update_where ?P ?f ?rows" using del by (auto simp: deliver_def)
    have ids: "map wo_id (webhook_outbox d') = map wo_id ?rows"
      unfolding rows by (rule map_update_where) simp
    have att: "wo_attempt r = dl_attempt x" if "r \<in> set ?rows" "?P r" for r
    proof -
      from inv x obtain r' where "r' \<in> set ?rows" "wo_id r' = dl_id x" "wo_attempt r' = dl_attempt x"
        by (auto simp: wh_inv_def in_hand_def)
      with distinct_map_eq [OF dist(1) this(1) that(1)] that show ?thesis by auto
    qed
    have "attempts_ok (wo_status (?f r)) (wo_attempt (?f r))" if "r \<in> set ?rows" "?P r" for r
    proof (rule outcome_ok [OF _ _ att [OF that]])
      have "attempts_ok ObInFlight (wo_attempt r)" using inv that unfolding wh_inv_def by force
      then show "0 \<le> dl_attempt x" "dl_attempt x < 8" using att [OF that] by simp_all
    qed
    then have ok: "\<forall>r\<in>set (webhook_outbox d'). attempts_ok (wo_status r) (wo_attempt r)"
      using inv unfolding rows wh_inv_def by (auto simp: in_update_where)
    have "in_hand (webhook_outbox d') y" if y: "y \<in> set (remove1 x h)" for y
    proof -
      from inv rest [OF y] obtain r where r: "r \<in> set ?rows" "wo_id r = dl_id y"
          "wo_status r = ObInFlight" "wo_attempt r = dl_attempt y"
        by (auto simp: wh_inv_def in_hand_def)
      then have "r \<in> set (webhook_outbox d')"
        using rest [OF y] unfolding rows by (force simp: in_update_where)
      with r show ?thesis unfolding in_hand_def by blast
    qed
    with ok sub dist(1) show ?thesis by (simp add: wh_inv_def ids)
  qed
qed

lemma wh_inv_step: "wh_step s t s' \<Longrightarrow> wh_inv s \<Longrightarrow> wh_inv s'"
proof (induction rule: wh_step.induct)
  case (wh_record n g ev f d d' h)
  from record_tx_rows [OF wh_record(1)] obtain new where
    "webhook_outbox d' = webhook_outbox d @ new" "\<forall>r\<in>set new. wo_status r = ObPending \<and> wo_attempt r = 0"
    by blast
  with wh_record(2,3) show ?case by (auto simp: wh_inv_def in_hand_def)
next
  case (wh_pick n locked d d' xs h)
  then show ?case by (intro wh_inv_pick)
next
  case (wh_deliver x h n mac resp u d d' cs)
  then show ?case by (intro wh_inv_deliver)
qed

interpretation webhooks: step_invariant wh_step wh_inv
  by unfold_locales (rule wh_inv_step)

text \<open>
  The posts counted against the row: each one raises the attempts of its row, except the
  last one of a dispatcher that stopped before it could write the result.
\<close>

definition posts_counted :: "(string \<Rightarrow> nat) \<Rightarrow> wh_state \<Rightarrow> bool" where
  "posts_counted c s \<longleftrightarrow> (\<forall>i. i \<notin> wo_id ` set (wh_rows s) \<longrightarrow> c i = 0) \<and>
     (\<forall>r\<in>set (wh_rows s). int (c (wo_id r)) \<le> wo_attempt r +
        (if wo_status r = ObInFlight \<and> wo_id r \<notin> dl_id ` set (wh_hands s) then 1 else 0))"

fun count_post :: "wh_tag \<Rightarrow> (string \<Rightarrow> nat) \<Rightarrow> string \<Rightarrow> nat" where
  "count_post (WDeliver i) c = c(i := Suc (c i))"
| "count_post _ c = c"

lemma posts_counted_record:
  assumes "record_tx n g ev f d = Some d'" "distinct (map wo_id (webhook_outbox d'))"
    and "posts_counted c \<lparr>wh_rows = webhook_outbox d, wh_hands = h\<rparr>"
  shows "posts_counted c \<lparr>wh_rows = webhook_outbox d', wh_hands = h\<rparr>"
proof -
  from record_tx_rows [OF assms(1)] obtain new where new: "webhook_outbox d' = webhook_outbox d @ new"
    "\<forall>r\<in>set new. wo_status r = ObPending \<and> wo_attempt r = 0" by blast
  have "c (wo_id r) = 0" if "r \<in> set new" for r
  proof -
    have "wo_id r \<notin> wo_id ` set (webhook_outbox d)" using assms(2) new(1) that by auto
    with assms(3) show ?thesis by (simp add: posts_counted_def)
  qed
  then have "int (c (wo_id r)) \<le> wo_attempt r +
      (if wo_status r = ObInFlight \<and> wo_id r \<notin> dl_id ` set h then 1 else 0)"
    if "r \<in> set (webhook_outbox d')" for r
    using that assms(3) new by (cases "r \<in> set new") (simp_all add: posts_counted_def)
  moreover have "c i = 0" if "i \<notin> wo_id ` set (webhook_outbox d')" for i
    using that assms(3) new(1) by (auto simp: posts_counted_def)
  ultimately show ?thesis by (simp add: posts_counted_def)
qed

lemma posts_counted_pick:
  assumes "pick_batch n locked d = (d', xs)" "wh_inv \<lparr>wh_rows = webhook_outbox d, wh_hands = h\<rparr>"
    and "posts_counted c \<lparr>wh_rows = webhook_outbox d, wh_hands = h\<rparr>"
  shows "posts_counted c \<lparr>wh_rows = webhook_outbox d', wh_hands = xs @ h\<rparr>"
proof -
  have dist: "distinct (map wo_id (webhook_outbox d))" using assms(2) by (simp add: wh_inv_def)
  let ?P = "\<lambda>r. wo_id r \<in> set (map dl_id xs)" and ?f = "\<lambda>r. r\<lparr>wo_status := ObInFlight\<rparr>"
  have rows: "webhook_outbox d' = update_where ?P ?f (webhook_outbox d)"
    using pick_batch_props [OF assms(1) dist] by blast
  have ids: "map wo_id (webhook_outbox d') = map wo_id (webhook_outbox d)"
    unfolding rows by (rule map_update_where) simp
  have "int (c (wo_id r)) \<le> wo_attempt r +
      (if wo_status r = ObInFlight \<and> wo_id r \<notin> dl_id ` set (xs @ h) then 1 else 0)"
    if r: "r \<in> set (webhook_outbox d')" for r
  proof -
    from r obtain y where y: "y \<in> set (webhook_outbox d)" "r = (if ?P y then ?f y else y)"
      unfolding rows by (auto simp: in_update_where)
    have le: "int (c (wo_id y)) \<le> wo_attempt y +
        (if wo_status y = ObInFlight \<and> wo_id y \<notin> dl_id ` set h then 1 else 0)"
      using assms(3) y(1) by (simp add: posts_counted_def)
    show ?thesis
    proof (cases "?P y")
      case True
      with picked_pending [OF assms(1) dist y(1)] le y(2) show ?thesis by simp
    next
      case False
      with le y(2) show ?thesis by (auto split: if_splits)
    qed
  qed
  with assms(3) ids show ?thesis by (simp add: posts_counted_def del: set_append) (metis set_map)
qed

lemma posts_counted_deliver:
  assumes x: "x \<in> set h" and del: "deliver n mac resp u x d = (d', cs)"
    and inv: "wh_inv \<lparr>wh_rows = webhook_outbox d, wh_hands = h\<rparr>"
    and count: "posts_counted c \<lparr>wh_rows = webhook_outbox d, wh_hands = h\<rparr>"
  shows "posts_counted (c(dl_id x := Suc (c (dl_id x)))) \<lparr>wh_rows = webhook_outbox d', wh_hands = remove1 x h\<rparr>"
proof -
  let ?rows = "webhook_outbox d" and ?P = "\<lambda>r. wo_id r = dl_id x \<and> wo_status r = ObInFlight"
  have dist: "distinct (map wo_id ?rows)" "distinct (map dl_id h)" using inv by (simp_all add: wh_inv_def)
  from inv x obtain r0 where r0: "r0 \<in> set ?rows" "wo_id r0 = dl_id x" "wo_status r0 = ObInFlight"
      "wo_attempt r0 = dl_attempt x"
    by (auto simp: wh_inv_def in_hand_def)
  have held: "dl_id x \<in> dl_id ` set h" using x by simp
  have set: "set (remove1 x h) = set h - {x}" using dist(2) by (simp add: distinct_map set_remove1_eq)
  have gone: "dl_id x \<notin> dl_id ` set (remove1 x h)"
    using dist(2) x unfolding set by (auto simp: distinct_map inj_on_def)
  have others: "i \<in> dl_id ` set (remove1 x h) \<longleftrightarrow> i \<in> dl_id ` set h" if "i \<noteq> dl_id x" for i
    using that unfolding set by auto
  have rows: "webhook_outbox d' = (if u then ?rows else update_where ?P (webhook_outcome n resp (dl_attempt x)) ?rows)"
    using del by (auto simp: deliver_def)
  have ids: "map wo_id (webhook_outbox d') = map wo_id ?rows"
    unfolding rows by (auto intro: map_update_where)
  have le: "int (c (wo_id y)) \<le> wo_attempt y +
      (if wo_status y = ObInFlight \<and> wo_id y \<notin> dl_id ` set h then 1 else 0)" if "y \<in> set ?rows" for y
    using count that by (simp add: posts_counted_def)
  have "int ((c(dl_id x := Suc (c (dl_id x)))) (wo_id r)) \<le> wo_attempt r +
      (if wo_status r = ObInFlight \<and> wo_id r \<notin> dl_id ` set (remove1 x h) then 1 else 0)"
    if r: "r \<in> set (webhook_outbox d')" for r
  proof -
    from r obtain y where y: "y \<in> set ?rows" "r = (if \<not> u \<and> ?P y then webhook_outcome n resp (dl_attempt x) y else y)"
      unfolding rows by (auto simp: in_update_where split: if_splits)
    show ?thesis
    proof (cases "wo_id y = dl_id x")
      case True
      then have "y = r0" using distinct_map_eq [OF dist(1) y(1) r0(1)] r0(2) by simp
      with y le [OF y(1)] r0 held gone True show ?thesis
        by (auto simp: webhook_outcome_def Let_def split: option.split)
    next
      case False
      with y le [OF y(1)] others [OF False] show ?thesis by auto
    qed
  qed
  moreover have "(c(dl_id x := Suc (c (dl_id x)))) i = 0" if "i \<notin> wo_id ` set (webhook_outbox d')" for i
  proof -
    have "i \<notin> wo_id ` set ?rows" using that ids by (metis set_map)
    moreover have "dl_id x \<in> wo_id ` set ?rows" using r0(1,2) by (metis imageI)
    ultimately show ?thesis using count by (auto simp: posts_counted_def)
  qed
  ultimately show ?thesis by (simp add: posts_counted_def)
qed

lemma posts_counted_step:
  "wh_step s t s' \<Longrightarrow> wh_inv s \<Longrightarrow> posts_counted c s \<Longrightarrow> posts_counted (count_post t c) s'"
proof (induction rule: wh_step.induct)
  case (wh_record n g ev f d d' h)
  then show ?case using posts_counted_record by simp
next
  case (wh_pick n locked d d' xs h)
  then show ?case using posts_counted_pick by simp
next
  case (wh_deliver x h n mac resp u d d' cs)
  from posts_counted_deliver [OF this] show ?case by (simp only: count_post.simps)
qed

lemma posts_counted_runs:
  "runs wh_step s ls s' \<Longrightarrow> wh_inv s \<Longrightarrow> posts_counted c s \<Longrightarrow>
     posts_counted (\<lambda>i. c i + count_list ls (WDeliver i)) s'"
proof (induction arbitrary: c rule: runs.induct)
  case (runs_Cons s t s1 ls s')
  have "posts_counted (\<lambda>i. count_post t c i + count_list ls (WDeliver i)) s'"
    using runs_Cons.IH [OF wh_inv_step [OF runs_Cons(1,4)] posts_counted_step [OF runs_Cons(1,4,5)]] .
  moreover have "(\<lambda>i. count_post t c i + count_list ls (WDeliver i)) = (\<lambda>i. c i + count_list (t # ls) (WDeliver i))"
    by (cases t) auto
  ultimately show ?case by simp
qed simp

lemma no_posts_counted: "wh_inv s \<Longrightarrow> posts_counted (\<lambda>i. 0) s"
proof -
  have "attempts_ok st a \<Longrightarrow> 0 \<le> a" for st a by (cases st) auto
  then show "wh_inv s \<Longrightarrow> posts_counted (\<lambda>i. 0) s" by (force simp: posts_counted_def wh_inv_def)
qed

lemma posts_at_most_eight:
  assumes "runs wh_step s ls s'" "wh_inv s" "r \<in> set (wh_rows s')"
  shows "count_list ls (WDeliver (wo_id r)) \<le> 8"
proof -
  have "wh_inv s'" using assms(1,2) by (rule webhooks.inv_runs)
  then have "attempts_ok (wo_status r) (wo_attempt r)" using assms(3) by (simp add: wh_inv_def)
  moreover have "posts_counted (\<lambda>i. count_list ls (WDeliver i)) s'"
    using posts_counted_runs [OF assms(1,2) no_posts_counted [OF assms(2)]] by simp
  then have "int (count_list ls (WDeliver (wo_id r))) \<le> wo_attempt r + (if wo_status r = ObInFlight then 1 else 0)"
    using assms(3) by (force simp: posts_counted_def split: if_splits)
  ultimately show ?thesis by (cases "wo_status r") auto
qed

text \<open>
  C24: Webhook retries are bounded and dispatchers never share a row. Along every interleaving
  of recordings and dispatchers a delivery is posted to its endpoint at most 8 times: it
  waits or is in flight with fewer than 8 failures behind it, it is given up exactly at the
  eighth, and a row that is in some dispatcher's hands is in no other's.
\<close>
theorem webhook_attempts_bounded:
  assumes "runs wh_step s ls s'" "wh_inv s" "r \<in> set (wh_rows s')"
  shows "attempts_ok (wo_status r) (wo_attempt r) \<and> wo_attempt r \<le> 8 \<and>
    count_list ls (WDeliver (wo_id r)) \<le> 8 \<and>
    count_where (\<lambda>x. dl_id x = wo_id r) (wh_hands s') \<le> 1"
proof -
  have inv: "wh_inv s'" using assms(1,2) by (rule webhooks.inv_runs)
  then have "count_where (\<lambda>x. dl_id x = wo_id r) (wh_hands s') \<le> 1"
    by (intro count_unique_key [where k = dl_id and i = "wo_id r"]) (simp_all add: wh_inv_def)
  moreover have "attempts_ok (wo_status r) (wo_attempt r)" using inv assms(3) by (simp add: wh_inv_def)
  moreover have "count_list ls (WDeliver (wo_id r)) \<le> 8" using posts_at_most_eight [OF assms] .
  ultimately show ?thesis by (cases "wo_status r") auto
qed

definition sample_endpoint :: endpoint_row where
  "sample_endpoint = \<lparr>we_id = ''e1'', we_tenant_id = ''t1'', we_url = ''http://hook'',
     we_secret = ''sssssssssssssssss'', we_enabled = True, we_created_at = 0\<rparr>"

definition sample_webhook :: "outbox_status \<Rightarrow> int \<Rightarrow> webhook_row" where
  "sample_webhook st a = \<lparr>wo_id = ''w1'', wo_tenant_id = ''t1'', wo_endpoint_id = ''e1'',
     wo_event_type = ''operation.succeeded'', wo_operation_id = ''op1'', wo_payload = ''{}'',
     wo_status = st, wo_attempt = a, wo_next_attempt_at = 0, wo_last_error = None,
     wo_created_at = 0, wo_delivered_at = None\<rparr>"

definition sample_hooks :: "outbox_status \<Rightarrow> int \<Rightarrow> database" where
  "sample_hooks st a = (sample_db [])\<lparr>webhook_endpoints := [sample_endpoint], webhook_outbox := [sample_webhook st a]\<rparr>"

lemmas sample_hook_defs = sample_hooks_def sample_endpoint_def sample_webhook_def

theorem webhook_attempts_bounded_witness:
  "\<exists>xs d'. pick_batch 5 {} (sample_hooks ObPending 7) = (d', xs) \<and>
     runs wh_step \<lparr>wh_rows = webhook_outbox (sample_hooks ObPending 7), wh_hands = []\<rparr> [WPick]
       \<lparr>wh_rows = webhook_outbox d', wh_hands = xs\<rparr> \<and>
     webhook_outbox d' = [sample_webhook ObInFlight 7] \<and> attempts_ok ObInFlight 7"
proof -
  let ?d = "sample_hooks ObPending 7"
  let ?p = "pick_batch 5 {} ?d"
  have rows: "webhook_outbox (fst ?p) = [sample_webhook ObInFlight 7]"
    by (simp add: pick_batch_def sample_hook_defs due_webhooks_def delivery_of_def
        List.map_filter_simps Let_def)
  have "wh_step \<lparr>wh_rows = webhook_outbox ?d, wh_hands = []\<rparr> WPick
      \<lparr>wh_rows = webhook_outbox (fst ?p), wh_hands = snd ?p @ []\<rparr>"
    by (rule wh_pick) simp
  then have r: "runs wh_step \<lparr>wh_rows = webhook_outbox ?d, wh_hands = []\<rparr> [WPick]
      \<lparr>wh_rows = webhook_outbox (fst ?p), wh_hands = snd ?p\<rparr>"
    by (simp add: runs_single)
  have inv: "wh_inv \<lparr>wh_rows = webhook_outbox ?d, wh_hands = []\<rparr>"
    by (simp add: wh_inv_def sample_hook_defs)
  have mem: "sample_webhook ObInFlight 7 \<in> set (wh_rows \<lparr>wh_rows = webhook_outbox (fst ?p), wh_hands = snd ?p\<rparr>)"
    by (simp add: rows)
  from webhook_attempts_bounded [OF r inv mem] have "attempts_ok ObInFlight 7"
    by (simp add: sample_webhook_def)
  with r rows show ?thesis by (metis prod.collapse)
qed

section \<open>A dispatcher that stops\<close>

lemma stuck_step:
  assumes "wh_step s t s'" "wh_inv s" "r \<in> set (wh_rows s)" "wo_status r = ObInFlight"
    and "wo_id r \<notin> dl_id ` set (wh_hands s)"
  shows "r \<in> set (wh_rows s') \<and> wo_id r \<notin> dl_id ` set (wh_hands s')"
  using assms
proof (induction rule: wh_step.induct)
  case (wh_record n g ev f d d' h)
  with record_tx_rows [OF wh_record(1)] show ?case by auto
next
  case (wh_pick n locked d d' xs h)
  have dist: "distinct (map wo_id (webhook_outbox d))" using wh_pick(2) by (simp add: wh_inv_def)
  have r: "r \<in> set (webhook_outbox d)" using wh_pick(3) by simp
  have np: "wo_id r \<notin> set (map dl_id xs)"
    using picked_pending [OF wh_pick(1) dist r] wh_pick(4) by auto
  then have "r \<in> set (webhook_outbox d')"
    using r pick_batch_props [OF wh_pick(1) dist] by (force simp: in_update_where)
  with np wh_pick(5) show ?case by auto
next
  case (wh_deliver x h n mac resp u d d' cs)
  have "r \<in> set (webhook_outbox d')"
    using wh_deliver by (cases u) (force simp: deliver_def in_update_where)+
  with wh_deliver(6) show ?case by (auto dest: set_remove1_subset [THEN subsetD])
qed

lemma stuck_runs:
  "runs wh_step s ls s' \<Longrightarrow> wh_inv s \<Longrightarrow> r \<in> set (wh_rows s) \<Longrightarrow> wo_status r = ObInFlight \<Longrightarrow>
   wo_id r \<notin> dl_id ` set (wh_hands s) \<Longrightarrow> r \<in> set (wh_rows s')"
proof (induction rule: runs.induct)
  case (runs_Cons s l s1 ls s')
  with stuck_step [OF runs_Cons(1)] wh_inv_step [OF runs_Cons(1)] show ?case by blast
qed simp

text \<open>
  A delivery whose dispatcher stopped between the pick and the result is lost: nothing
  ever takes a row out of \<open>IN_FLIGHT\<close> again, along no interleaving of recordings and of
  other dispatchers, because the pick only looks at pending rows.
\<close>
theorem abandoned_delivery_stuck:
  assumes "runs wh_step s ls s'" "wh_inv s" "r \<in> set (wh_rows s)" "wo_status r = ObInFlight"
    and "wo_id r \<notin> dl_id ` set (wh_hands s)"
  shows "r \<in> set (wh_rows s')"
  using assms by (rule stuck_runs)

theorem abandoned_delivery_stuck_witness:
  "sample_webhook ObInFlight 0 \<in> set (webhook_outbox (fst (pick_batch 5 {} (sample_hooks ObInFlight 0))))"
proof -
  let ?d = "sample_hooks ObInFlight 0"
  let ?p = "pick_batch 5 {} ?d"
  have "wh_step \<lparr>wh_rows = webhook_outbox ?d, wh_hands = []\<rparr> WPick
      \<lparr>wh_rows = webhook_outbox (fst ?p), wh_hands = snd ?p @ []\<rparr>"
    by (rule wh_pick) simp
  then have r: "runs wh_step \<lparr>wh_rows = webhook_outbox ?d, wh_hands = []\<rparr> [WPick]
      \<lparr>wh_rows = webhook_outbox (fst ?p), wh_hands = snd ?p @ []\<rparr>"
    by (rule runs_single)
  have "sample_webhook ObInFlight 0 \<in> set (wh_rows \<lparr>wh_rows = webhook_outbox (fst ?p), wh_hands = snd ?p @ []\<rparr>)"
    by (rule abandoned_delivery_stuck [OF r]) (simp_all add: wh_inv_def sample_hook_defs)
  then show ?thesis by simp
qed

section \<open>What a batch posts\<close>

lemma snd_deliver_all: "snd (deliver_all n mac post f k xs d) =
    map (\<lambda>x. PostWebhook (dl_url x) (webhook_headers mac x) (dl_payload x)) xs"
  by (induction xs arbitrary: k d) (auto simp: deliver_def Let_def split_def)

lemma webhook_signature: "hdr_get (webhook_headers mac x) ''X-Nexora-Signature'' = signature_header mac x"
proof -
  have "canonical_key ''X-Nexora-Signature'' \<noteq> canonical_key ''X-Nexora-Delivery''"
    by (simp add: canonical_key_def upper_char_def lower_char_def)
  then show ?thesis by (simp add: webhook_headers_def hdr_get_set)
qed

text \<open>
  A batch posts each picked row once, at most 20 of them, oldest first and only rows that
  are due: to the URL of its own endpoint, with its stored payload, under a signature that
  the receiver's \<open>ValidHMAC\<close> accepts with the secret of that endpoint, whatever MAC is used.
\<close>
lemma webhook_batch_signed:
  assumes "dispatchBatch n mac post locked no_faults d = (d', calls)"
    and "c \<in> set calls" "distinct (map wo_id (webhook_outbox d))"
  shows "\<exists>url hs body r e. c = PostWebhook url hs body \<and> r \<in> set (webhook_outbox d) \<and>
    wo_status r = ObPending \<and> wo_next_attempt_at r \<le> n \<and> wo_id r \<notin> locked \<and>
    e \<in> set (webhook_endpoints d) \<and> we_id e = wo_endpoint_id r \<and> url = we_url e \<and>
    body = wo_payload r \<and> ValidHMAC mac (we_secret e) body (hdr_get hs ''X-Nexora-Signature'') \<and>
    length calls \<le> 20"
proof -
  let ?due = "due_webhooks n locked (webhook_outbox d)"
  have calls: "calls = map (\<lambda>x. PostWebhook (dl_url x) (webhook_headers mac x) (dl_payload x))
      (List.map_filter (delivery_of (webhook_endpoints d)) ?due)"
    using assms(1) by (auto simp: dispatchBatch_def pick_batch_def Let_def
        dest!: arg_cong [where f = snd] simp: snd_deliver_all)
  have len: "length calls \<le> 20"
  proof -
    have "length (List.map_filter f xs) \<le> length xs" for f :: "webhook_row \<Rightarrow> delivery option" and xs
      by (simp add: List.map_filter_def) 
    then have "length calls \<le> length ?due" by (simp add: calls)
    then show ?thesis by (simp add: due_webhooks_def)
  qed
  from assms(2) obtain x r where c: "c = PostWebhook (dl_url x) (webhook_headers mac x) (dl_payload x)"
    and r: "r \<in> set ?due" "delivery_of (webhook_endpoints d) r = Some x"
    by (auto simp: calls in_map_filter)
  from r(1) have due: "r \<in> set (webhook_outbox d)" "wo_status r = ObPending" "wo_next_attempt_at r \<le> n"
      "wo_id r \<notin> locked"
    by (auto simp: due_webhooks_def dest!: in_set_takeD)
  from r(2) obtain e where e: "find_row (\<lambda>e. we_id e = wo_endpoint_id r) (webhook_endpoints d) = Some e"
    and x: "dl_url x = we_url e" "dl_payload x = wo_payload r" "dl_secret x = we_secret e"
    by (auto simp: delivery_of_def split: option.splits)
  have sig: "ValidHMAC mac (we_secret e) (wo_payload r) (hdr_get (webhook_headers mac x) ''X-Nexora-Signature'')"
    by (simp add: webhook_signature signature_header_def ValidHMAC_def HMACSignature_def x)
  show ?thesis
    using c due find_row_Some [OF e] x sig len by blast
qed

lemma webhook_batch_signed_witness:
  "\<exists>hs. snd (dispatchBatch 5 (\<lambda>k m. k @ m) (\<lambda>x. HttpResponse 200 []) {} no_faults (sample_hooks ObPending 0)) =
     [PostWebhook ''http://hook'' hs ''{}''] \<and>
   ValidHMAC (\<lambda>k m. k @ m) ''sssssssssssssssss'' ''{}'' (hdr_get hs ''X-Nexora-Signature'')"
proof -
  let ?d = "sample_hooks ObPending 0" and ?mac = "\<lambda>k m. k @ m :: string"
  let ?b = "dispatchBatch 5 ?mac (\<lambda>x. HttpResponse 200 []) {} no_faults ?d"
  have b: "?b = (fst ?b, snd ?b)" by simp
  obtain hs where calls: "snd ?b = [PostWebhook ''http://hook'' hs ''{}'']"
    by (simp add: dispatchBatch_def pick_batch_def sample_hook_defs due_webhooks_def delivery_of_def
        List.map_filter_simps Let_def split_def snd_deliver_all deliver_def)
  then have mem: "PostWebhook ''http://hook'' hs ''{}'' \<in> set (snd ?b)" by simp
  have dist: "distinct (map wo_id (webhook_outbox ?d))" by (simp add: sample_hook_defs)
  from webhook_batch_signed [OF b mem dist] calls show ?thesis
    by (auto simp: sample_hook_defs)
qed

section \<open>Live streams\<close>

lemma publish_step_bounded:
  assumes "\<forall>s\<in>set subs. length (sb_buffer s) \<le> buffer_size"
  shows "\<forall>s\<in>set (publish t data subs). length (sb_buffer s) \<le> buffer_size"
  using assms by (auto simp: publish_def offer_def)

text \<open>
  Publishing never blocks, never grows a stream beyond 16 waiting events, and never
  shows an event to another tenant: after any sequence of publications from streams within
  the bound every buffer is within it, keeps what it had as a prefix, and holds beyond that
  only events that were published for the stream's own tenant.
\<close>
lemma publish_bounded_and_isolated:
  assumes "\<forall>s\<in>set subs. length (sb_buffer s) \<le> buffer_size" "i < length subs"
  shows "let subs' = fold (\<lambda>(t, data). publish t data) evs subs in
    length subs' = length subs \<and> sb_tenant (subs' ! i) = sb_tenant (subs ! i) \<and>
    length (sb_buffer (subs' ! i)) \<le> buffer_size \<and>
    (\<exists>new. sb_buffer (subs' ! i) = sb_buffer (subs ! i) @ new \<and>
       (\<forall>x\<in>set new. (sb_tenant (subs ! i), x) \<in> set evs))"
  using assms
proof (induction evs arbitrary: subs)
  case (Cons ev evs)
  obtain t data where ev: "ev = (t, data)" by (cases ev)
  let ?s = "publish t data subs"
  have nth: "?s ! i = (if sb_tenant (subs ! i) = t then offer data (subs ! i) else subs ! i)"
    using Cons.prems(2) by (simp add: publish_def)
  obtain new0 where n0: "sb_buffer (?s ! i) = sb_buffer (subs ! i) @ new0"
    "\<forall>x\<in>set new0. sb_tenant (subs ! i) = t \<and> x = data"
  proof (cases "sb_tenant (subs ! i) = t \<and> length (sb_buffer (subs ! i)) < buffer_size")
    case True
    then show ?thesis by (intro that [of "[data]"]) (simp_all add: nth offer_def)
  next
    case False
    then show ?thesis by (intro that [of "[]"]) (auto simp: nth offer_def)
  qed
  have same: "sb_tenant (?s ! i) = sb_tenant (subs ! i)" by (simp add: nth offer_def)
  have len: "length ?s = length subs" by (simp add: publish_def)
  from Cons.IH [OF publish_step_bounded [OF Cons.prems(1)], of t data] Cons.prems(2) len
  obtain new where "sb_buffer (fold (\<lambda>(t, data). publish t data) evs ?s ! i) = sb_buffer (?s ! i) @ new"
    and "\<forall>x\<in>set new. (sb_tenant (?s ! i), x) \<in> set evs"
    and rest: "length (fold (\<lambda>(t, data). publish t data) evs ?s) = length ?s"
      "sb_tenant (fold (\<lambda>(t, data). publish t data) evs ?s ! i) = sb_tenant (?s ! i)"
      "length (sb_buffer (fold (\<lambda>(t, data). publish t data) evs ?s ! i)) \<le> buffer_size"
    by (auto simp: Let_def)
  then have "\<exists>new. sb_buffer (fold (\<lambda>(t, data). publish t data) evs ?s ! i) = sb_buffer (subs ! i) @ new \<and>
      (\<forall>x\<in>set new. (sb_tenant (subs ! i), x) \<in> set (ev # evs))"
    using n0 same ev by (intro exI [of _ "new0 @ new"]) auto
  with rest same len show ?case by (simp add: ev Let_def)
qed (simp add: Let_def)

lemma publish_bounded_and_isolated_witness:
  "length (sb_buffer (publish ''t1'' ''a'' (subscribe ''t1'' []) ! 0)) \<le> buffer_size"
proof -
  have "\<forall>s\<in>set (subscribe ''t1'' []). length (sb_buffer s) \<le> buffer_size" "0 < length (subscribe ''t1'' [])"
    by (simp_all add: subscribe_def)
  from publish_bounded_and_isolated [OF this, of "[(''t1'', ''a'')]"] show ?thesis by (simp add: Let_def)
qed

section \<open>The dispatcher's loop\<close>

text \<open>
  One batch per tick of a second, until the context ends: the list holds, for each tick, the
  instant, the answers of the endpoints, the rows other dispatchers hold, and the faults.
\<close>

fun dispatchLoop ::
    "(string \<Rightarrow> string \<Rightarrow> string) \<Rightarrow> (int \<times> (delivery \<Rightarrow> http_result) \<times> string set \<times> faults) list \<Rightarrow>
     database \<Rightarrow> database \<times> usage_call list" where
  "dispatchLoop mac [] d = (d, [])"
| "dispatchLoop mac ((n, post, locked, f) # ticks) d =
     (let (d', c) = dispatchBatch n mac post locked f d;
          (d'', cs) = dispatchLoop mac ticks d'
      in (d'', c @ cs))"

text \<open>The row a post belongs to, as its header says, and the deliveries of a run.\<close>

fun posted_id :: "usage_call \<Rightarrow> string" where
  "posted_id (PostWebhook url h body) = hdr_get h ''X-Nexora-Delivery''"

fun delivered_ids :: "wh_tag list \<Rightarrow> string list" where
  "delivered_ids [] = []"
| "delivered_ids (WDeliver i # ls) = i # delivered_ids ls"
| "delivered_ids (_ # ls) = delivered_ids ls"

lemma delivered_ids_append [simp]: "delivered_ids (ls @ ls') = delivered_ids ls @ delivered_ids ls'"
  by (induction ls rule: delivered_ids.induct) simp_all

lemma count_delivered_ids: "count_list (delivered_ids ls) i = count_list ls (WDeliver i)"
  by (induction ls rule: delivered_ids.induct) simp_all

lemma webhook_delivery_header: "hdr_get (webhook_headers mac x) ''X-Nexora-Delivery'' = dl_id x"
  by (simp add: webhook_headers_def hdr_get_set)

lemma deliver_all_run:
  "deliver_all n mac post f k xs d = (d', cs) \<Longrightarrow>
   \<exists>ls. runs wh_step \<lparr>wh_rows = webhook_outbox d, wh_hands = xs @ h\<rparr> ls
     \<lparr>wh_rows = webhook_outbox d', wh_hands = h\<rparr> \<and> delivered_ids ls = map posted_id cs"
proof (induction xs arbitrary: k d cs)
  case Nil
  then show ?case by (intro exI [of _ "[]"]) simp
next
  case (Cons x xs)
  obtain d1 c where one: "deliver n mac (post x) (f k) x d = (d1, c)" by (metis prod.collapse)
  then have c: "map posted_id c = [dl_id x]" by (auto simp: deliver_def webhook_delivery_header)
  obtain d2 cs' where rest: "deliver_all n mac post f (Suc k) xs d1 = (d2, cs')" by (metis prod.collapse)
  have out: "d' = d2" "cs = c @ cs'" using Cons.prems one rest by simp_all
  from Cons.IH [OF rest [folded out(1)]] obtain ls where
    ls: "runs wh_step \<lparr>wh_rows = webhook_outbox d1, wh_hands = xs @ h\<rparr> ls
       \<lparr>wh_rows = webhook_outbox d', wh_hands = h\<rparr>" "delivered_ids ls = map posted_id cs'" by blast
  have "wh_step \<lparr>wh_rows = webhook_outbox d, wh_hands = (x # xs) @ h\<rparr> (WDeliver (dl_id x))
      \<lparr>wh_rows = webhook_outbox d1, wh_hands = remove1 x ((x # xs) @ h)\<rparr>"
    by (rule wh_deliver [OF _ one]) simp
  then have "runs wh_step \<lparr>wh_rows = webhook_outbox d, wh_hands = (x # xs) @ h\<rparr> (WDeliver (dl_id x) # ls)
      \<lparr>wh_rows = webhook_outbox d', wh_hands = h\<rparr>"
    using ls(1) by (intro runs_Cons) simp_all
  then show ?case using ls(2) c out(2) by (intro exI [of _ "WDeliver (dl_id x) # ls"]) simp
qed

lemma dispatchBatch_run:
  assumes "dispatchBatch n mac post locked f d = (d', cs)"
  shows "\<exists>ls. runs wh_step \<lparr>wh_rows = webhook_outbox d, wh_hands = h\<rparr> ls
    \<lparr>wh_rows = webhook_outbox d', wh_hands = h\<rparr> \<and> delivered_ids ls = map posted_id cs"
proof (cases "f 0 \<or> f 1 \<or> f 2 \<or> f 3")
  case True
  with assms show ?thesis by (intro exI [of _ "[]"]) (simp add: dispatchBatch_def)
next
  case False
  obtain d1 xs where pick: "pick_batch n locked d = (d1, xs)" by (metis prod.collapse)
  have "deliver_all n mac post f 4 xs d1 = (d', cs)"
    using assms pick False by (auto simp: dispatchBatch_def)
  from deliver_all_run [OF this, of h] obtain ls where
    "runs wh_step \<lparr>wh_rows = webhook_outbox d1, wh_hands = xs @ h\<rparr> ls \<lparr>wh_rows = webhook_outbox d', wh_hands = h\<rparr>"
    "delivered_ids ls = map posted_id cs" by blast
  then show ?thesis
    by (intro exI [of _ "WPick # ls"]) (auto intro: runs_Cons wh_pick [OF pick])
qed

lemma dispatchLoop_run:
  "dispatchLoop mac ticks d = (d', cs) \<Longrightarrow>
   \<exists>ls. runs wh_step \<lparr>wh_rows = webhook_outbox d, wh_hands = h\<rparr> ls
     \<lparr>wh_rows = webhook_outbox d', wh_hands = h\<rparr> \<and> delivered_ids ls = map posted_id cs"
proof (induction ticks arbitrary: d cs)
  case Nil
  then show ?case by (intro exI [of _ "[]"]) simp
next
  case (Cons tick ticks)
  obtain n post locked f where tick: "tick = (n, post, locked, f)" by (cases tick)
  obtain d1 c where one: "dispatchBatch n mac post locked f d = (d1, c)" by (metis prod.collapse)
  obtain d2 cs' where rest: "dispatchLoop mac ticks d1 = (d2, cs')" by (metis prod.collapse)
  have out: "d' = d2" "cs = c @ cs'" using Cons.prems tick one rest by simp_all
  from dispatchBatch_run [OF one, of h] Cons.IH [OF rest [folded out(1)]] show ?case
    unfolding out(2) by (metis delivered_ids_append map_append runs_append)
qed

text \<open>
  No customer is called more than eight times for one event. Over all the ticks of a
  dispatcher's loop, whatever its endpoints answer and whichever of its database calls fail,
  each outbox row is posted at most 8 times, and the bookkeeping of the rows stays sound.
\<close>
lemma dispatcher_posts_bounded:
  assumes "dispatchLoop mac ticks d = (d', cs)" "wh_inv \<lparr>wh_rows = webhook_outbox d, wh_hands = []\<rparr>"
    and "r \<in> set (webhook_outbox d')"
  shows "count_list (map posted_id cs) (wo_id r) \<le> 8 \<and> attempts_ok (wo_status r) (wo_attempt r) \<and>
    distinct (map wo_id (webhook_outbox d'))"
proof -
  from dispatchLoop_run [OF assms(1), of "[]"] obtain ls where
    ls: "runs wh_step \<lparr>wh_rows = webhook_outbox d, wh_hands = []\<rparr> ls \<lparr>wh_rows = webhook_outbox d', wh_hands = []\<rparr>"
    "delivered_ids ls = map posted_id cs" by blast
  have inv: "wh_inv \<lparr>wh_rows = webhook_outbox d', wh_hands = []\<rparr>" using ls(1) assms(2) by (rule webhooks.inv_runs)
  have "count_list ls (WDeliver (wo_id r)) \<le> 8" using posts_at_most_eight [OF ls(1) assms(2)] assms(3) by simp
  then show ?thesis using inv assms(3) by (simp add: ls(2) [symmetric] count_delivered_ids wh_inv_def)
qed

lemma dispatcher_posts_bounded_witness:
  "\<exists>d' cs. dispatchLoop (\<lambda>k m. m) [(5, \<lambda>x. HttpResponse 500 [], {}, no_faults)] (sample_hooks ObPending 7) = (d', cs) \<and>
    map posted_id cs = [''w1''] \<and> count_list [''w1''] ''w1'' \<le> 8"
proof -
  let ?tick = "(5, \<lambda>x :: delivery. HttpResponse 500 [], {}, no_faults)" and ?d = "sample_hooks ObPending 7"
  obtain d' cs where run: "dispatchLoop (\<lambda>k m. m) [?tick] ?d = (d', cs)" by (metis prod.collapse)
  then have "map posted_id cs = [''w1'']" "map wo_id (webhook_outbox d') = [''w1'']"
    by (auto simp: dispatchBatch_def pick_batch_def sample_hook_defs due_webhooks_def delivery_of_def
        List.map_filter_simps Let_def deliver_def split_def update_where_def webhook_delivery_header)
  moreover have "wh_inv \<lparr>wh_rows = webhook_outbox ?d, wh_hands = []\<rparr>" by (simp add: wh_inv_def sample_hook_defs)
  moreover obtain r where "r \<in> set (webhook_outbox d')" "wo_id r = ''w1''" using calculation(2) by auto
  ultimately show ?thesis using dispatcher_posts_bounded [OF run, of r] run by auto
qed

end
