(* ===== verification/Submission.thy ===== *)
theory Submission
  imports Handlers
begin

text \<open>
  Properties of the public handlers of \<open>cmd/operations/main.go\<close>: submission and its
  idempotency, cancellation, redrive and the queries, on every branch.
\<close>

section \<open>Submission\<close>

text \<open>What an accepted submission leaves behind.\<close>

lemma store_operation_202:
  assumes "store_operation n i t idem inp f d = (d', cs, JSON 202 b)"
  shows "(\<exists>r\<in>set (operations d'). op_id r = i \<and> op_tenant r = t \<and> idempotency_key r = idem) \<and>
    cs = [RunWorkflow (''operation:'' @ i) (create_envelope i t inp)] \<and>
    insert_operation (new_operation n i t idem inp) d = Some d'"
  using assms unfolding store_operation_def
  by (auto split: option.splits if_splits dest!: find_row_Some)

lemma create_202:
  assumes "create clk i bound f h d = (d', cs, JSON 202 b)"
  obtains raw inp idem tn where "bound = Some raw" "check_input raw = Inr inp"
    "check_key h = Inr idem" "find_row (\<lambda>x. tn_id x = hdr_get h TenantHeader) (tenants d) = Some tn"
    "used_units clk (hdr_get h TenantHeader) d < tn_monthly_quota tn"
    "int (running_count (hdr_get h TenantHeader) d) < tn_concurrency_limit tn"
    "store_operation (now clk) i (hdr_get h TenantHeader) idem inp f d = (d', cs, JSON 202 b)"
  using assms unfolding create_def Let_def
  by (auto split: option.splits sum.splits if_splits)

text \<open>A known (tenant, key) pair: nothing is written and nothing is started.\<close>

lemma store_operation_known:
  assumes "\<exists>r\<in>set (operations d). op_tenant r = t \<and> idempotency_key r = idem"
    and "distinct (map idem_key (operations d))"
    and "find_row (\<lambda>r. op_tenant r = t \<and> idempotency_key r = idem) (operations d) = Some r"
    and "op_id r \<noteq> j"
  shows "store_operation n j t idem inp f d =
    (d, [], if f 3 \<or> f 4 then PlainError else JSON 200 (OpBody (scanOperation r)))"
proof -
  have "idem_key (new_operation n j t idem inp) \<in> idem_key ` set (operations d)"
    using assms(1) by (force simp: idem_key_def new_operation_def image_iff)
  then have "insert_operation (new_operation n j t idem inp) d = Some d"
    by (simp add: insert_operation_def op_store.put_known)
  with assms(3,4) show ?thesis by (simp add: store_operation_def)
qed

lemma create_known:
  assumes inv: "ops_inv d" and r: "lookup_op d i = Some r" "op_tenant r = hdr_get h TenantHeader"
    and key: "check_key h = Inr (idempotency_key r)" and j: "j \<noteq> i"
  shows "\<exists>reply. create clk j bound f h d = (d, [], reply) \<and>
    (reply_status reply < 300 \<longrightarrow> reply = JSON 200 (OpBody (scanOperation r)))"
proof -
  let ?t = "hdr_get h TenantHeader"
  from r have mem: "r \<in> set (operations d)" "op_id r = i" by (auto dest: lookup_op_Some)
  have found: "find_row (\<lambda>x. op_tenant x = ?t \<and> idempotency_key x = idempotency_key r) (operations d) = Some r"
    by (rule find_row_unique [where k = idem_key])
       (use inv mem r in \<open>auto simp: ops_inv_def idem_key_def\<close>)
  have store: "store_operation n j ?t (idempotency_key r) x f d =
      (d, [], if f 3 \<or> f 4 then PlainError else JSON 200 (OpBody (scanOperation r)))" for n x
    by (rule store_operation_known) (use inv mem r found j in \<open>auto simp: ops_inv_def\<close>)
  show ?thesis
    unfolding create_def Let_def key
    by (auto simp: store split: option.split sum.split)
qed

lemma create_keeps_inv: "ops_inv d \<Longrightarrow> ops_inv (fst (create clk i bound f h d))"
  using create_steps [of d clk i bound f h] by (auto simp: steps_to_def intro: ops.inv_runs)


definition sample_header :: header where
  "sample_header = [(''X-Nexora-Tenant-Id'', [''t1'']), (''Idempotency-Key'', [''k9''])]"

definition sample_input :: createInput where
  "sample_input = \<lparr>ci_task_type = ''sync'', ci_target_url = ''http://x'', ci_payload = [],
     ci_max_attempts = 0, ci_deadline = None, ci_execution_mode = [], ci_scheduled_for = None\<rparr>"

definition sample_clock :: clock where
  "sample_clock = \<lparr>now = 5, month_start = 0\<rparr>"

lemma sample_hdr: "hdr_get sample_header TenantHeader = ''t1''" "check_key sample_header = Inr ''k9''"
  by code_simp+

lemma sample_check: "check_input sample_input = Inr (sample_input\<lparr>ci_payload := ''{}'',
    ci_max_attempts := 3, ci_execution_mode := ''PRIVATE''\<rparr>)"
  by (simp add: check_input_def sample_input_def has_prefix_def Let_def)

lemma sample_create:
  "fst (snd (create sample_clock ''op9'' (Some sample_input) no_faults sample_header (sample_db []))) \<noteq> []"
  "\<exists>b. snd (snd (create sample_clock ''op9'' (Some sample_input) no_faults sample_header (sample_db []))) = JSON 202 b"
  by (simp_all add: create_def sample_hdr sample_check Let_def sample_defs used_units_def
      running_count_def store_operation_def insert_operation_def put_operation_def
      insert_new_def new_operation_def)


text \<open>
  An accepted submission adds exactly one row and touches nothing else: a \<open>PENDING\<close>
  operation of the caller's tenant with no attempt made, a budget between 1 and 10, a known
  execution mode and an HTTP target; it starts exactly one workflow, named by the operation,
  for that very row; and the tenant was below its quota and its concurrency limit.
\<close>
lemma create_accepts:
  assumes "create clk i bound f h d = (d', cs, JSON 202 b)" "i \<notin> op_id ` set (operations d)"
  shows "\<exists>r env tn. d' = d\<lparr>operations := operations d @ [r]\<rparr> \<and>
    op_id r = i \<and> op_tenant r = hdr_get h TenantHeader \<and> status r = Pending \<and> attempt r = 0 \<and>
    max_attempts r \<in> {1..10} \<and> execution_mode r \<in> {''PRIVATE'', ''CLOUD''} \<and>
    (has_prefix (target_url r) ''http://'' \<or> has_prefix (target_url r) ''https://'') \<and>
    payload r \<noteq> [] \<and> idem_key r \<notin> idem_key ` set (operations d) \<and>
    b = OpBody (scanOperation r) \<and> cs = [RunWorkflow (''operation:'' @ i) env] \<and>
    env\<lparr>env_not_before := None\<rparr> = scan_envelope r \<and>
    tn \<in> set (tenants d) \<and> tn_id tn = op_tenant r \<and>
    used_units clk (tn_id tn) d < tn_monthly_quota tn \<and>
    int (running_count (tn_id tn) d) < tn_concurrency_limit tn"
proof -
  let ?t = "hdr_get h TenantHeader"
  from assms(1) obtain raw inp idem tn where chk: "check_input raw = Inr inp"
    and tn: "find_row (\<lambda>x. tn_id x = ?t) (tenants d) = Some tn"
    and lim: "used_units clk ?t d < tn_monthly_quota tn"
      "int (running_count ?t d) < tn_concurrency_limit tn"
    and st: "store_operation (now clk) i ?t idem inp f d = (d', cs, JSON 202 b)"
    by (rule create_202)
  let ?r = "new_operation (now clk) i ?t idem inp"
  from st have new: "idem_key ?r \<notin> idem_key ` set (operations d)"
    and d': "d' = d\<lparr>operations := operations d @ [?r]\<rparr>"
    and out: "cs = [RunWorkflow (''operation:'' @ i) (create_envelope i ?t inp)]"
      "b = OpBody (scanOperation ?r)"
    using assms(2) unfolding store_operation_def insert_operation_def
    by (auto simp: put_operation_def insert_new_def find_row_append image_iff new_operation_def
        split: option.splits if_splits dest!: find_row_Some)
  have inp: "ci_max_attempts inp \<in> {1..10}" "ci_execution_mode inp \<in> {''PRIVATE'', ''CLOUD''}"
      "has_prefix (ci_target_url inp) ''http://'' \<or> has_prefix (ci_target_url inp) ''https://''"
      "ci_payload inp \<noteq> []"
    using chk by (auto simp: check_input_def Let_def split: if_splits)
  show ?thesis
    by (rule exI [of _ ?r], rule exI [of _ "create_envelope i ?t inp"], rule exI [of _ tn])
       (use d' new out inp lim find_row_Some [OF tn] in
        \<open>simp add: new_operation_def create_envelope_def scan_envelope_def\<close>)
qed

lemma create_accepts_witness:
  "\<exists>d' cs b r. create sample_clock ''op9'' (Some sample_input) no_faults sample_header (sample_db []) =
      (d', cs, JSON 202 b) \<and> operations d' = [r] \<and> status r = Pending"
proof -
  let ?r = "create sample_clock ''op9'' (Some sample_input) no_faults sample_header (sample_db [])"
  obtain b where r: "?r = (fst ?r, fst (snd ?r), JSON 202 b)" using sample_create(2) by (metis prod.collapse)
  have "''op9'' \<notin> op_id ` set (operations (sample_db []))" by (simp add: sample_defs)
  from create_accepts [OF r this] obtain x where
    "fst ?r = (sample_db [])\<lparr>operations := operations (sample_db []) @ [x]\<rparr>" "status x = Pending"
    by blast
  then have "operations (fst ?r) = [x]" by (simp add: sample_defs)
  with r \<open>status x = Pending\<close> show ?thesis by blast
qed

text \<open>
  The replay answers only while the tenant is below its limits: they are checked before the
  key is looked up. Here the first submission is accepted and billed, which uses up a quota
  of one unit, and the repeated one is refused instead of being answered with the operation.
\<close>

definition spent_unit :: ledger_row where
  "spent_unit = \<lparr>le_tenant_id = ''t1'', le_operation_id = ''op9'', le_event_key = ''op9:operation.succeeded:1'',
     le_units = 1, le_metadata = ''{}'', le_created_at = 5\<rparr>"

lemma retry_over_quota_refused:
  "let d = (sample_db [])\<lparr>tenants := [sample_tenant\<lparr>tn_monthly_quota := 1\<rparr>]\<rparr>;
       r = create sample_clock ''op9'' (Some sample_input) no_faults sample_header d;
       d' = (fst r)\<lparr>ledger := [spent_unit]\<rparr>
   in (\<exists>b. snd (snd r) = JSON 202 b) \<and> lookup_op d' ''op9'' \<noteq> None \<and>
     create sample_clock ''op10'' (Some sample_input) no_faults sample_header d' =
       (d', [], HTTPError 402 ''monthly quota exhausted'')"
  by (simp add: create_def sample_hdr sample_check Let_def sample_defs used_units_def spent_unit_def sample_clock_def
      running_count_def store_operation_def insert_operation_def put_operation_def lookup_op_def
      insert_new_def new_operation_def)

end
