(* ===== verification/Acme.thy ===== *)
theory Acme
  imports Config Webhooks Submission
begin

text \<open>
  \<open>cmd/acme/main.go\<close>: the demonstration customer. It is a target of operations, a receiver
  of signed webhooks, and a client that submits operations through the public API. Its
  state is the webhook switch, the request counter and the world behind the API it calls.
\<close>

section \<open>State, calls and bodies\<close>

text \<open>\<open>ac_url_error\<close> is what \<open>http.NewRequest\<close> says of the API address, if anything.\<close>

record acme_cfg =
  ac_api_key :: string
  ac_api_url :: string
  ac_url_error :: "string option"
  ac_target_url :: string
  ac_webhook_secret :: string

record 'w acme_state =
  ac_webhooks :: bool
  ac_requests :: int
  ac_world :: 'w

text \<open>
  What a call of the API gives: a transport error, a body that does not decode, or a status
  and the JSON text of the decoded body.
\<close>

datatype api_result = ApiError string | ApiUndecodable int string | ApiReply int string

type_synonym 'w api = "header \<Rightarrow> string \<Rightarrow> 'w \<Rightarrow> 'w \<times> api_result"

datatype acme_call = SubmitOperation string header string

datatype acme_body =
  ErrorBody string
| WorkDone int string string
| Responded string
| BurstBody int "(int \<times> string) list"
| IdempotentBody int int string string
| ToggleBody bool
| QuotaBody int int int
| StatsBody int bool

type_synonym 'w acme_handler = "('w acme_state, acme_call, acme_body) handler"

section \<open>The target\<close>

text \<open>
  \<open>mode\<close> is the string of that name in the payload, \<open>inp\<close> the payload's JSON text, and \<open>gone\<close>
  says that the client of a slow request left within 35 seconds.
\<close>

definition work :: "int \<Rightarrow> string \<Rightarrow> string \<Rightarrow> bool \<Rightarrow> 'w acme_handler" where
  "work n mode inp gone h s =
     (let s = s\<lparr>ac_requests := ac_requests s + 1\<rparr> in
      if mode = ''fail'' then (s, [], JSON 500 (ErrorBody ''simulated Acme outage''))
      else if mode = ''reject'' then (s, [], JSON 422 (ErrorBody ''simulated validation failure''))
      else if mode = ''slow'' \<and> gone then (s, [], PlainError)
      else (s, [], JSON 200 (WorkDone n (hdr_get h ''X-Nexora-Operation-ID'') inp)))"

section \<open>The receiver of webhooks\<close>

text \<open>The body is \<open>None\<close> when it cannot be read.\<close>

definition acme_webhook ::
    "acme_cfg \<Rightarrow> (string \<Rightarrow> string \<Rightarrow> string) \<Rightarrow> string option \<Rightarrow> 'w acme_handler" where
  "acme_webhook cfg mac bound h s =
     (if \<not> ac_webhooks s then (s, [], JSON 503 (ErrorBody ''webhooks disabled''))
      else case bound of None \<Rightarrow> (s, [], PlainError)
      | Some body \<Rightarrow>
          if ac_webhook_secret cfg \<noteq> '''' \<and>
              ''sha256='' @ hex_encode (mac (ac_webhook_secret cfg) body) \<noteq> hdr_get h ''X-Nexora-Signature''
            then (s, [], JSON 401 (ErrorBody ''invalid signature''))
          else (s, [], NoContent 204))"

definition toggleWebhook :: "bool option \<Rightarrow> 'w acme_handler" where
  "toggleWebhook bound h s = (case bound of None \<Rightarrow> (s, [], HTTPError 400 ''invalid JSON'')
     | Some enabled \<Rightarrow> (s\<lparr>ac_webhooks := enabled\<rparr>, [], JSON 200 (ToggleBody enabled)))"

definition acme_stats :: "'w acme_handler" where
  "acme_stats h s = (s, [], JSON 200 (StatsBody (ac_requests s) (ac_webhooks s)))"

section \<open>The client\<close>

definition submission_body :: "acme_cfg \<Rightarrow> string \<Rightarrow> string" where
  "submission_body cfg p = json_object [(''max_attempts'', itoa 3), (''payload'', p),
     (''target_url'', json_quote (ac_target_url cfg)), (''task_type'', json_quote ''acme.ticket.process'')]"

definition submission_headers :: "acme_cfg \<Rightarrow> string \<Rightarrow> header" where
  "submission_headers cfg key = hdr_set (hdr_set (hdr_set [] ''Content-Type'' ''application/json'')
     ''X-API-Key'' (ac_api_key cfg)) ''Idempotency-Key'' key"

definition error_json :: "string \<Rightarrow> string" where
  "error_json msg = json_object [(''error'', json_quote msg)]"

text \<open>The response and the status, after the call if there is one.\<close>

definition createOperation ::
    "acme_cfg \<Rightarrow> 'w api \<Rightarrow> string \<Rightarrow> string \<Rightarrow> 'w \<Rightarrow> 'w \<times> acme_call list \<times> string \<times> int" where
  "createOperation cfg api key p w =
     (if ac_api_key cfg = '''' then (w, [], error_json ''ACME_API_KEY is not configured'', 503)
      else case ac_url_error cfg of Some e \<Rightarrow> (w, [], error_json e, 500)
      | None \<Rightarrow>
         (let body = submission_body cfg p; hdrs = submission_headers cfg key;
              (w', r) = api hdrs body w
          in (w', [SubmitOperation (ac_api_url cfg @ ''/v1/operations'') hdrs body],
              case r of ApiError e \<Rightarrow> (error_json e, 502)
              | ApiUndecodable code e \<Rightarrow> (error_json e, code)
              | ApiReply code text \<Rightarrow> (text, code))))"

definition submit :: "acme_cfg \<Rightarrow> 'w api \<Rightarrow> string \<Rightarrow> string \<Rightarrow> 'w acme_handler" where
  "submit cfg api key p h s =
     (let (w, cs, text, code) = createOperation cfg api key p (ac_world s)
      in (s\<lparr>ac_world := w\<rparr>, cs, JSON code (Responded text)))"

text \<open>\<open>u\<close> and \<open>us\<close> are the UUIDs the handlers draw.\<close>

definition normal :: "acme_cfg \<Rightarrow> 'w api \<Rightarrow> string \<Rightarrow> 'w acme_handler" where
  "normal cfg api u = submit cfg api (''normal-'' @ u)
     (json_object [(''action'', json_quote ''summarize''), (''mode'', json_quote ''normal''),
       (''ticket_id'', json_quote ''ACME-1001'')])"

text \<open>The query parameter \<open>count\<close>; the error of \<open>Atoi\<close> is ignored.\<close>

definition demo_count :: "int \<Rightarrow> string \<Rightarrow> int" where
  "demo_count fallback q =
     (let n = fst (atoi q); n = (if n \<le> 0 then fallback else n) in if n > 100 then 100 else n)"

definition burst_key :: "string \<Rightarrow> nat \<Rightarrow> string" where
  "burst_key u i = ''burst-'' @ u @ ''-'' @ itoa (int i)"

definition ticket_payload :: "string \<Rightarrow> string" where
  "ticket_payload ticket = json_object [(''mode'', json_quote ''normal''), (''ticket_id'', json_quote ticket)]"

fun burst_loop ::
    "acme_cfg \<Rightarrow> 'w api \<Rightarrow> (nat \<Rightarrow> string) \<Rightarrow> nat list \<Rightarrow> 'w \<Rightarrow> 'w \<times> acme_call list \<times> (int \<times> string) list" where
  "burst_loop cfg api us [] w = (w, [], [])"
| "burst_loop cfg api us (i # is) w =
     (let (w', c, text, code) = createOperation cfg api (burst_key (us i) i)
            (ticket_payload (''ACME-'' @ itoa (int i))) w;
          (w'', cs, rs) = burst_loop cfg api us is w'
      in (w'', c @ cs, (code, text) # rs))"

definition burst :: "acme_cfg \<Rightarrow> 'w api \<Rightarrow> (nat \<Rightarrow> string) \<Rightarrow> string \<Rightarrow> 'w acme_handler" where
  "burst cfg api us q h s =
     (let count = demo_count 25 q;
          (w, cs, rs) = burst_loop cfg api us [0..<nat count] (ac_world s)
      in (s\<lparr>ac_world := w\<rparr>, cs, JSON 202 (BurstBody count rs)))"

definition demo_key :: string where
  "demo_key = ''acme-fixed-idempotency-demo''"

definition idempotent_demo :: "acme_cfg \<Rightarrow> 'w api \<Rightarrow> 'w acme_handler" where
  "idempotent_demo cfg api h s =
     (let (w1, c1, first, a) = createOperation cfg api demo_key (ticket_payload ''ACME-IDEMPOTENT'') (ac_world s);
          (w2, c2, snd_text, b) = createOperation cfg api demo_key (ticket_payload ''ACME-IDEMPOTENT'') w1
      in (s\<lparr>ac_world := w2\<rparr>, c1 @ c2, JSON 200 (IdempotentBody a b first snd_text)))"

definition quota_payload :: "nat \<Rightarrow> string" where
  "quota_payload i = json_object [(''mode'', json_quote ''normal''), (''quota_test'', itoa (int i))]"

text \<open>The loop stops at the first rejection; it returns the accepted and the rejected count.\<close>

fun quota_loop ::
    "acme_cfg \<Rightarrow> 'w api \<Rightarrow> (nat \<Rightarrow> string) \<Rightarrow> nat list \<Rightarrow> 'w \<Rightarrow> 'w \<times> acme_call list \<times> int \<times> int" where
  "quota_loop cfg api us [] w = (w, [], 0, 0)"
| "quota_loop cfg api us (i # is) w =
     (let (w', c, text, code) = createOperation cfg api (us i) (quota_payload i) w
      in if code = 202 \<or> code = 200
         then (let (w'', cs, acc, rej) = quota_loop cfg api us is w' in (w'', c @ cs, acc + 1, rej))
         else (w', c, 0, 1))"

definition quotaExhaust :: "acme_cfg \<Rightarrow> 'w api \<Rightarrow> (nat \<Rightarrow> string) \<Rightarrow> string \<Rightarrow> 'w acme_handler" where
  "quotaExhaust cfg api us q h s =
     (let (w, cs, acc, rej) = quota_loop cfg api us [0..<nat (demo_count 20 q)] (ac_world s)
      in (s\<lparr>ac_world := w\<rparr>, cs, JSON 200 (QuotaBody (acc + rej) acc rej)))"

definition acme_config :: "environment \<Rightarrow> (string \<Rightarrow> string option) \<Rightarrow> acme_cfg" where
  "acme_config g url_error =
     (let url = (if g ''NEXORA_API_URL'' = '''' then ''http://localhost:8080'' else g ''NEXORA_API_URL'');
          target = (if g ''OPERATION_TARGET_URL'' = '''' then ''http://acme:8090/work''
                    else g ''OPERATION_TARGET_URL'')
      in \<lparr>ac_api_key = g ''ACME_API_KEY'', ac_api_url = url, ac_url_error = url_error url,
          ac_target_url = target, ac_webhook_secret = g ''ACME_WEBHOOK_SECRET''\<rparr>)"

end
