(* ===== verification/Demo.thy ===== *)
theory Demo
  imports Acme
begin

text \<open>
  Properties of the demonstration customer together with the services it talks to: the
  webhooks the dispatcher signs verify at the receiver and nothing else does, the loops of
  the client are bounded, and a repeated submission finds the first one.
\<close>

section \<open>Webhooks, from the dispatcher to the receiver\<close>

lemma hex_digit_inj: "a < 16 \<Longrightarrow> b < 16 \<Longrightarrow> hex_digit a = hex_digit b \<Longrightarrow> a = b"
proof -
  have "\<forall>x\<in>set [0..<16]. \<forall>y\<in>set [0..<16]. hex_digit x = hex_digit y \<longrightarrow> x = y" by code_simp
  then show "a < 16 \<Longrightarrow> b < 16 \<Longrightarrow> hex_digit a = hex_digit b \<Longrightarrow> a = b" by simp
qed

lemma hex_encode_Nil [simp]: "hex_encode [] = []"
  by (simp add: hex_encode_def)

lemma hex_encode_Cons:
  "hex_encode (c # s) = hex_digit (of_char c div 16) # hex_digit (of_char c mod 16) # hex_encode s"
  by (simp add: hex_encode_def Let_def)

lemma hex_encode_inj: "hex_encode s = hex_encode t \<Longrightarrow> s = t"
proof (induction s arbitrary: t)
  case Nil
  then show ?case by (cases t) (simp_all add: hex_encode_Cons)
next
  case (Cons a s)
  obtain b t' where t: "t = b # t'" using Cons.prems by (cases t) (simp_all add: hex_encode_Cons)
  have lt: "(of_char c :: nat) div 16 < 16" "(of_char c :: nat) mod 16 < 16" for c
    by (simp_all add: of_char_def less_mult_imp_div_less)
  have "(of_char a :: nat) div 16 = of_char b div 16" "(of_char a :: nat) mod 16 = of_char b mod 16"
    using Cons.prems lt by (auto simp: t hex_encode_Cons dest!: hex_digit_inj [rotated 2])
  then have "(of_char a :: nat) = of_char b" by (metis div_mult_mod_eq)
  then have "a = b" by (metis char_of_char)
  moreover have "s = t'" using Cons.prems by (intro Cons.IH) (simp add: t hex_encode_Cons)
  ultimately show ?case by (simp add: t)
qed

lemma acme_webhook_accepts:
  "acme_webhook cfg mac (Some body) h s = (s, [], NoContent 204) \<longleftrightarrow> ac_webhooks s \<and>
     (ac_webhook_secret cfg = '''' \<or> ValidHMAC mac (ac_webhook_secret cfg) body (hdr_get h ''X-Nexora-Signature''))"
  by (auto simp: acme_webhook_def ValidHMAC_def HMACSignature_def)

lemma batch_post:
  assumes "dispatchBatch n mac post locked no_faults d = (d', calls)" "PostWebhook url hs body \<in> set calls"
  shows "\<exists>e\<in>set (webhook_endpoints d). url = we_url e \<and>
    hdr_get hs ''X-Nexora-Signature'' = HMACSignature mac (we_secret e) body"
proof -
  from assms obtain x r where x: "url = dl_url x" "hs = webhook_headers mac x" "body = dl_payload x"
      and r: "delivery_of (webhook_endpoints d) r = Some x"
    by (auto simp: dispatchBatch_def pick_batch_def Let_def snd_deliver_all in_map_filter
        dest!: arg_cong [where f = snd])
  from r obtain e where "find_row (\<lambda>e. we_id e = wo_endpoint_id r) (webhook_endpoints d) = Some e"
      "dl_url x = we_url e" "dl_secret x = we_secret e"
    by (auto simp: delivery_of_def split: option.splits)
  then show ?thesis
    using x find_row_Some by (fastforce simp: webhook_signature signature_header_def HMACSignature_def)
qed

text \<open>
  C36: A delivered webhook verifies at its receiver and cannot be altered on the way. When the
  receiver knows the secret of its endpoint, every request a batch posts to it is accepted
  with 204; and under the same signature another body is accepted exactly when it has the
  same MAC, or the receiver has no secret set.
\<close>
theorem delivered_webhook_verifies:
  assumes "dispatchBatch n mac post locked no_faults d = (d', calls)"
    and "PostWebhook url hs body \<in> set calls" "ac_webhooks s"
    and "\<And>e. e \<in> set (webhook_endpoints d) \<Longrightarrow> we_url e = url \<Longrightarrow> we_secret e = ac_webhook_secret cfg"
  shows "acme_webhook cfg mac (Some body) hs s = (s, [], NoContent 204) \<and>
    (acme_webhook cfg mac (Some body2) hs s = (s, [], NoContent 204) \<longleftrightarrow>
      ac_webhook_secret cfg = '''' \<or> mac (ac_webhook_secret cfg) body2 = mac (ac_webhook_secret cfg) body)"
proof -
  from batch_post [OF assms(1,2)] assms(4)
  have sig: "hdr_get hs ''X-Nexora-Signature'' = HMACSignature mac (ac_webhook_secret cfg) body" by force
  show ?thesis
    unfolding acme_webhook_accepts sig
    using assms(3) by (auto simp: ValidHMAC_def HMACSignature_def dest: hex_encode_inj)
qed

definition sample_acme :: acme_cfg where
  "sample_acme = \<lparr>ac_api_key = ''nx'', ac_api_url = ''http://g'', ac_url_error = None,
     ac_target_url = ''http://acme:8090/work'', ac_webhook_secret = ''sssssssssssssssss''\<rparr>"

definition sample_acme_state :: "'w \<Rightarrow> 'w acme_state" where
  "sample_acme_state w = \<lparr>ac_webhooks = True, ac_requests = 0, ac_world = w\<rparr>"

theorem delivered_webhook_verifies_witness:
  "\<exists>hs. snd (dispatchBatch 5 (\<lambda>k m. k @ m) (\<lambda>x. HttpResponse 200 []) {} no_faults (sample_hooks ObPending 0)) =
     [PostWebhook ''http://hook'' hs ''{}''] \<and>
   acme_webhook sample_acme (\<lambda>k m. k @ m) (Some ''{}'') hs (sample_acme_state ()) =
     (sample_acme_state (), [], NoContent 204) \<and>
   acme_webhook sample_acme (\<lambda>k m. k @ m) (Some ''[]'') hs (sample_acme_state ()) \<noteq>
     (sample_acme_state (), [], NoContent 204)"
proof -
  let ?d = "sample_hooks ObPending 0" and ?mac = "\<lambda>k m. k @ m :: string"
  let ?b = "dispatchBatch 5 ?mac (\<lambda>x. HttpResponse 200 []) {} no_faults ?d"
  have b: "?b = (fst ?b, snd ?b)" by simp
  obtain hs where calls: "snd ?b = [PostWebhook ''http://hook'' hs ''{}'']"
    by (simp add: dispatchBatch_def pick_batch_def sample_hook_defs due_webhooks_def delivery_of_def
        List.map_filter_simps Let_def split_def snd_deliver_all deliver_def)
  then have mem: "PostWebhook ''http://hook'' hs ''{}'' \<in> set (snd ?b)" by simp
  have on: "ac_webhooks (sample_acme_state ())" by (simp add: sample_acme_state_def)
  have sec: "we_secret e = ac_webhook_secret sample_acme"
    if "e \<in> set (webhook_endpoints ?d)" "we_url e = ''http://hook''" for e
    using that by (simp add: sample_hook_defs sample_acme_def)
  from delivered_webhook_verifies [OF b mem on sec, of "''[]''"] calls show ?thesis
    by (auto simp: sample_acme_def)
qed

section \<open>The bounded loops of the client\<close>

lemma demo_count_range: "1 \<le> d \<Longrightarrow> d \<le> 100 \<Longrightarrow> 1 \<le> demo_count d q \<and> demo_count d q \<le> 100"
  by (simp add: demo_count_def Let_def)

lemma createOperation_calls:
  "createOperation cfg api key p w = (w', cs, tx, code) \<Longrightarrow>
     (ac_api_key cfg = '''' \<or> ac_url_error cfg \<noteq> None \<longrightarrow> cs = [] \<and> w' = w \<and> code \<in> {500, 503}) \<and>
     (ac_api_key cfg \<noteq> '''' \<and> ac_url_error cfg = None \<longrightarrow>
        cs = [SubmitOperation (ac_api_url cfg @ ''/v1/operations'') (submission_headers cfg key) (submission_body cfg p)])"
  by (auto simp: createOperation_def Let_def split_def split: option.splits if_splits)

text \<open>The loop stops at the first status that is neither 200 nor 202.\<close>

lemma quota_loop_stops:
  "quota_loop cfg api us ks w = (w', cs, acc, rej) \<Longrightarrow>
     0 \<le> acc \<and> rej \<in> {0, 1} \<and> (rej = 1 \<or> acc = int (length ks)) \<and> acc + rej \<le> int (length ks) \<and>
     int (length cs) \<le> acc + rej"
proof (induction ks arbitrary: w w' cs acc rej)
  case (Cons i ks)
  obtain w1 c tx code where co: "createOperation cfg api (us i) (quota_payload i) w = (w1, c, tx, code)"
    by (metis prod.collapse)
  have c: "length c \<le> 1" using createOperation_calls [OF co] by auto
  obtain w2 cs2 acc2 rej2 where rest: "quota_loop cfg api us ks w1 = (w2, cs2, acc2, rej2)"
    by (metis prod.collapse)
  show ?case
  proof (cases "code = 202 \<or> code = 200")
    case True
    with Cons.prems co rest have "acc = acc2 + 1" "rej = rej2" "cs = c @ cs2" by auto
    with Cons.IH [OF rest] c show ?thesis by auto
  next
    case False
    with Cons.prems co have "acc = 0" "rej = 1" "cs = c" by auto
    with c show ?thesis by auto
  qed
qed simp

text \<open>The suffix after the last hyphen is the index, so the keys of a burst never collide.\<close>

lemma itoa_nat_no_hyphen: "CHR ''-'' \<notin> set (itoa (int i))"
  by (simp add: itoa_def nat_digits_no)

lemma burst_key_inj: "burst_key u i = burst_key u' j \<Longrightarrow> i = j"
proof -
  assume "burst_key u i = burst_key u' j"
  then have "rev (itoa (int i)) @ CHR ''-'' # rev (''burst-'' @ u) =
      rev (itoa (int j)) @ CHR ''-'' # rev (''burst-'' @ u')"
    unfolding burst_key_def by (metis append.assoc append_Cons append_Nil rev.simps(2) rev_append)
  moreover have "CHR ''-'' \<notin> set (rev (itoa (int i)))" "CHR ''-'' \<notin> set (rev (itoa (int j)))"
    by (simp_all add: itoa_nat_no_hyphen)
  ultimately have "itoa (int i) = itoa (int j)" using split_unique by (metis rev_rev_ident)
  then show ?thesis by (auto dest: itoa_inj)
qed

fun submitted_key :: "acme_call \<Rightarrow> string" where
  "submitted_key (SubmitOperation u h b) = hdr_get h ''Idempotency-Key''"

lemma submission_key: "hdr_get (submission_headers cfg key) ''Idempotency-Key'' = key"
  by (simp add: submission_headers_def hdr_get_set)

lemma burst_loop_calls:
  assumes "ac_api_key cfg \<noteq> ''''" "ac_url_error cfg = None"
  shows "burst_loop cfg api us ks w = (w', cs, rs) \<Longrightarrow>
    map submitted_key cs = map (\<lambda>i. burst_key (us i) i) ks \<and> length rs = length ks"
proof (induction ks arbitrary: w w' cs rs)
  case (Cons i ks)
  obtain w1 c tx code where co: "createOperation cfg api (burst_key (us i) i)
      (ticket_payload (''ACME-'' @ itoa (int i))) w = (w1, c, tx, code)" by (metis prod.collapse)
  obtain w2 cs2 rs2 where rest: "burst_loop cfg api us ks w1 = (w2, cs2, rs2)" by (metis prod.collapse)
  from Cons.prems co rest have "cs = c @ cs2" "rs = (code, tx) # rs2" by auto
  with Cons.IH [OF rest] createOperation_calls [OF co] assms show ?case
    by (auto simp: submission_key)
qed simp

text \<open>
  The client's loops are bounded whatever the query and the API answer. A burst submits
  between 1 and 100 operations, one request each, under keys that are all different, and
  reports one result per request; the quota demonstration makes at most 100 attempts,
  counts at most one rejection, and stops with it.
\<close>
lemma client_loops_bounded:
  assumes "ac_api_key cfg \<noteq> ''''" "ac_url_error cfg = None"
    and "burst cfg api us q h s = (s1, cs1, r1)" "quotaExhaust cfg api us q h s = (s2, cs2, r2)"
  shows "(\<exists>rs. r1 = JSON 202 (BurstBody (demo_count 25 q) rs) \<and> length rs = nat (demo_count 25 q) \<and>
      length cs1 = nat (demo_count 25 q) \<and> distinct (map submitted_key cs1)) \<and>
    demo_count 25 q \<in> {1..100} \<and>
    (\<exists>acc rej. r2 = JSON 200 (QuotaBody (acc + rej) acc rej) \<and> 0 \<le> acc \<and> rej \<in> {0, 1} \<and>
      (rej = 1 \<or> acc = demo_count 20 q) \<and> acc + rej \<le> 100 \<and> int (length cs2) \<le> acc + rej)"
proof -
  obtain w rs where bl: "burst_loop cfg api us [0..<nat (demo_count 25 q)] (ac_world s) = (w, cs1, rs)"
    and r1: "r1 = JSON 202 (BurstBody (demo_count 25 q) rs)"
    using assms(3) by (auto simp: burst_def Let_def split_def prod_eq_iff)
  have keys: "map submitted_key cs1 = map (\<lambda>i. burst_key (us i) i) [0..<nat (demo_count 25 q)]"
    and len: "length rs = nat (demo_count 25 q)"
    using burst_loop_calls [OF assms(1,2) bl] by simp_all
  have "distinct (map submitted_key cs1)"
    unfolding keys by (auto simp: distinct_map inj_on_def dest: burst_key_inj)
  moreover have "length cs1 = nat (demo_count 25 q)" using arg_cong [OF keys, of length] by simp
  moreover obtain w2 acc rej where ql: "quota_loop cfg api us [0..<nat (demo_count 20 q)] (ac_world s) = (w2, cs2, acc, rej)"
    and r2: "r2 = JSON 200 (QuotaBody (acc + rej) acc rej)"
    using assms(4) by (auto simp: quotaExhaust_def Let_def split_def prod_eq_iff)
  moreover have "1 \<le> demo_count 20 q" "demo_count 20 q \<le> 100" using demo_count_range [of 20 q] by auto
  ultimately show ?thesis
    using quota_loop_stops [OF ql] r1 len demo_count_range [of 25 q] by auto
qed

lemma client_loops_bounded_witness:
  "length (fst (snd (burst sample_acme (\<lambda>h b w. ((), ApiReply 202 ''{}'')) (\<lambda>i. ''u'') ''3'' [] (sample_acme_state ())))) = 3"
proof -
  let ?api = "\<lambda>h b w. ((), ApiReply 202 ''{}'') :: unit \<times> api_result" and ?s = "sample_acme_state ()"
  have cfg: "ac_api_key sample_acme \<noteq> []" "ac_url_error sample_acme = None" by (simp_all add: sample_acme_def)
  obtain s1 cs1 r1 where b: "burst sample_acme ?api (\<lambda>i. ''u'') ''3'' [] ?s = (s1, cs1, r1)" by (metis prod.collapse)
  obtain s2 cs2 r2 where "quotaExhaust sample_acme ?api (\<lambda>i. ''u'') ''3'' [] ?s = (s2, cs2, r2)" by (metis prod.collapse)
  from client_loops_bounded [OF cfg b this] have "length cs1 = nat (demo_count 25 ''3'')" by blast
  moreover have "demo_count 25 ''3'' = 3" by code_simp
  ultimately show ?thesis by (simp add: b)
qed

section \<open>A repeated submission\<close>

text \<open>
  The API as the client sees it: the gateway puts the tenant of the key into the header, and
  the Operations service answers. \<open>bnd\<close> decodes the request body, \<open>enc\<close> encodes the reply,
  and \<open>ids\<close> draws the identifier of a new operation.
\<close>

fun api_reply :: "(body \<Rightarrow> string) \<Rightarrow> body reply \<Rightarrow> api_result" where
  "api_reply enc (JSON code b) = ApiReply code (enc b)"
| "api_reply enc (HTTPError code msg) = ApiReply code msg"
| "api_reply enc PlainError = ApiReply 500 ''internal server error''"
| "api_reply enc (NoContent code) = ApiUndecodable code ''EOF''"

definition operations_api ::
    "(string \<Rightarrow> createInput option) \<Rightarrow> (body \<Rightarrow> string) \<Rightarrow> (database \<Rightarrow> string) \<Rightarrow> clock \<Rightarrow> string \<Rightarrow> database api" where
  "operations_api bnd enc ids clk t hdr p d =
     (let (d', cs, r) = create clk (ids d) (bnd p) no_faults (hdr_set hdr TenantHeader t) d
      in (d', api_reply enc r))"

lemma create_errors:
  "create clk i bound f h d = (d', cs, HTTPError code msg) \<Longrightarrow> code \<in> {400, 402, 429}"
  by (auto simp: create_def Let_def store_operation_def split: option.splits sum.splits if_splits)

lemma store_operation_known_ok:
  assumes "r \<in> set (operations d)" "distinct (map idem_key (operations d))"
    and "j \<notin> op_id ` set (operations d)"
  shows "store_operation n j (op_tenant r) (idempotency_key r) inp no_faults d =
    (d, [], JSON 200 (OpBody (scanOperation r)))"
proof -
  have "find_row (\<lambda>x. op_tenant x = op_tenant r \<and> idempotency_key x = idempotency_key r) (operations d) = Some r"
    by (rule find_row_unique [where k = idem_key]) (use assms in \<open>auto simp: idem_key_def\<close>)
  from store_operation_known [OF _ assms(2) this, of j n inp no_faults] show ?thesis using assms by auto
qed

lemma create_then_repeat:
  assumes "create clk i bound no_faults h d = (d1, cs, JSON 202 b)" "i \<notin> op_id ` set (operations d)"
    and "distinct (map idem_key (operations d))" "j \<notin> op_id ` set (operations d1)"
  shows "create clk j bound no_faults h d1 = (d1, [], JSON 200 b) \<and>
    (\<exists>r. operations d1 = operations d @ [r] \<and> op_tenant r = hdr_get h TenantHeader \<and>
      check_key h = Inr (idempotency_key r))"
proof -
  let ?t = "hdr_get h TenantHeader"
  from assms(1) obtain raw inp idem tn where c: "bound = Some raw" "check_input raw = Inr inp"
      "check_key h = Inr idem" "find_row (\<lambda>x. tn_id x = ?t) (tenants d) = Some tn"
      "used_units clk ?t d < tn_monthly_quota tn" "int (running_count ?t d) < tn_concurrency_limit tn"
    and st: "store_operation (now clk) i ?t idem inp no_faults d = (d1, cs, JSON 202 b)"
    by (rule create_202)
  let ?r = "new_operation (now clk) i ?t idem inp"
  from st have new: "idem_key ?r \<notin> idem_key ` set (operations d)"
    and d1: "d1 = d\<lparr>operations := operations d @ [?r]\<rparr>" and b: "b = OpBody (scanOperation ?r)"
    using assms(2) unfolding store_operation_def insert_operation_def
    by (auto simp: put_operation_def insert_new_def find_row_append image_iff new_operation_def
        split: option.splits if_splits dest!: find_row_Some)
  have r: "op_tenant ?r = ?t" "idempotency_key ?r = idem" "status ?r = Pending"
    by (simp_all add: new_operation_def)
  have "store_operation (now clk) j ?t idem inp no_faults d1 = (d1, [], JSON 200 b)"
    using store_operation_known_ok [of ?r d1 j "now clk" inp] assms(3,4) new r by (simp add: d1 b)
  moreover have "running_count ?t d1 = running_count ?t d" "used_units clk ?t d1 = used_units clk ?t d"
      "tenants d1 = tenants d"
    using r by (simp_all add: d1 running_count_def used_units_def)
  ultimately have "create clk j bound no_faults h d1 = (d1, [], JSON 200 b)"
    using c by (simp add: create_def)
  moreover have "operations d1 = operations d @ [?r]" by (simp add: d1)
  ultimately show ?thesis using r c(3) by auto
qed

text \<open>
  The idempotency demonstration shows what it is meant to: run against the Operations
  service, when the first of its two submissions is accepted with 202, the second is
  answered 200 with the very same body, and the tenant has exactly one operation more.
\<close>
lemma idempotent_demo_exact:
  assumes "ac_api_key cfg \<noteq> ''''" "ac_url_error cfg = None"
    and "idempotent_demo cfg (operations_api bnd enc ids clk t) h s = (s', cs, JSON 200 (IdempotentBody 202 b x y))"
    and "\<And>d. ids d \<notin> op_id ` set (operations d)" "distinct (map idem_key (operations (ac_world s)))"
  shows "b = 200 \<and> y = x \<and> (\<exists>r. operations (ac_world s') = operations (ac_world s) @ [r] \<and>
    op_tenant r = t \<and> idempotency_key r = demo_key) \<and> length cs = 2"
proof -
  let ?d = "ac_world s" and ?h = "hdr_set (submission_headers cfg demo_key) TenantHeader t"
  let ?p = "submission_body cfg (ticket_payload ''ACME-IDEMPOTENT'')"
  obtain d1 cs1 r1 where c1: "create clk (ids ?d) (bnd ?p) no_faults ?h ?d = (d1, cs1, r1)" by (metis prod.collapse)
  obtain d2 cs2 r2 where c2: "create clk (ids d1) (bnd ?p) no_faults ?h d1 = (d2, cs2, r2)" by (metis prod.collapse)
  have demo: "ac_world s' = d2" "length cs = 2" "(case api_reply enc r1 of ApiError e \<Rightarrow> (error_json e, 502)
        | ApiUndecodable code e \<Rightarrow> (error_json e, code) | ApiReply code tx \<Rightarrow> (tx, code)) = (x, 202)"
      "(case api_reply enc r2 of ApiError e \<Rightarrow> (error_json e, 502)
        | ApiUndecodable code e \<Rightarrow> (error_json e, code) | ApiReply code tx \<Rightarrow> (tx, code)) = (y, b)"
    using assms(1-3) c1 c2
    by (auto simp: idempotent_demo_def createOperation_def operations_api_def Let_def split_def prod_eq_iff)
  obtain bd where r1: "r1 = JSON 202 bd" and x: "x = enc bd"
  proof (cases r1)
    case (NoContent code)
    with c1 show ?thesis
      by (auto simp: create_def Let_def store_operation_def split: option.splits sum.splits if_splits)
  qed (use demo(3) create_errors [of clk "ids ?d" "bnd ?p" no_faults ?h ?d d1 cs1] c1 that in auto)
  from create_then_repeat [OF c1 [unfolded r1] assms(4,5) assms(4)] c2 obtain r where
    r: "r2 = JSON 200 bd" "d2 = d1" "operations d1 = operations ?d @ [r]" "op_tenant r = hdr_get ?h TenantHeader"
      "check_key ?h = Inr (idempotency_key r)"
    by auto
  have "canonical_key ''Idempotency-Key'' \<noteq> canonical_key TenantHeader" by code_simp
  then have "hdr_get ?h ''Idempotency-Key'' = demo_key" by (simp add: hdr_get_set submission_key)
  moreover have "trim_space demo_key = demo_key \<and> demo_key \<noteq> [] \<and> length demo_key \<le> 200" by code_simp
  ultimately have "check_key ?h = Inr demo_key" by (simp add: check_key_def)
  then have "idempotency_key r = demo_key" "op_tenant r = t" using r by (simp_all add: hdr_get_set)
  with r demo x show ?thesis by auto
qed

text \<open>An identifier that is longer than every stored one.\<close>

definition longer_id :: "database \<Rightarrow> string" where
  "longer_id d = ''x'' @ concat (map op_id (operations d))"

lemma longer_id_fresh: "longer_id d \<notin> op_id ` set (operations d)"
proof
  assume "longer_id d \<in> op_id ` set (operations d)"
  then obtain r where r: "r \<in> set (operations d)" "longer_id d = op_id r" by blast
  have "op_id r \<in> set (map op_id (operations d))" using r(1) by simp
  then have "length (op_id r) \<le> length (concat (map op_id (operations d)))"
    by (auto simp: length_concat intro: member_le_sum_list)
  moreover have "length (longer_id d) = Suc (length (concat (map op_id (operations d))))"
    by (simp add: longer_id_def)
  ultimately show False using r(2) by simp
qed

lemma idempotent_demo_exact_witness:
  "\<exists>s' cs x r. idempotent_demo sample_acme (operations_api (\<lambda>p. Some sample_input) (\<lambda>b. ''op'') longer_id
      sample_clock ''t1'') [] (sample_acme_state (sample_db [])) = (s', cs, JSON 200 (IdempotentBody 202 200 x x)) \<and>
    operations (ac_world s') = [r]"
proof -
  let ?api = "operations_api (\<lambda>p. Some sample_input) (\<lambda>b. ''op'') longer_id sample_clock ''t1''"
  let ?s = "sample_acme_state (sample_db [])" and ?h = "hdr_set (submission_headers sample_acme demo_key) TenantHeader ''t1''"
  have h: "hdr_get ?h TenantHeader = ''t1''" "check_key ?h = Inr demo_key" by code_simp+
  have "\<exists>b. snd (snd (create sample_clock (longer_id (sample_db [])) (Some sample_input) no_faults ?h (sample_db []))) = JSON 202 b"
    by (simp add: create_def h sample_check Let_def sample_defs used_units_def running_count_def
        store_operation_def insert_operation_def put_operation_def insert_new_def new_operation_def longer_id_def)
  then obtain s' cs b x y where run: "idempotent_demo sample_acme ?api [] ?s = (s', cs, JSON 200 (IdempotentBody 202 b x y))"
    by (auto simp: idempotent_demo_def createOperation_def operations_api_def sample_acme_def
        sample_acme_state_def Let_def split_def)
  have cfg: "ac_api_key sample_acme \<noteq> ''''" "ac_url_error sample_acme = None" by (simp_all add: sample_acme_def)
  have "distinct (map idem_key (operations (ac_world ?s)))" by (simp add: sample_acme_state_def sample_defs)
  from idempotent_demo_exact [OF cfg run longer_id_fresh this] obtain r where
    "b = 200" "y = x" "operations (ac_world s') = operations (ac_world ?s) @ [r]" by blast
  moreover have "operations (ac_world ?s) = []" by (simp add: sample_acme_state_def sample_defs)
  ultimately show ?thesis using run by auto
qed

end
