(* ===== verification/Access.thy ===== *)
theory Access
  imports Schema Platform
begin

text \<open>
  \<open>cmd/access/main.go\<close>: users, tokens, API keys and tenants. The password hash (\<open>bcrypt\<close>),
  the token library and SHA-256 are parameters: \<open>mk\<close> hashes a password (with the salt it
  draws) and \<open>ok\<close> compares, \<open>sign\<close> and \<open>parse\<close> encode and check a token, \<open>sha\<close> digests.
\<close>

section \<open>Data\<close>

record claims =
  cl_tenant_id :: string
  cl_role :: string
  cl_subject :: string
  cl_issuer :: string
  cl_issued_at :: int
  cl_expires_at :: int

record demoTenant =
  dt_name :: string
  dt_slug :: string
  dt_monthly_quota :: int
  dt_concurrency_limit :: int
  dt_email :: string
  dt_password :: string
  dt_api_key_env :: string

record tenantInput =
  ti_name :: string
  ti_slug :: string
  ti_email :: string
  ti_password :: string
  ti_monthly_quota :: int
  ti_concurrency_limit :: int

datatype access_body =
  LoginBody string int string string
| PrincipalBody Principal
| KeyBody string string string string
| TenantBody string string string int int
| TenantList "tenant list"
| IdBody string

type_synonym access_handler = "(database, unit, access_body) handler"

section \<open>Login and verification\<close>

definition bearer :: "string \<Rightarrow> string" where
  "bearer value = (case split_two (CHR '' '') value of
      [scheme, rest] \<Rightarrow> if equal_fold scheme ''Bearer'' then rest else ''''
    | _ \<Rightarrow> '''')"

definition token_lifetime :: int where
  "token_lifetime = 8 * 3600 * second"

definition login_claims :: "int \<Rightarrow> string \<Rightarrow> user \<Rightarrow> claims" where
  "login_claims n t u = \<lparr>cl_tenant_id = t, cl_role = us_role u, cl_subject = us_id u,
     cl_issuer = ''nexora'', cl_issued_at = n, cl_expires_at = n + token_lifetime\<rparr>"

text \<open>
  \<open>login\<close>. A query that fails (0), or a row whose tenant is NULL, leaves the password hash
  empty, which no comparison accepts: the handler answers 401 before it looks at the error.
\<close>

definition login ::
    "(string \<Rightarrow> string \<Rightarrow> bool) \<Rightarrow> (string \<Rightarrow> claims \<Rightarrow> string option) \<Rightarrow> string \<Rightarrow> int \<Rightarrow>
     (string \<times> string) option \<Rightarrow> faults \<Rightarrow> access_handler" where
  "login ok sign secret n bound f h d =
     (case bound of None \<Rightarrow> (d, [], HTTPError 400 ''invalid JSON'')
      | Some (email, password) \<Rightarrow>
         (let row = (if f 0 then None
                else find_row (\<lambda>u. us_email u = to_lower (trim_space email)) (users d));
              scanned = (case row of None \<Rightarrow> None
                | Some u \<Rightarrow> map_option (\<lambda>t. (u, t)) (us_tenant_id u))
          in case scanned of
               None \<Rightarrow>
                 if \<not> f 0 \<and> row = None \<or> \<not> ok '''' password
                 then (d, [], HTTPError 401 ''invalid email or password'') else (d, [], PlainError)
             | Some (u, t) \<Rightarrow>
                 if \<not> ok (us_password_hash u) password
                 then (d, [], HTTPError 401 ''invalid email or password'')
                 else (case sign secret (login_claims n t u) of
                     None \<Rightarrow> (d, [], PlainError)
                   | Some token \<Rightarrow> (d, [], JSON 200 (LoginBody token 28800 t (us_role u))))))"

text \<open>
  \<open>verify\<close>: a bearer token decides alone; otherwise the API key is looked up by its hash, in
  the update that records its use (0).
\<close>

definition key_hash :: "(string \<Rightarrow> string) \<Rightarrow> string \<Rightarrow> string" where
  "key_hash sha key = hex_encode (sha key)"

definition verify ::
    "(string \<Rightarrow> string) \<Rightarrow> (string \<Rightarrow> string \<Rightarrow> int \<Rightarrow> string \<Rightarrow> claims option) \<Rightarrow> string \<Rightarrow> int \<Rightarrow> faults \<Rightarrow>
     access_handler" where
  "verify sha parse secret n f h d =
     (let raw = bearer (hdr_get h ''Authorization'') in
      if raw \<noteq> ''''
      then (case parse secret ''nexora'' n raw of
          None \<Rightarrow> (d, [], HTTPError 401 ''invalid token'')
        | Some cl \<Rightarrow> (d, [], JSON 200 (PrincipalBody
            \<lparr>pr_tenant_id = cl_tenant_id cl, pr_user_id = cl_subject cl, pr_role = cl_role cl\<rparr>)))
      else
        let key = trim_space (hdr_get h ''X-API-Key'') in
        if key = '''' then (d, [], HTTPError 401 ''credentials required'')
        else if f 0 then (d, [], PlainError)
        else
          let live = (\<lambda>k. ak_key_hash k = key_hash sha key \<and> ak_revoked_at k = None)
          in case find_row live (api_keys d) of
               None \<Rightarrow> (d, [], HTTPError 401 ''invalid API key'')
             | Some k \<Rightarrow>
                 (d\<lparr>api_keys := update_where live (\<lambda>k. k\<lparr>ak_last_used_at := Some n\<rparr>) (api_keys d)\<rparr>, [],
                  JSON 200 (PrincipalBody \<lparr>pr_tenant_id = ak_tenant_id k, pr_user_id = '''',
                    pr_role = ''service''\<rparr>)))"

section \<open>API keys\<close>

text \<open>\<open>base64.RawURLEncoding\<close>: 6 bits per character, no padding.\<close>

definition base64_char :: "nat \<Rightarrow> char" where
  "base64_char k = (if k < 26 then char_of (65 + k) else if k < 52 then char_of (71 + k)
     else if k < 62 then char_of (k - 4) else if k = 62 then CHR ''-'' else CHR ''_'')"

fun base64_raw :: "nat list \<Rightarrow> string" where
  "base64_raw (a # b # c # bs) =
     [base64_char (a div 4), base64_char (a mod 4 * 16 + b div 16),
      base64_char (b mod 16 * 4 + c div 64), base64_char (c mod 64)] @ base64_raw bs"
| "base64_raw [a, b] = [base64_char (a div 4), base64_char (a mod 4 * 16 + b div 16),
      base64_char (b mod 16 * 4)]"
| "base64_raw [a] = [base64_char (a div 4), base64_char (a mod 4 * 16)]"
| "base64_raw [] = []"

definition raw_api_key :: "string \<Rightarrow> string" where
  "raw_api_key secret_bytes = ''nx_live_'' @ base64_raw (map of_char secret_bytes)"

text \<open>
  The insert into \<open>access.api_keys\<close>: the hash is unique, the tenant and the primary key are
  checked by the table.
\<close>

definition createAPIKey ::
    "(string \<Rightarrow> string) \<Rightarrow> string option \<Rightarrow> string \<Rightarrow> string option \<Rightarrow> faults \<Rightarrow> access_handler" where
  "createAPIKey sha random i bound f h d =
     (let t = hdr_get h TenantHeader;
          name = (case bound of None \<Rightarrow> '''' | Some x \<Rightarrow> x);
          name = (if trim_space name = '''' then ''default'' else name)
      in case random of None \<Rightarrow> (d, [], PlainError)
         | Some bytes \<Rightarrow>
            (let raw = raw_api_key bytes; hash = key_hash sha raw; prefix = take 16 raw
             in if f 0 \<or> t \<notin> tn_id ` set (tenants d) \<or> hash \<in> ak_key_hash ` set (api_keys d) \<or>
                   i \<in> ak_id ` set (api_keys d)
                then (d, [], PlainError)
                else (d\<lparr>api_keys := api_keys d @ [\<lparr>ak_id = i, ak_tenant_id = t, ak_name = name,
                          ak_prefix = prefix, ak_key_hash = hash, ak_last_used_at = None,
                          ak_revoked_at = None\<rparr>]\<rparr>, [],
                      JSON 201 (KeyBody i name prefix raw))))"

section \<open>Tenants\<close>

definition getTenant :: "faults \<Rightarrow> access_handler" where
  "getTenant f h d =
     (let i = hdr_get h TenantHeader in
      case (if f 0 then None else find_row (\<lambda>x. tn_id x = i) (tenants d)) of
        None \<Rightarrow> (d, [], PlainError)
      | Some tn \<Rightarrow> (d, [], JSON 200 (TenantBody i (tn_name tn) (tn_slug tn) (tn_monthly_quota tn)
                      (tn_concurrency_limit tn))))"

definition listTenants :: "faults \<Rightarrow> access_handler" where
  "listTenants f h d =
     (if hdr_get h RoleHeader \<noteq> ''admin'' then (d, [], HTTPError 403 ''admin role required'')
      else if f 0 \<or> f 1 then (d, [], PlainError)
      else (d, [], JSON 200 (TenantList (sort_key (\<lambda>x. - tn_created_at x) (tenants d)))))"

text \<open>The inserts with the constraints of their tables.\<close>

definition insert_tenant :: "tenant \<Rightarrow> database \<Rightarrow> database option" where
  "insert_tenant tn d =
     (if tn_monthly_quota tn < 0 \<or> tn_concurrency_limit tn \<le> 0 \<or> tn_id tn \<in> tn_id ` set (tenants d) \<or>
         tn_slug tn \<in> tn_slug ` set (tenants d) then None
      else Some (d\<lparr>tenants := tenants d @ [tn]\<rparr>))"

definition insert_user :: "user \<Rightarrow> database \<Rightarrow> database option" where
  "insert_user u d =
     (if us_email u \<in> us_email ` set (users d) \<or> us_id u \<in> us_id ` set (users d) \<or>
         us_role u \<notin> {''customer'', ''admin''} \<or>
         (case us_tenant_id u of None \<Rightarrow> False | Some t \<Rightarrow> t \<notin> tn_id ` set (tenants d)) then None
      else Some (d\<lparr>users := users d @ [u]\<rparr>))"

text \<open>
  \<open>createTenant\<close>: begin (0), tenant (1), password hash (2), user (3), commit (4). \<open>mk\<close> gives
  no hash for a password it refuses.
\<close>

definition createTenant ::
    "(string \<Rightarrow> string option) \<Rightarrow> int \<Rightarrow> string \<Rightarrow> string \<Rightarrow> tenantInput option \<Rightarrow> faults \<Rightarrow> access_handler" where
  "createTenant mk n i ui bound f h d =
     (if hdr_get h RoleHeader \<noteq> ''admin'' then (d, [], HTTPError 403 ''admin role required'')
      else case bound of None \<Rightarrow> (d, [], HTTPError 400 ''invalid JSON'')
      | Some inp \<Rightarrow>
         if ti_name inp = '''' \<or> ti_slug inp = '''' \<or> ti_email inp = '''' \<or> length (ti_password inp) < 10
           then (d, [], HTTPError 400 ''name, slug, email and a 10+ character password are required'')
         else
           let quota = (if ti_monthly_quota inp = 0 then 10000 else ti_monthly_quota inp);
               limit = (if ti_concurrency_limit inp = 0 then 5 else ti_concurrency_limit inp)
           in if f 0 \<or> f 1 then (d, [], PlainError)
              else case insert_tenant \<lparr>tn_id = i, tn_name = ti_name inp, tn_slug = ti_slug inp,
                     tn_monthly_quota = quota, tn_concurrency_limit = limit, tn_created_at = n\<rparr> d of
                None \<Rightarrow> (d, [], PlainError)
              | Some d1 \<Rightarrow>
                 (case mk (ti_password inp) of None \<Rightarrow> (d, [], PlainError)
                  | Some hash \<Rightarrow>
                     if f 3 then (d, [], PlainError)
                     else case insert_user \<lparr>us_id = ui, us_tenant_id = Some i,
                            us_email = to_lower (ti_email inp), us_password_hash = hash,
                            us_role = ''customer''\<rparr> d1 of
                       None \<Rightarrow> (d, [], PlainError)
                     | Some d2 \<Rightarrow> if f 4 then (d, [], PlainError) else (d2, [], JSON 201 (IdBody i))))"

section \<open>Bootstrap\<close>

text \<open>
  \<open>INSERT ... ON CONFLICT(slug) DO UPDATE SET name ... RETURNING id\<close>, and the inserts of a user
  and of a key that a known email or hash ignores.
\<close>

definition upsert_tenant :: "tenant \<Rightarrow> database \<Rightarrow> (database \<times> string) option" where
  "upsert_tenant tn d =
     (case find_row (\<lambda>x. tn_slug x = tn_slug tn) (tenants d) of
        Some x \<Rightarrow> Some (d\<lparr>tenants := update_where (\<lambda>x. tn_slug x = tn_slug tn)
                        (\<lambda>x. x\<lparr>tn_name := tn_name tn\<rparr>) (tenants d)\<rparr>, tn_id x)
      | None \<Rightarrow> map_option (\<lambda>d'. (d', tn_id tn)) (insert_tenant tn d))"

definition put_user :: "user \<Rightarrow> database \<Rightarrow> database" where
  "put_user u d = d\<lparr>users := insert_new us_email u (users d)\<rparr>"

definition put_key :: "api_key \<Rightarrow> database \<Rightarrow> database" where
  "put_key k d = d\<lparr>api_keys := insert_new ak_key_hash k (api_keys d)\<rparr>"

interpretation user_store: keyed_store put_user users us_email
  by unfold_locales (auto simp: put_user_def insert_new_def)

interpretation key_store: keyed_store put_key api_keys ak_key_hash
  by unfold_locales (auto simp: put_key_def insert_new_def)

text \<open>
  The identifiers and the instant that one seeding draws.
\<close>

record seed_ids =
  sd_tenant :: string
  sd_user :: string
  sd_key :: string
  sd_now :: int

definition seed_user :: "seed_ids \<Rightarrow> string \<Rightarrow> string \<Rightarrow> string \<Rightarrow> string \<Rightarrow> user" where
  "seed_user g t email hash role = \<lparr>us_id = sd_user g, us_tenant_id = Some t, us_email = to_lower email,
     us_password_hash = hash, us_role = role\<rparr>"

definition demo_prefix :: "string \<Rightarrow> string" where
  "demo_prefix key = (if length key > 16 then take 16 key else key)"

definition seedDemoTenant ::
    "(string \<Rightarrow> string option) \<Rightarrow> (string \<Rightarrow> string) \<Rightarrow> (string \<Rightarrow> string) \<Rightarrow> seed_ids \<Rightarrow> demoTenant \<Rightarrow>
     database \<Rightarrow> database option" where
  "seedDemoTenant mk sha getenv g x d =
     (let apiKey = getenv (dt_api_key_env x) in
      if apiKey = '''' then Some d
      else case upsert_tenant \<lparr>tn_id = sd_tenant g, tn_name = dt_name x, tn_slug = dt_slug x,
             tn_monthly_quota = dt_monthly_quota x, tn_concurrency_limit = dt_concurrency_limit x,
             tn_created_at = sd_now g\<rparr> d of
        None \<Rightarrow> None
      | Some (d1, t) \<Rightarrow>
         (case mk (dt_password x) of None \<Rightarrow> None
          | Some hash \<Rightarrow> Some (put_key \<lparr>ak_id = sd_key g, ak_tenant_id = t, ak_name = ''local demo'',
               ak_prefix = demo_prefix apiKey, ak_key_hash = key_hash sha apiKey,
               ak_last_used_at = None, ak_revoked_at = None\<rparr>
               (put_user (seed_user g t (dt_email x) hash ''customer'') d1))))"

definition acme_tenant :: demoTenant where
  "acme_tenant = \<lparr>dt_name = ''Acme Support'', dt_slug = ''acme-support'', dt_monthly_quota = 10000,
     dt_concurrency_limit = 10, dt_email = ''ops@acme.test'', dt_password = ''AcmeDemo123!'',
     dt_api_key_env = ''ACME_API_KEY''\<rparr>"

definition lorem_tenant :: demoTenant where
  "lorem_tenant = \<lparr>dt_name = ''Lorem Ipsum'', dt_slug = ''lorem-ipsum'', dt_monthly_quota = 5000,
     dt_concurrency_limit = 5, dt_email = ''ops@lorem.test'', dt_password = ''LoremDemo123!'',
     dt_api_key_env = ''LOREM_API_KEY''\<rparr>"

text \<open>The three tenants are seeded one after the other; an error stops the service.\<close>

definition bootstrap ::
    "(string \<Rightarrow> string option) \<Rightarrow> (string \<Rightarrow> string) \<Rightarrow> (string \<Rightarrow> string) \<Rightarrow> string \<Rightarrow> string \<Rightarrow>
     (nat \<Rightarrow> seed_ids) \<Rightarrow> database \<Rightarrow> database option" where
  "bootstrap mk sha getenv email password g d =
     (case mk password of None \<Rightarrow> None
      | Some hash \<Rightarrow>
         (case upsert_tenant \<lparr>tn_id = sd_tenant (g 0), tn_name = ''Nexora Administration'',
                tn_slug = ''nexora-admin'', tn_monthly_quota = 10000, tn_concurrency_limit = 5,
                tn_created_at = sd_now (g 0)\<rparr> d of
            None \<Rightarrow> None
          | Some (d1, t) \<Rightarrow>
             (case seedDemoTenant mk sha getenv (g 1) acme_tenant
                     (put_user (seed_user (g 0) t email hash ''admin'') d1) of
                None \<Rightarrow> None
              | Some d2 \<Rightarrow> seedDemoTenant mk sha getenv (g 2) lorem_tenant d2)))"

end
