(* ===== verification/Outcomes.thy ===== *)
theory Outcomes
  imports Submission
begin

text \<open>
  The outcome of the remaining handlers of \<open>cmd/operations/main.go\<close>: cancellation, redrive
  and the list on every branch, the rejection of workers that do not hold the lease, and
  the isolation of tenants.
\<close>

section \<open>Cancellation\<close>

lemma find_own_row:
  "distinct (map op_id (operations d)) \<Longrightarrow> find_row (\<lambda>r. op_id r = i \<and> op_tenant r = t) (operations d) =
     (case lookup_op d i of None \<Rightarrow> None | Some r \<Rightarrow> if op_tenant r = t then Some r else None)"
proof -
  assume dist: "distinct (map op_id (operations d))"
  show ?thesis
  proof (cases "find_row (\<lambda>r. op_id r = i \<and> op_tenant r = t) (operations d)")
    case None
    then show ?thesis
      by (auto simp: find_row_None dest: lookup_op_Some split: option.split)
  next
    case (Some r)
    then have "r \<in> set (operations d)" "op_id r = i" "op_tenant r = t"
      by (auto dest: find_row_Some)
    with lookup_op_in [OF dist] Some show ?thesis by auto
  qed
qed

text \<open>
  Cancelling an operation of the tenant succeeds exactly when its status is not terminal:
  then the row is \<open>CANCELLED\<close> with its lease cleared and its version increased, and every
  other operation is as before. A terminal operation is answered 409, one that does not
  exist or belongs to another tenant 404, and then nothing changes. The statuses the SQL
  statement lists are thus exactly those that are not \<open>IsTerminal\<close>.
\<close>
lemma cancel_outcome:
  assumes "ops_inv d"
  shows "case lookup_op d i of
      None \<Rightarrow> cancel n i no_faults h d = (d, [], HTTPError 404 ''operation not found'')
    | Some r \<Rightarrow>
        if op_tenant r \<noteq> hdr_get h TenantHeader
          then cancel n i no_faults h d = (d, [], HTTPError 404 ''operation not found'')
        else if IsTerminal (status r)
          then cancel n i no_faults h d =
            (d, [], HTTPError 409 ''operation is already terminal or not cancellable'')
        else (\<exists>d'. cancel n i no_faults h d = (d', [], NoContent 204) \<and>
          lookup_op d' i = Some (r\<lparr>status := Cancelled, lease_owner := None,
            lease_expires_at := None, updated_at := n, version := version r + 1\<rparr>) \<and>
          (\<forall>j. j = i \<or> lookup_op d' j = lookup_op d j))"
proof -
  let ?t = "hdr_get h TenantHeader"
  let ?s = "cancel_stmt n i ?t"
  have dist: "distinct (map op_id (operations d))" using assms by (simp add: ops_inv_def)
  show ?thesis
  proof (cases "lookup_op d i")
    case None
    then have "exec_stmt ?s d = (d, 0)" by (intro cancelling.exec_miss dist) auto
    with None show ?thesis by (simp add: cancel_def find_own_row [OF dist])
  next
    case (Some r)
    have wf: "status r \<in> set statuses"
      using assms Some by (auto simp: ops_inv_def wf_row_def dest: lookup_op_Some)
    show ?thesis
    proof (cases "op_tenant r = ?t \<and> \<not> IsTerminal (status r)")
      case True
      have "st_where ?s r"
        using True wf lookup_op_Some [OF Some]
        by (auto simp: cancel_stmt_def IsTerminal_def statuses_def)
      from cancelling.exec_hit [OF dist Some this] have
        hit: "snd (exec_stmt ?s d) = 1" "lookup_op (fst (exec_stmt ?s d)) i = Some (st_set ?s r)"
          "\<forall>j. j \<noteq> i \<longrightarrow> lookup_op (fst (exec_stmt ?s d)) j = lookup_op d j"
        by auto
      have "cancel n i no_faults h d = (fst (exec_stmt ?s d), [], NoContent 204)"
        using hit(1) by (simp add: cancel_def Let_def split_def)
      with hit Some True show ?thesis by (auto simp: cancel_stmt_def row_defs)
    next
      case False
      then have "\<not> st_where ?s r" by (auto simp: cancel_stmt_def IsTerminal_def)
      then have "exec_stmt ?s d = (d, 0)"
        using Some by (intro cancelling.exec_miss dist) auto
      with Some False show ?thesis by (auto simp: cancel_def find_own_row [OF dist] Let_def)
    qed
  qed
qed

lemma cancel_outcome_witness:
  "ops_inv (sample_db [sample_op Running 1 (Some (''w'', 50))]) \<and>
   (\<exists>d'. cancel 9 ''op1'' no_faults sample_header (sample_db [sample_op Running 1 (Some (''w'', 50))]) =
     (d', [], NoContent 204))"
proof -
  let ?d = "sample_db [sample_op Running 1 (Some (''w'', 50))]"
  have inv: "ops_inv ?d" by (simp add: ops_inv_def sample_defs wf_row_def statuses_def)
  have row: "lookup_op ?d ''op1'' = Some (sample_op Running 1 (Some (''w'', 50)))"
    by (simp add: lookup_op_def sample_defs)
  have "op_tenant (sample_op Running 1 (Some (''w'', 50))) = hdr_get sample_header TenantHeader"
    "\<not> IsTerminal (status (sample_op Running 1 (Some (''w'', 50))))"
    by (simp_all add: sample_op_def sample_hdr IsTerminal_def)
  with cancel_outcome [OF inv, where i = "''op1''" and n = 9 and h = sample_header] inv show ?thesis
    by (auto simp: row)
qed

section \<open>Redrive\<close>

lemma redrive_find:
  assumes "distinct (map op_id (operations d))"
  shows "find_row (st_where (redrive_stmt n i t)) (operations d) =
    (case lookup_op d i of None \<Rightarrow> None
     | Some r \<Rightarrow> if st_where (redrive_stmt n i t) r then Some r else None)"
proof (cases "find_row (st_where (redrive_stmt n i t)) (operations d)")
  case None
  then show ?thesis by (auto simp: find_row_None dest: lookup_op_Some split: option.split)
next
  case (Some r)
  then have "r \<in> set (operations d)" "op_id r = i" "st_where (redrive_stmt n i t) r"
    by (auto dest!: find_row_Some dest: redriving.selects)
  with lookup_op_in [OF assms] Some show ?thesis by auto
qed

text \<open>
  A redrive of the tenant's failed or dead-lettered operation puts the row to
  \<open>RETRYING\<close> with its whole attempt budget back and its error cleared, answers 202 and
  starts one workflow for the renewed row under a name with a fresh suffix; for any other
  operation it answers 409, starts nothing and changes nothing.
\<close>
lemma redrive_outcome:
  assumes "ops_inv d"
  shows "if \<exists>r. lookup_op d i = Some r \<and> op_tenant r = hdr_get h TenantHeader \<and>
        status r \<in> {Failed, DeadLettered}
    then (\<exists>d' r'. redrive n u i no_faults h d =
        (d', [RunWorkflow (''redrive:'' @ i @ '':'' @ u) (scan_envelope r')],
         JSON 202 (Fields [(''id'', i), (''status'', ''RETRYING'')])) \<and>
      lookup_op d' i = Some r' \<and> status r' = Retrying \<and> attempt r' = 0 \<and>
      error_code r' = None \<and> error_message r' = None \<and>
      (\<forall>j. j = i \<or> lookup_op d' j = lookup_op d j))
    else redrive n u i no_faults h d = (d, [], HTTPError 409 ''operation is not redrivable'')"
proof -
  let ?t = "hdr_get h TenantHeader"
  let ?s = "redrive_stmt n i ?t"
  have dist: "distinct (map op_id (operations d))" using assms by (simp add: ops_inv_def)
  show ?thesis
  proof (cases "\<exists>r. lookup_op d i = Some r \<and> op_tenant r = ?t \<and> status r \<in> {Failed, DeadLettered}")
    case True
    then obtain r where r: "lookup_op d i = Some r" and sel: "st_where ?s r"
      using lookup_op_Some by (auto simp: redrive_stmt_def)
    from redriving.exec_hit [OF dist r sel] have
      hit: "lookup_op (fst (exec_stmt ?s d)) i = Some (st_set ?s r)"
        "\<forall>j. j \<noteq> i \<longrightarrow> lookup_op (fst (exec_stmt ?s d)) j = lookup_op d j"
      by auto
    have id: "env_operation_id (scan_envelope (st_set ?s r)) = i"
      using lookup_op_Some [OF r] by (simp add: scan_envelope_def redrive_stmt_def row_defs)
    have "redrive n u i no_faults h d = (fst (exec_stmt ?s d),
        [RunWorkflow (''redrive:'' @ i @ '':'' @ u) (scan_envelope (st_set ?s r))],
        JSON 202 (Fields [(''id'', i), (''status'', ''RETRYING'')]))"
      using r sel id by (simp add: redrive_def Let_def redrive_find [OF dist])
    moreover have "status (st_set ?s r) = Retrying \<and> attempt (st_set ?s r) = 0 \<and>
        error_code (st_set ?s r) = None \<and> error_message (st_set ?s r) = None"
      by (simp add: redrive_stmt_def row_defs)
    ultimately show ?thesis using True hit by auto
  next
    case False
    then have "\<not> st_where ?s r" if "lookup_op d i = Some r" for r
      using that lookup_op_Some [OF that] by (auto simp: redrive_stmt_def)
    then have "find_row (st_where ?s) (operations d) = None"
      by (simp add: redrive_find [OF dist] split: option.split)
    with False show ?thesis by (auto simp: redrive_def Let_def)
  qed
qed

lemma redrive_outcome_witness:
  "ops_inv (sample_db [sample_op DeadLettered 3 None]) \<and>
   (\<exists>d' env. redrive 9 ''u1'' ''op1'' no_faults sample_header (sample_db [sample_op DeadLettered 3 None]) =
     (d', [RunWorkflow ''redrive:op1:u1'' env],
      JSON 202 (Fields [(''id'', ''op1''), (''status'', ''RETRYING'')])))"
proof -
  let ?d = "sample_db [sample_op DeadLettered 3 None]"
  have inv: "ops_inv ?d" by (simp add: ops_inv_def sample_defs wf_row_def statuses_def)
  have row: "lookup_op ?d ''op1'' = Some (sample_op DeadLettered 3 None)"
    by (simp add: lookup_op_def sample_defs)
  have c: "\<exists>r. lookup_op ?d ''op1'' = Some r \<and> op_tenant r = hdr_get sample_header TenantHeader \<and>
      status r \<in> {Failed, DeadLettered}"
    by (simp add: row sample_hdr) (simp add: sample_op_def)
  from redrive_outcome [OF inv, where i = "''op1''" and n = 9 and h = sample_header and u = "''u1''", unfolded if_P [OF c]] inv
  show ?thesis by auto
qed

section \<open>Listing\<close>

lemma list_limit_bounds: "1 \<le> list_limit q \<and> list_limit q \<le> 100"
  by (simp add: list_limit_def Let_def)

lemma list_query_filter:
  "run_list_query (fst (list_query n t qs admin)) (snd (list_query n t qs admin)) rows =
     take (nat n) (sort_key (\<lambda>r. - created_at r)
       (filter (\<lambda>r. (admin \<or> op_tenant r = t) \<and> (qs = '''' \<or> status_string (status r) = qs)) rows))"
proof -
  have "(\<forall>c\<in>set (snd (list_query n t qs admin)). cond_holds (fst (list_query n t qs admin)) c r) \<longleftrightarrow>
      (admin \<or> op_tenant r = t) \<and> (qs = '''' \<or> status_string (status r) = qs)" for r
    by (cases admin; cases "qs = ''''") (auto simp: list_query_def cond_holds_def Let_def)
  moreover have "\<exists>as. fst (list_query n t qs admin) = ArgInt n # as"
    by (simp add: list_query_def Let_def)
  ultimately show ?thesis by (auto simp: run_list_query_def Let_def)
qed

text \<open>
  C34: The list route answers what its filters say and nothing of another tenant: the newest
  operations first, at most the limit (50 when the parameter is absent, out of range or not
  a number) and never more than 100, of the caller's own tenant unless the caller is an
  administrator, and of the requested status when one is given. The placeholders the query
  is assembled with always name their own argument.
\<close>
theorem list_exact:
  "list_ops ql qs no_faults h d = (d, [], JSON 200 (OpItems (map scanOperation
     (take (nat (list_limit ql)) (sort_key (\<lambda>r. - created_at r)
       (filter (\<lambda>r. (hdr_get h RoleHeader = ''admin'' \<or> op_tenant r = hdr_get h TenantHeader) \<and>
          (qs = '''' \<or> status_string (status r) = qs)) (operations d))))))) \<and>
   1 \<le> list_limit ql \<and> list_limit ql \<le> 100"
  using list_limit_bounds [of ql] by (simp add: list_ops_def Let_def split_def list_query_filter)

section \<open>Workers that do not hold the lease\<close>

text \<open>\<open>holds d i w\<close>: worker \<open>w\<close> holds the lease of the running operation \<open>i\<close>.\<close>

definition holds :: "database \<Rightarrow> string \<Rightarrow> string \<Rightarrow> bool" where
  "holds d i w = (\<exists>r\<in>set (operations d). op_id r = i \<and> status r = Running \<and> lease_owner r = Some w)"

lemma miss_exec: "(\<And>r. r \<in> set (operations d) \<Longrightarrow> \<not> st_where st r) \<Longrightarrow> exec_stmt st d = (d, 0)"
  by (simp add: exec_stmt_def update_where_id)

lemma not_holding:
  assumes "\<not> holds d i w"
  shows "exec_stmt (heartbeat_stmt n i w) d = (d, 0)" "exec_stmt (complete_stmt n i w res expl) d = (d, 0)"
    "exec_stmt (worker_heartbeat_stmt n i t w) d = (d, 0)"
    "find_row (st_where (worker_complete_stmt n i t w res expl)) (operations d) = None"
    "find_row (\<lambda>r. op_id r = i \<and> status r = Running \<and> lease_owner r = Some w) (operations d) = None"
    "find_row (\<lambda>r. op_id r = i \<and> op_tenant r = t \<and> status r = Running \<and> lease_owner r = Some w)
       (operations d) = None"
  using assms by (auto simp: holds_def find_row_None stmt_defs intro!: miss_exec)



end
