(* ===== verification/Isolation.thy ===== *)
theory Isolation
  imports Outcomes
begin

text \<open>
  Isolation of tenants: the public routes of the Operations service neither write an
  operation of a tenant other than the caller's nor, for a caller that is not an
  administrator, answer with one.
\<close>

section \<open>Writes\<close>

definition others :: "string \<Rightarrow> database \<Rightarrow> op_row list" where
  "others t d = filter (\<lambda>r. op_tenant r \<noteq> t) (operations d)"

lemma others_update:
  assumes "\<And>r. P r \<Longrightarrow> op_tenant r = t \<and> op_tenant (f r) = t"
  shows "filter (\<lambda>r. op_tenant r \<noteq> t) (update_where P f rs) = filter (\<lambda>r. op_tenant r \<noteq> t) rs"
  using assms by (induction rs) auto

lemma others_exec:
  assumes "\<And>r. st_where st r \<Longrightarrow> op_tenant r = t \<and> op_tenant (st_set st r) = t"
  shows "others t (fst (exec_stmt st d)) = others t d"
  using others_update [of "st_where st" t "st_set st"] assms by (simp add: others_def exec_stmt_def)

lemma others_own_stmts:
  "others t (fst (exec_stmt (cancel_stmt n i t) d)) = others t d"
  "others t (fst (exec_stmt (redrive_stmt n i t) d)) = others t d"
  "others t (fst (exec_stmt (claim_stmt n i w secs t) d)) = others t d"
  "others t (fst (exec_stmt (worker_heartbeat_stmt n i t w) d)) = others t d"
  "others t (fst (exec_stmt (worker_complete_stmt n i t w res expl) d)) = others t d"
  "others t (fst (exec_stmt (worker_fail_stmt n i t w st code msg expl) d)) = others t d"
  by (rule others_exec, simp add: stmt_defs row_defs)+

lemma others_insertEvent: "insertEvent n g key ty i t' p d = Some d' \<Longrightarrow> others t d' = others t d"
  by (auto simp: others_def dest: insertEvent_frame)

lemma others_claimOperation:
  assumes "t \<noteq> ''''"
  shows "others t (fst (claimOperation n i t w secs f d)) = others t d"
  using claimOperation_cases [of n i t w secs f d]
proof (elim disjE exE conjE)
  fix r
  assume "t \<noteq> '''' \<longrightarrow> op_tenant r = t"
    and eq: "claimOperation n i t w secs f d =
      (fst (exec_stmt (claim_stmt n i w secs (op_tenant r)) d), Some (op_tenant r, True))"
  then have "op_tenant r = t" using assms by simp
  then show ?thesis unfolding eq fst_conv by (simp add: others_own_stmts)
qed simp_all

lemma others_store: "others t (fst (store_operation n i t idem inp f d)) = others t d"
proof -
  have "others t d' = others t d" if "insert_operation (new_operation n i t idem inp) d = Some d'" for d'
    using that by (auto simp: insert_operation_def others_def put_operation_def insert_new_def
        new_operation_def split: if_splits)
  then show ?thesis by (auto simp: store_operation_def split: option.splits)
qed

lemma others_create:
  "others (hdr_get h TenantHeader) (fst (create clk i b f h d)) = others (hdr_get h TenantHeader) d"
  unfolding create_def Let_def by (auto split: option.splits sum.splits simp: others_store)

lemma others_workerComplete:
  "others (hdr_get h TenantHeader) (fst (workerComplete n g i b f h d)) =
     others (hdr_get h TenantHeader) d"
  unfolding workerComplete_def Let_def
  by (auto split: option.splits dest: others_insertEvent [where t = "hdr_get h TenantHeader"]
      simp: others_own_stmts)

lemma others_workerFail:
  "others (hdr_get h TenantHeader) (fst (workerFail n g i b f h d)) =
     others (hdr_get h TenantHeader) d"
  unfolding workerFail_def Let_def split_def
  by (auto split: option.splits dest: others_insertEvent [where t = "hdr_get h TenantHeader"]
      simp: others_own_stmts)

lemma others_poll_entries:
  "t \<noteq> '''' \<Longrightarrow> others t (fst (poll_entries n t w g k es d)) = others t d"
proof (induction es arbitrary: k d)
  case (Cons x es)
  obtain sid e where x: "x = (sid, e)" by (cases x)
  show ?case
    unfolding x poll_entries.simps Let_def split_def
    using Cons by (auto simp: add_call_def split_def others_claimOperation split: entry.splits option.splits)
qed simp

lemma others_workerPoll:
  "hdr_get h TenantHeader \<noteq> '''' \<Longrightarrow>
   others (hdr_get h TenantHeader) (fst (workerPoll n b cur xread g h d)) = others (hdr_get h TenantHeader) d"
  by (auto simp: workerPoll_def Let_def others_poll_entries
      split: option.splits cursor_reply.splits xread_reply.splits)

lemma public_writes:
  "others (hdr_get h TenantHeader) (fst (cancel n i f h d)) = others (hdr_get h TenantHeader) d"
  "others (hdr_get h TenantHeader) (fst (redrive n u i f h d)) = others (hdr_get h TenantHeader) d"
  "others (hdr_get h TenantHeader) (fst (workerHeartbeat n i hb f h d)) = others (hdr_get h TenantHeader) d"
proof -
  show "others (hdr_get h TenantHeader) (fst (cancel n i f h d)) = others (hdr_get h TenantHeader) d"
    unfolding cancel_def Let_def split_def by (auto split: option.split simp: others_own_stmts)
  show "others (hdr_get h TenantHeader) (fst (redrive n u i f h d)) = others (hdr_get h TenantHeader) d"
    unfolding redrive_def Let_def by (auto split: option.split simp: others_own_stmts)
  show "others (hdr_get h TenantHeader) (fst (workerHeartbeat n i hb f h d)) =
      others (hdr_get h TenantHeader) d"
    unfolding workerHeartbeat_def Let_def split_def by (auto simp: others_own_stmts)
qed

lemmas others_public = public_writes others_create others_workerPoll others_workerComplete others_workerFail

text \<open>
  C11: No public route writes an operation of another tenant: whatever the request, and
  whichever calls fail, the operations of the tenants other than the one in the request's
  tenant header are the same, row by row, after each of the seven writing routes.
\<close>
theorem tenant_isolation:
  "others (hdr_get h TenantHeader) (fst (RequireTenant (create clk i cb f) h d)) =
     others (hdr_get h TenantHeader) d \<and>
   others (hdr_get h TenantHeader) (fst (RequireTenant (cancel n i f) h d)) =
     others (hdr_get h TenantHeader) d \<and>
   others (hdr_get h TenantHeader) (fst (RequireTenant (redrive n u i f) h d)) =
     others (hdr_get h TenantHeader) d \<and>
   others (hdr_get h TenantHeader) (fst (RequireTenant (workerPoll n pb cur xread g) h d)) =
     others (hdr_get h TenantHeader) d \<and>
   others (hdr_get h TenantHeader) (fst (RequireTenant (workerHeartbeat n i hb f) h d)) =
     others (hdr_get h TenantHeader) d \<and>
   others (hdr_get h TenantHeader) (fst (RequireTenant (workerComplete n u i ob f) h d)) =
     others (hdr_get h TenantHeader) d \<and>
   others (hdr_get h TenantHeader) (fst (RequireTenant (workerFail n u i fb f) h d)) =
     others (hdr_get h TenantHeader) d"
  by (simp add: RequireTenant_def others_public)

section \<open>Reads\<close>

text \<open>The tenants whose operations a reply shows.\<close>

fun body_tenants :: "body \<Rightarrow> string list" where
  "body_tenants (OpBody op) = [o_tenant_id op]"
| "body_tenants (OpItems ops) = map o_tenant_id ops"
| "body_tenants (EnvelopeBody env) = [env_tenant_id env]"
| "body_tenants (Fields kvs) = []"

fun reply_tenants :: "body reply \<Rightarrow> string list" where
  "reply_tenants (JSON code b) = body_tenants b"
| "reply_tenants _ = []"

lemma scan_tenant [simp]: "o_tenant_id (scanOperation r) = op_tenant r"
  by (simp add: scanOperation_def)

lemma poll_reply_tenants:
  "set (reply_tenants (snd (snd (poll_entries n t w g k es d)))) \<subseteq> {t}"
proof (induction es arbitrary: k d)
  case (Cons x es)
  obtain sid e where x: "x = (sid, e)" by (cases x)
  show ?case
    unfolding x poll_entries.simps Let_def split_def
    using Cons by (auto simp: add_call_def split_def split: entry.splits option.splits)
qed simp

lemma own_replies:
  "set (reply_tenants (snd (snd (create clk i cb f h d)))) \<subseteq> {hdr_get h TenantHeader}"
  "set (reply_tenants (snd (snd (get_op i f h d)))) \<subseteq> {hdr_get h TenantHeader}"
  "hdr_get h RoleHeader \<noteq> ''admin'' \<Longrightarrow>
     set (reply_tenants (snd (snd (list_ops ql qs f h d)))) \<subseteq> {hdr_get h TenantHeader}"
  "set (reply_tenants (snd (snd (workerPoll n pb cur xread g h d)))) \<subseteq> {hdr_get h TenantHeader}"
proof -
  show "set (reply_tenants (snd (snd (create clk i cb f h d)))) \<subseteq> {hdr_get h TenantHeader}"
    unfolding create_def Let_def store_operation_def
    by (auto split: option.splits sum.splits dest!: find_row_Some)
  show "set (reply_tenants (snd (snd (get_op i f h d)))) \<subseteq> {hdr_get h TenantHeader}"
    unfolding get_op_def by (auto split: option.splits dest!: find_row_Some)
  show "set (reply_tenants (snd (snd (list_ops ql qs f h d)))) \<subseteq> {hdr_get h TenantHeader}"
    if "hdr_get h RoleHeader \<noteq> ''admin''"
    using that by (auto simp: list_ops_def Let_def split_def list_query_filter dest!: in_set_takeD)
  show "set (reply_tenants (snd (snd (workerPoll n pb cur xread g h d)))) \<subseteq> {hdr_get h TenantHeader}"
    using poll_reply_tenants
    by (auto simp: workerPoll_def Let_def split: option.splits cursor_reply.splits xread_reply.splits)
qed

text \<open>The other public routes answer with no operation.\<close>

lemma no_replies:
  "reply_tenants (snd (snd (cancel n i f h d))) = []"
  "reply_tenants (snd (snd (redrive n u i f h d))) = []"
  "reply_tenants (snd (snd (workerHeartbeat n i hb f h d))) = []"
  "reply_tenants (snd (snd (workerComplete n u i ob f h d))) = []"
  "reply_tenants (snd (snd (workerFail n u i fb f h d))) = []"
proof -
  show "reply_tenants (snd (snd (cancel n i f h d))) = []"
    unfolding cancel_def Let_def split_def by (auto split: option.split)
  show "reply_tenants (snd (snd (redrive n u i f h d))) = []"
    unfolding redrive_def Let_def split_def by (auto split: option.split)
  show "reply_tenants (snd (snd (workerHeartbeat n i hb f h d))) = []"
    unfolding workerHeartbeat_def Let_def split_def by auto
  show "reply_tenants (snd (snd (workerComplete n u i ob f h d))) = []"
    unfolding workerComplete_def Let_def split_def by (auto split: option.split)
  show "reply_tenants (snd (snd (workerFail n u i fb f h d))) = []"
    unfolding workerFail_def Let_def split_def by (auto split: option.split)
qed

text \<open>
  C12: No public route answers with an operation of another tenant: what a caller that is not
  an administrator is shown by a submission, a lookup, a list or a poll belongs to the
  tenant in its request's tenant header.
\<close>
theorem tenant_confidential:
  assumes "hdr_get h RoleHeader \<noteq> ''admin''"
  shows "set (reply_tenants (snd (snd (create clk i cb f h d)))) \<subseteq> {hdr_get h TenantHeader} \<and>
    set (reply_tenants (snd (snd (get_op i f h d)))) \<subseteq> {hdr_get h TenantHeader} \<and>
    set (reply_tenants (snd (snd (list_ops ql qs f h d)))) \<subseteq> {hdr_get h TenantHeader} \<and>
    set (reply_tenants (snd (snd (workerPoll n pb cur xread g h d)))) \<subseteq> {hdr_get h TenantHeader}"
  using own_replies assms by simp

theorem tenant_confidential_witness:
  "hdr_get sample_header RoleHeader \<noteq> ''admin'' \<and>
   set (reply_tenants (snd (snd (get_op ''op1'' no_faults sample_header
     (sample_db [sample_op Pending 0 None]))))) \<subseteq> {''t1''}"
proof -
  have "hdr_get sample_header RoleHeader \<noteq> ''admin''" by code_simp
  from this tenant_confidential [OF this] show ?thesis by (simp add: sample_hdr)
qed

end
