(* ===== verification/Services.thy ===== *)
theory Services
  imports Webhooks Access Isolation
begin

text \<open>
  The routes the three services register in their \<open>main\<close> functions, each request with the
  values its handler draws or binds, and the guard in front of every route: the tenant
  header on the public routes, the internal secret on the internal ones.
\<close>

section \<open>Operations\<close>

datatype op_request =
  OpCreate clock string "createInput option" faults
| OpList string string faults
| OpGet string faults
| OpCancel int string faults
| OpRedrive int string string faults
| OpPoll int "string option" cursor_reply "stream_id \<Rightarrow> xread_reply" "nat \<Rightarrow> faults"
| OpWorkerHeartbeat int string "string option" faults
| OpWorkerComplete int string string "completeInput option" faults
| OpWorkerFail int string string "failInput option" faults

datatype op_internal =
  OpClaim int string "(string \<times> int) option" faults
| OpHeartbeat int string "string option" faults
| OpComplete int string "completeInput option" faults
| OpFail int string "failInput option" faults
| OpGetInternal string faults

fun op_public :: "op_request \<Rightarrow> op_handler" where
  "op_public (OpCreate clk i b f) = RequireTenant (create clk i b f)"
| "op_public (OpList ql qs f) = RequireTenant (list_ops ql qs f)"
| "op_public (OpGet i f) = RequireTenant (get_op i f)"
| "op_public (OpCancel n i f) = RequireTenant (cancel n i f)"
| "op_public (OpRedrive n u i f) = RequireTenant (redrive n u i f)"
| "op_public (OpPoll n b cur xread g) = RequireTenant (workerPoll n b cur xread g)"
| "op_public (OpWorkerHeartbeat n i b f) = RequireTenant (workerHeartbeat n i b f)"
| "op_public (OpWorkerComplete n g i b f) = RequireTenant (workerComplete n g i b f)"
| "op_public (OpWorkerFail n g i b f) = RequireTenant (workerFail n g i b f)"

fun op_private :: "string \<Rightarrow> op_internal \<Rightarrow> op_handler" where
  "op_private secret (OpClaim n i b f) = RequireInternal secret (claim n i b f)"
| "op_private secret (OpHeartbeat n i b f) = RequireInternal secret (heartbeat n i b f)"
| "op_private secret (OpComplete n i b f) = RequireInternal secret (complete n i b f)"
| "op_private secret (OpFail n i b f) = RequireInternal secret (fail n i b f)"
| "op_private secret (OpGetInternal i f) = RequireInternal secret (getInternal i f)"

section \<open>Access\<close>

record access_env =
  ae_sha :: "string \<Rightarrow> string"
  ae_check :: "string \<Rightarrow> string \<Rightarrow> bool"
  ae_hash :: "string \<Rightarrow> string option"
  ae_sign :: "string \<Rightarrow> claims \<Rightarrow> string option"
  ae_parse :: "string \<Rightarrow> string \<Rightarrow> int \<Rightarrow> string \<Rightarrow> claims option"
  ae_jwt_secret :: string
  ae_internal_secret :: string

datatype access_request =
  AcLogin int "(string \<times> string) option" faults
| AcVerify int faults
| AcCreateKey "string option" string "string option" faults
| AcTenant faults
| AcListTenants faults
| AcCreateTenant int string string "tenantInput option" faults

fun access_serve :: "access_env \<Rightarrow> access_request \<Rightarrow> access_handler" where
  "access_serve env (AcLogin n b f) = login (ae_check env) (ae_sign env) (ae_jwt_secret env) n b f"
| "access_serve env (AcVerify n f) = RequireInternal (ae_internal_secret env)
     (verify (ae_sha env) (ae_parse env) (ae_jwt_secret env) n f)"
| "access_serve env (AcCreateKey bytes i b f) = RequireTenant (createAPIKey (ae_sha env) bytes i b f)"
| "access_serve env (AcTenant f) = RequireTenant (getTenant f)"
| "access_serve env (AcListTenants f) = RequireTenant (listTenants f)"
| "access_serve env (AcCreateTenant n i ui b f) = RequireTenant (createTenant (ae_hash env) n i ui b f)"

section \<open>Usage\<close>

text \<open>The event stream is the subscription; its frames are \<open>receive\<close> and \<open>keepalive\<close>.\<close>

datatype usage_request =
  UsGet clock faults
| UsEvents
| UsListWebhooks faults
| UsCreateWebhook int string "(string \<times> string) option" faults
| UsDeleteWebhook string faults
| UsAdmin clock faults
| UsRecord "OperationEvent \<Rightarrow> string" int "endpoint_row \<Rightarrow> string" "OperationEvent option" faults

definition events :: usage_handler where
  "events h s = (s\<lparr>us_subs := subscribe (hdr_get h TenantHeader) (us_subs s)\<rparr>, [], NoContent 200)"

fun usage_serve :: "string \<Rightarrow> usage_request \<Rightarrow> usage_handler" where
  "usage_serve secret (UsGet clk f) = RequireTenant (getUsage clk f)"
| "usage_serve secret UsEvents = RequireTenant events"
| "usage_serve secret (UsListWebhooks f) = RequireTenant (listWebhooks f)"
| "usage_serve secret (UsCreateWebhook n i b f) = RequireTenant (createWebhook n i b f)"
| "usage_serve secret (UsDeleteWebhook i f) = RequireTenant (deleteWebhook i f)"
| "usage_serve secret (UsAdmin clk f) = RequireTenant (adminUsage clk f)"
| "usage_serve secret (UsRecord enc n g b f) = RequireInternal secret (recordEvent enc n g b f)"

section \<open>Guards\<close>

definition no_tenant :: "'s \<Rightarrow> 's \<times> 'e list \<times> 'b reply" where
  "no_tenant s = (s, [], HTTPError 401 ''tenant context missing'')"

definition not_internal :: "'s \<Rightarrow> 's \<times> 'e list \<times> 'b reply" where
  "not_internal s = (s, [], HTTPError 401 ''invalid internal credentials'')"

text \<open>
  Every route but the login is guarded: without a tenant header each public route of the
  three services answers 401, and without the internal secret (or with no secret set) each
  internal route does, and then nothing is read, written or called.
\<close>
lemma routes_guarded:
  assumes "hdr_get h TenantHeader = ''''"
    and "secret = '''' \<or> hdr_get h ''X-Internal-Secret'' \<noteq> secret"
  shows "op_public q h d = no_tenant d \<and> op_private secret qi h d = not_internal d \<and>
    (case qu of UsRecord enc n g b f \<Rightarrow> usage_serve secret qu h u = not_internal u
       | _ \<Rightarrow> usage_serve secret qu h u = no_tenant u) \<and>
    (case qa of AcLogin n b f \<Rightarrow> True
       | AcVerify n f \<Rightarrow> access_serve (env\<lparr>ae_internal_secret := secret\<rparr>) qa h d = not_internal d
       | _ \<Rightarrow> access_serve (env\<lparr>ae_internal_secret := secret\<rparr>) qa h d = no_tenant d)"
proof -
  have "op_public q h d = no_tenant d"
    using assms(1) by (cases q) (simp_all add: RequireTenant_def no_tenant_def)
  moreover have "op_private secret qi h d = not_internal d"
    using assms(2) by (cases qi) (simp_all add: RequireInternal_def not_internal_def)
  ultimately show ?thesis
    using assms by (auto simp: RequireTenant_def RequireInternal_def no_tenant_def not_internal_def
        split: usage_request.split access_request.split)
qed

lemma routes_guarded_witness:
  "op_private ''s'' (OpGetInternal ''op1'' no_faults) [(''X-Internal-Secret'', [''guess''])] (sample_db []) =
     not_internal (sample_db [])"
proof -
  have "hdr_get [(''X-Internal-Secret'', [''guess''])] TenantHeader = ''''"
    "''s'' = '''' \<or> hdr_get [(''X-Internal-Secret'', [''guess''])] ''X-Internal-Secret'' \<noteq> ''s''" by code_simp+
  from routes_guarded [OF this] show ?thesis by blast
qed

end
