(* ===== verification/Delivery.thy ===== *)
theory Delivery
  imports Isolation
begin

text \<open>
  How a submitted operation reaches a worker: the workflow publishes it, a poll or a claim
  gives it to exactly one worker, and no claimable operation is skipped by the cursor as
  long as the query of its status works.
\<close>

section \<open>Publishing\<close>

lemma publish_step_calls:
  "env_operation_id env \<in> op_id ` set (operations d) \<Longrightarrow> publish_step n no_faults env d =
     (d\<lparr>transition_log := transition_log d @ [enqueue_log n env]\<rparr>, [XAdd env], Some (env_operation_id env))"
  by (simp add: publish_step_def Let_def)

lemma lookup_log [simp]: "lookup_op (d\<lparr>transition_log := l\<rparr>) i = lookup_op d i"
  by (simp add: lookup_op_def)

lemma lookup_image: "lookup_op d i = Some r \<Longrightarrow> i \<in> op_id ` set (operations d)"
  by (auto dest!: lookup_op_Some)

text \<open>
  The workflow step publishes an operation exactly when it waits for a worker. For a
  \<open>PENDING\<close> or \<open>RETRYING\<close> operation the row becomes \<open>QUEUED\<close>, for a \<open>QUEUED\<close> one (the step
  executed again) the row stays; both append one entry to the log and put the envelope
  into the stream once. For an operation that is running or finished nothing is written and
  nothing is published, and the step still succeeds.
\<close>
theorem enqueue_outcome:
  assumes "ops_inv d" "lookup_op d (env_operation_id env) = Some r"
  shows "\<exists>d'. enqueueOperationStep n no_faults env d =
      (d', if status r \<in> {Pending, Retrying, Queued} then [XAdd env] else [], Some (env_operation_id env)) \<and>
    lookup_op d' (env_operation_id env) = Some (if status r \<in> {Pending, Retrying}
      then r\<lparr>status := Queued, updated_at := n, version := version r + 1\<rparr> else r) \<and>
    transition_log d' = transition_log d @
      (if status r \<in> {Pending, Retrying, Queued} then [enqueue_log n env] else [])"
proof -
  let ?i = "env_operation_id env"
  let ?s = "enqueue_stmt n ?i"
  have dist: "distinct (map op_id (operations d))" using assms(1) by (simp add: ops_inv_def)
  show ?thesis
  proof (cases "status r \<in> {Pending, Retrying}")
    case True
    then have "st_where ?s r" using lookup_op_Some [OF assms(2)] by (auto simp: enqueue_stmt_def)
    from enqueue.exec_hit [OF dist assms(2) this] have
      hit: "snd (exec_stmt ?s d) = 1" "lookup_op (fst (exec_stmt ?s d)) ?i = Some (st_set ?s r)"
      by auto
    from lookup_image [OF hit(2)] hit(1) have "enqueueOperationStep n no_faults env d =
        (fst (exec_stmt ?s d)\<lparr>transition_log := transition_log d @ [enqueue_log n env]\<rparr>,
         [XAdd env], Some ?i)"
      by (simp add: enqueueOperationStep_def split_def publish_step_calls enqueue.frame_exec)
    with True hit(2) show ?thesis by (auto simp: enqueue_stmt_def row_defs)
  next
    case False
    then have "exec_stmt ?s d = (d, 0)"
      using assms(2) by (intro enqueue.exec_miss dist) (auto simp: enqueue_stmt_def)
    then have "enqueueOperationStep n no_faults env d =
        (if status r \<noteq> Queued then (d, [], Some ?i) else publish_step n no_faults env d)"
      using assms(2) by (simp add: enqueueOperationStep_def lookup_op_def [symmetric])
    with False lookup_image [OF assms(2)] assms(2) show ?thesis
      by (auto simp: publish_step_calls)
  qed
qed

theorem enqueue_outcome_witness:
  "ops_inv (sample_db [sample_op Retrying 1 None]) \<and>
   (\<exists>d'. enqueueOperationStep 9 no_faults (scan_envelope (sample_op Retrying 1 None))
      (sample_db [sample_op Retrying 1 None]) =
      (d', [XAdd (scan_envelope (sample_op Retrying 1 None))], Some ''op1''))"
proof -
  let ?d = "sample_db [sample_op Retrying 1 None]" and ?env = "scan_envelope (sample_op Retrying 1 None)"
  have inv: "ops_inv ?d" by (simp add: ops_inv_def sample_defs wf_row_def statuses_def)
  have row: "lookup_op ?d (env_operation_id ?env) = Some (sample_op Retrying 1 None)"
    by (simp add: lookup_op_def sample_defs scan_envelope_def)
  have "status (sample_op Retrying 1 None) = Retrying" "env_operation_id ?env = ''op1''"
    by (simp_all add: sample_op_def scan_envelope_def)
  with enqueue_outcome [OF inv row, of 9] inv show ?thesis by auto
qed

section \<open>Claiming\<close>

lemma claim_result:
  assumes "ops_inv d" "lookup_op d i = Some r" "ex \<in> {'''', op_tenant r}"
    and "find_row (\<lambda>x. tn_id x = op_tenant r) (tenants d) = Some tn"
  shows "if status r \<in> {Queued, Retrying} \<and> int (running_count (op_tenant r) d) < tn_concurrency_limit tn
    then (\<exists>d'. claimOperation n i ex w secs no_faults d = (d', Some (op_tenant r, True)) \<and>
      lookup_op d' i = Some (r\<lparr>status := Running, attempt := attempt r + 1, lease_owner := Some w,
        lease_expires_at := Some (n + secs * second), updated_at := n, version := version r + 1\<rparr>) \<and>
      (\<forall>j. j = i \<or> lookup_op d' j = lookup_op d j))
    else (\<exists>t. claimOperation n i ex w secs no_faults d = (d, Some (t, False)))"
proof -
  let ?P = "\<lambda>x. op_id x = i \<and> (ex \<noteq> '''' \<longrightarrow> op_tenant x = ex) \<and> status x \<in> {Queued, Retrying}"
  let ?s = "claim_stmt n i w secs (op_tenant r)"
  have dist: "distinct (map op_id (operations d))" using assms(1) by (simp add: ops_inv_def)
  note r = lookup_op_Some [OF assms(2)]
  show ?thesis
  proof (cases "status r \<in> {Queued, Retrying}")
    case False
    have "\<not> ?P x" if "x \<in> set (operations d)" for x
      using distinct_map_eq [OF dist that, of r] r False by auto
    then have none: "find_row ?P (operations d) = None" unfolding find_row_None by blast
    have "claimOperation n i ex w secs no_faults d = (d, Some ('''', False))"
      unfolding claimOperation_def none by simp
    with False show ?thesis by auto
  next
    case True
    have some: "find_row ?P (operations d) = Some r"
      by (rule find_row_unique [where k = op_id]) (use dist r True assms(3) in auto)
    have "st_where ?s r" using True r by (auto simp: claim_stmt_def)
    from claiming.exec_hit [OF dist assms(2) this] have
      hit: "snd (exec_stmt ?s d) = 1" "lookup_op (fst (exec_stmt ?s d)) i = Some (st_set ?s r)"
        "\<forall>j. j \<noteq> i \<longrightarrow> lookup_op (fst (exec_stmt ?s d)) j = lookup_op d j"
      by auto
    have "claimOperation n i ex w secs no_faults d =
        (if int (running_count (op_tenant r) d) \<ge> tn_concurrency_limit tn
         then (d, Some (op_tenant r, False)) else (fst (exec_stmt ?s d), Some (op_tenant r, True)))"
      unfolding claimOperation_def some using assms(4) hit(1) by (simp add: Let_def split_def)
    with True hit show ?thesis by (auto simp: claim_stmt_def row_defs)
  qed
qed

text \<open>
  A claim succeeds exactly when the operation waits for a worker and its tenant runs
  fewer operations than its limit. Then, and only then, the row changes: it is \<open>RUNNING\<close>
  with one more attempt, leased to the claiming worker until the given number of seconds
  from now; every other operation is as before.
\<close>
lemma claim_exact:
  assumes "ops_inv d" "lookup_op d i = Some r" "ex \<in> {'''', op_tenant r}"
    and "find_row (\<lambda>x. tn_id x = op_tenant r) (tenants d) = Some tn"
  shows "if status r \<in> {Queued, Retrying} \<and> int (running_count (op_tenant r) d) < tn_concurrency_limit tn
    then (\<exists>d'. claimOperation n i ex w secs no_faults d = (d', Some (op_tenant r, True)) \<and>
      lookup_op d' i = Some (r\<lparr>status := Running, attempt := attempt r + 1, lease_owner := Some w,
        lease_expires_at := Some (n + secs * second), updated_at := n, version := version r + 1\<rparr>) \<and>
      (\<forall>j. j = i \<or> lookup_op d' j = lookup_op d j))
    else (\<exists>t. claimOperation n i ex w secs no_faults d = (d, Some (t, False)))"
  using assms by (rule claim_result)

lemma claim_exact_witness:
  "ops_inv (sample_db [sample_op Queued 0 None]) \<and>
   (\<exists>d'. claimOperation 9 ''op1'' ''t1'' ''w'' 45 no_faults (sample_db [sample_op Queued 0 None]) =
     (d', Some (''t1'', True)))"
proof -
  let ?d = "sample_db [sample_op Queued 0 None]"
  have inv: "ops_inv ?d" by (simp add: ops_inv_def sample_defs wf_row_def statuses_def)
  have row: "lookup_op ?d ''op1'' = Some (sample_op Queued 0 None)"
    by (simp add: lookup_op_def sample_defs)
  have ex: "''t1'' \<in> {'''', op_tenant (sample_op Queued 0 None)}" by (simp add: sample_op_def)
  have tn: "find_row (\<lambda>x. tn_id x = op_tenant (sample_op Queued 0 None)) (tenants ?d) = Some sample_tenant"
    by (simp add: sample_defs)
  have c: "status (sample_op Queued 0 None) \<in> {Queued, Retrying} \<and>
      int (running_count (op_tenant (sample_op Queued 0 None)) ?d) < tn_concurrency_limit sample_tenant"
    by (simp add: sample_defs running_count_def)
  from claim_exact [OF inv row ex tn, of 9 "''w''" 45, unfolded if_P [OF c]] inv show ?thesis
    by (auto simp: sample_op_def)
qed

section \<open>Polling\<close>

text \<open>An entry the loop passes over leaves the database alone.\<close>

definition waiting_entry :: "string \<Rightarrow> database \<Rightarrow> entry \<Rightarrow> bool" where
  "waiting_entry t d e = (case e of Envelope env \<Rightarrow>
      env_tenant_id env = t \<and> env_execution_mode env = ''PRIVATE'' \<and>
      (case find_row (\<lambda>r. op_id r = env_operation_id env \<and> op_tenant r = t) (operations d) of
         None \<Rightarrow> False | Some r \<Rightarrow> status r \<in> {Queued, Retrying})
    | _ \<Rightarrow> False)"

lemma poll_cons:
  obtains (skip) "poll_entries n t w g k ((sid, e) # es) d =
      add_call (SetCursor (cursor_key t) sid) (poll_entries n t w g (Suc k) es d)"
      "g k 6 \<or> \<not> waiting_entry t d e"
  | (stop) r where "poll_entries n t w g k ((sid, e) # es) d = (d, [], r)" "r \<in> {PlainError, NoContent 204}"
  | (deliver) env d' u where "e = Envelope env" "env_tenant_id env = t" "env_execution_mode env = ''PRIVATE''"
      "claimOperation n (env_operation_id env) t w 45 (g k) d = (d', Some (u, True))"
      "poll_entries n t w g k ((sid, e) # es) d = (d', [SetCursor (cursor_key t) sid],
         JSON 200 (EnvelopeBody (env\<lparr>env_attempt := env_attempt env + 1\<rparr>)))"
proof (cases e)
  case (Envelope env)
  let ?i = "env_operation_id env"
  show ?thesis
  proof (cases "env_tenant_id env \<noteq> t \<or> env_execution_mode env \<noteq> ''PRIVATE''")
    case True
    with Envelope show ?thesis by (intro skip) (auto simp: waiting_entry_def)
  next
    case False
    obtain d' res where cl: "claimOperation n ?i t w 45 (g k) d = (d', res)" by fastforce
    show ?thesis
    proof (cases "\<exists>u. res = Some (u, True)")
      case True
      then obtain u where u: "res = Some (u, True)" by blast
      show ?thesis
        by (rule deliver [of env d' u]) (use cl u False Envelope in \<open>simp_all add: Let_def\<close>)
    next
      case no: False
      have d': "d' = d" by (rule claimOperation_unclaimed [OF cl]) (use no in blast)
      have "poll_entries n t w g k ((sid, e) # es) d =
          (case res of None \<Rightarrow> (d, [], PlainError)
           | Some _ \<Rightarrow>
             if \<not> g k 6 \<and> find_row (\<lambda>r. op_id r = ?i \<and> op_tenant r = t) (operations d) = None \<or>
                \<not> CanTransition (polled_status ?i t (g k 6) d) Running
             then add_call (SetCursor (cursor_key t) sid) (poll_entries n t w g (Suc k) es d)
             else if g k 6 then (d, [], PlainError) else (d, [], NoContent 204))"
        using False cl no d' Envelope by (auto simp: Let_def split: option.split)
      moreover have "\<not> waiting_entry t d e"
        if "\<not> g k 6 \<and> find_row (\<lambda>r. op_id r = ?i \<and> op_tenant r = t) (operations d) = None \<or>
            \<not> CanTransition (polled_status ?i t False d) Running"
        using that Envelope
        by (auto simp: waiting_entry_def polled_status_def CanTransition_def split: option.splits)
      ultimately show ?thesis
        by (cases res; cases "g k 6") (auto intro: skip stop split: if_splits)
    qed
  qed
qed (use skip in \<open>auto simp: waiting_entry_def\<close>)

lemma poll_entries_delivered:
  "poll_entries n t w g k es d = (d', cs, JSON 200 b) \<Longrightarrow>
     \<exists>sid env f u. (sid, Envelope env) \<in> set es \<and> env_tenant_id env = t \<and>
       env_execution_mode env = ''PRIVATE'' \<and> last cs = SetCursor (cursor_key t) sid \<and> cs \<noteq> [] \<and>
       b = EnvelopeBody (env\<lparr>env_attempt := env_attempt env + 1\<rparr>) \<and>
       claimOperation n (env_operation_id env) t w 45 f d = (d', Some (u, True))"
proof (induction es arbitrary: k cs)
  case (Cons x es)
  obtain sid e where x: "x = (sid, e)" by (cases x)
  show ?case
  proof (cases rule: poll_cons [of n t w g k sid e es d])
    case skip
    with Cons.prems obtain cs' where "poll_entries n t w g (Suc k) es d = (d', cs', JSON 200 b)"
      and cs: "cs = SetCursor (cursor_key t) sid # cs'"
      by (auto simp: x add_call_def split: prod.splits)
    from Cons.IH [OF this(1)] cs show ?thesis by fastforce
  next
    case stop
    with Cons.prems show ?thesis by (auto simp: x)
  next
    case (deliver env d1 u)
    with Cons.prems show ?thesis by (fastforce simp: x)
  qed
qed simp

text \<open>
  A poll gives a worker only what it may run: the envelope it returns is one that was
  read from the stream, of the caller's tenant and for private execution, with its attempt
  counted up; its operation was waiting and is now \<open>RUNNING\<close>, leased to this worker for 45
  seconds; and the cursor was moved to exactly this entry.
\<close>
lemma poll_delivers:
  assumes "workerPoll n bound cur xread g h d = (d', cs, JSON 200 b)"
    and "ops_inv d" "hdr_get h TenantHeader \<noteq> ''''"
  shows "\<exists>w pos es sid env r. bound = Some w \<and> xread pos = XReadEntries es \<and> (sid, Envelope env) \<in> set es \<and>
    env_tenant_id env = hdr_get h TenantHeader \<and> env_execution_mode env = ''PRIVATE'' \<and>
    b = EnvelopeBody (env\<lparr>env_attempt := env_attempt env + 1\<rparr>) \<and>
    last cs = SetCursor (cursor_key (hdr_get h TenantHeader)) sid \<and>
    lookup_op d (env_operation_id env) = Some r \<and> status r \<in> {Queued, Retrying} \<and>
    op_tenant r = hdr_get h TenantHeader \<and>
    lookup_op d' (env_operation_id env) = Some (r\<lparr>status := Running, attempt := attempt r + 1,
      lease_owner := Some w, lease_expires_at := Some (n + 45 * second), updated_at := n,
      version := version r + 1\<rparr>)"
proof -
  let ?t = "hdr_get h TenantHeader"
  have dist: "distinct (map op_id (operations d))" using assms(2) by (simp add: ops_inv_def)
  from assms(1) obtain w pos es where w: "bound = Some w" and es: "xread pos = XReadEntries es"
    and res: "poll_entries n ?t w g 0 es d = (d', cs, JSON 200 b)"
    by (auto simp: workerPoll_def Let_def split: option.splits if_splits cursor_reply.splits xread_reply.splits)
  from poll_entries_delivered [OF res] obtain sid env f u where
    e: "(sid, Envelope env) \<in> set es" "env_tenant_id env = ?t" "env_execution_mode env = ''PRIVATE''"
      "last cs = SetCursor (cursor_key ?t) sid"
      "b = EnvelopeBody (env\<lparr>env_attempt := env_attempt env + 1\<rparr>)"
    and cl: "claimOperation n (env_operation_id env) ?t w 45 f d = (d', Some (u, True))"
    by blast
  let ?i = "env_operation_id env"
  from claimOperation_claimed [OF cl] obtain r where
    r: "r \<in> set (operations d)" "op_id r = ?i" "op_tenant r = ?t" "status r \<in> {Queued, Retrying}"
    and d': "d' = fst (exec_stmt (claim_stmt n ?i w 45 (op_tenant r)) d)"
    using assms(3) by blast
  have row: "lookup_op d ?i = Some r" using lookup_op_in [OF dist r(1)] r(2) by simp
  have "st_where (claim_stmt n ?i w 45 (op_tenant r)) r" using r by (auto simp: claim_stmt_def)
  from claiming.exec_hit [OF dist row this] have
    "lookup_op d' ?i = Some (st_set (claim_stmt n ?i w 45 (op_tenant r)) r)"
    unfolding d' by simp
  with w es e r row show ?thesis by (auto simp: claim_stmt_def row_defs)
qed

lemma poll_entries_keeps:
  assumes "poll_entries n t w g k es d = (d', cs, reply)" "\<forall>k. \<not> g k 6" "distinct (map fst es)"
    and "(sid, Envelope env) \<in> set es" "waiting_entry t d (Envelope env)"
    and "SetCursor (cursor_key t) sid \<in> set cs"
  shows "reply = JSON 200 (EnvelopeBody (env\<lparr>env_attempt := env_attempt env + 1\<rparr>))"
  using assms
proof (induction es arbitrary: k cs)
  case (Cons x es)
  obtain sid' e where x: "x = (sid', e)" by (cases x)
  have other: "SetCursor c s \<in> set cs \<Longrightarrow> poll_entries n t w g k es d = (d', cs, reply) \<Longrightarrow>
      s \<in> fst ` set es" for c s k cs es
  proof (induction es arbitrary: k cs)
    case (Cons y ys)
    obtain sy ey where y: "y = (sy, ey)" by (cases y)
    show ?case
      using Cons by (cases rule: poll_cons [of n t w g k sy ey ys d])
        (fastforce simp: y add_call_def split: prod.splits)+
  qed simp
  show ?case
  proof (cases rule: poll_cons [of n t w g k sid' e es d])
    case skip
    with Cons.prems(1) obtain cs' where rest: "poll_entries n t w g (Suc k) es d = (d', cs', reply)"
      and cs: "cs = SetCursor (cursor_key t) sid' # cs'"
      by (auto simp: x add_call_def split: prod.splits)
    have ne: "(sid, Envelope env) \<noteq> x" using skip(2) Cons.prems(2,5) by (auto simp: x)
    then have mem: "(sid, Envelope env) \<in> set es" using Cons.prems(4) by auto
    then have "sid \<noteq> sid'" using Cons.prems(3) by (force simp: x)
    then have "SetCursor (cursor_key t) sid \<in> set cs'" using Cons.prems(6) cs by simp
    from Cons.IH [OF rest Cons.prems(2) _ mem Cons.prems(5) this] Cons.prems(3)
    show ?thesis by simp
  next
    case stop
    with Cons.prems show ?thesis by (auto simp: x)
  next
    case (deliver env' d1 u)
    with Cons.prems(1,6) have "sid = sid'" "reply = JSON 200 (EnvelopeBody (env'\<lparr>env_attempt := env_attempt env' + 1\<rparr>))"
      by (auto simp: x)
    moreover have "Envelope env = e"
      using Cons.prems(3,4) \<open>sid = sid'\<close> by (force simp: x)
    ultimately show ?thesis using deliver(1) by simp
  qed
qed simp


definition sample_stream :: "stream_id \<Rightarrow> xread_reply" where
  "sample_stream p = XReadEntries [(StreamId 1 0, Envelope (scan_envelope (sample_op Queued 0 None)))]"

lemma sample_waiting:
  "waiting_entry ''t1'' (sample_db (sample_op Queued 0 None # rs))
     (Envelope (scan_envelope (sample_op Queued 0 None)))"
  by (simp add: waiting_entry_def sample_defs scan_envelope_def)

lemma poll_delivers_witness:
  "\<exists>d'. lookup_op d' ''op1'' = Some ((sample_op Queued 0 None)\<lparr>status := Running, attempt := 1,
      lease_owner := Some ''w'', lease_expires_at := Some (9 + 45 * second), updated_at := 9,
      version := 5\<rparr>)"
proof -
  let ?d = "sample_db [sample_op Queued 0 None]" and ?env = "scan_envelope (sample_op Queued 0 None)"
  let ?p = "workerPoll 9 (Some ''w'') CursorNil sample_stream (\<lambda>k. no_faults) sample_header ?d"
  have reply: "snd (snd ?p) = JSON 200 (EnvelopeBody (?env\<lparr>env_attempt := env_attempt ?env + 1\<rparr>))"
    by (simp add: workerPoll_def sample_stream_def sample_hdr claimOperation_def sample_defs
        scan_envelope_def running_count_def exec_stmt_def claim_stmt_def row_defs Let_def)
  have p: "?p = (fst ?p, fst (snd ?p), JSON 200 (EnvelopeBody (?env\<lparr>env_attempt := env_attempt ?env + 1\<rparr>)))"
    by (metis reply prod.collapse)
  have inv: "ops_inv ?d" by (simp add: ops_inv_def sample_defs wf_row_def statuses_def)
  have t: "hdr_get sample_header TenantHeader \<noteq> ''''" by (simp add: sample_hdr)
  from poll_delivers [OF p inv t] obtain env r where
    e: "(StreamId 1 0, Envelope env) \<in> set [(StreamId 1 0, Envelope ?env)]"
      "lookup_op ?d (env_operation_id env) = Some r"
      "lookup_op (fst ?p) (env_operation_id env) = Some (r\<lparr>status := Running, attempt := attempt r + 1,
        lease_owner := Some ''w'', lease_expires_at := Some (9 + 45 * second), updated_at := 9,
        version := version r + 1\<rparr>)"
    by (auto simp: sample_stream_def)
  then have "env = ?env" "r = sample_op Queued 0 None"
    by (auto simp: lookup_op_def sample_defs scan_envelope_def)
  with e(3) show ?thesis
    by (intro exI [of _ "fst ?p"]) (simp add: scan_envelope_def, simp add: sample_op_def)
qed


text \<open>
  The condition on the status query is needed: when the tenant is at its limit and the
  query of the status fails, the error is not reported (its branch is unreachable, the
  status variable is still empty and does not allow the transition) and the cursor moves
  past an operation that still waits, so no later poll is offered it.
\<close>
theorem poll_scan_error_skips:
  "let d = (sample_db [sample_op Queued 0 None, (sample_op Running 1 (Some (''v'', 50)))\<lparr>op_id := ''op2''\<rparr>])
         \<lparr>tenants := [sample_tenant\<lparr>tn_concurrency_limit := 1\<rparr>]\<rparr>
   in workerPoll 9 (Some ''w'') CursorNil sample_stream (\<lambda>k. fault_at 6) sample_header d =
        (d, [SetCursor (cursor_key ''t1'') (StreamId 1 0)], NoContent 204) \<and>
      (\<exists>r. lookup_op d ''op1'' = Some r \<and> status r = Queued)"
  by (simp add: Let_def workerPoll_def sample_stream_def sample_hdr claimOperation_def sample_defs
      scan_envelope_def running_count_def polled_status_def CanTransition_def add_call_def lookup_op_def)

section \<open>The dispatcher of events\<close>

lemma outbox_delay_bounds: "0 \<le> a \<Longrightarrow> 2 \<le> outbox_delay a \<and> outbox_delay a \<le> 256"
proof -
  assume a: "0 \<le> a"
  define k where "k = nat (min (a + 1) 8)"
  have "1 \<le> k" "k \<le> 8" using a by (auto simp: k_def)
  then have "(2::int) ^ 1 \<le> 2 ^ k" "(2::int) ^ k \<le> 2 ^ 8"
    by (intro power_increasing; simp)+
  then show ?thesis by (simp add: outbox_delay_def k_def push_bit_eq_mult)
qed

definition dispatched :: "int \<Rightarrow> (OperationEvent \<Rightarrow> http_result) \<Rightarrow> event_row \<Rightarrow> event_row" where
  "dispatched n usage e = (case usage_error (usage (event_of_row n e)) of
      None \<Rightarrow> e\<lparr>eo_status := ObDelivered, eo_delivered_at := Some n, eo_attempt := eo_attempt e + 1\<rparr>
    | Some err \<Rightarrow> e\<lparr>eo_attempt := eo_attempt e + 1, eo_last_error := Some err,
        eo_next_attempt_at := n + outbox_delay (eo_attempt e) * second\<rparr>)"

lemma dispatch_item_rows:
  assumes "distinct (map eo_id (event_outbox d))" "x \<in> set (event_outbox d)"
  shows "event_outbox (fst (dispatch_item n (usage (event_of_row n x)) False x d)) =
    map (\<lambda>e. if e = x then dispatched n usage e else e) (event_outbox d)"
proof -
  have "eo_id e = eo_id x \<longleftrightarrow> e = x" if "e \<in> set (event_outbox d)" for e
    using distinct_map_eq [OF assms(1) that assms(2)] by auto
  then show ?thesis
    by (auto simp: dispatch_item_def dispatched_def event_delivered_def event_retry_def
        update_where_def split: option.split cong: map_cong)
qed

lemma eo_id_dispatched [simp]: "eo_id (dispatched n usage e) = eo_id e"
  by (simp add: dispatched_def split: option.split)

lemma snd_dispatch_item: "snd (dispatch_item n resp u x d) = [PostEvent (event_of_row n x)]"
  by (simp add: dispatch_item_def)

lemma dispatch_items_rows:
  assumes "distinct (map eo_id (event_outbox d))" "set xs \<subseteq> set (event_outbox d)" "distinct (map eo_id xs)"
    and "\<forall>j. \<not> f j"
  shows "event_outbox (fst (dispatch_items n usage f k xs d)) =
      map (\<lambda>e. if e \<in> set xs then dispatched n usage e else e) (event_outbox d) \<and>
    snd (dispatch_items n usage f k xs d) = map (\<lambda>x. PostEvent (event_of_row n x)) xs"
  using assms
proof (induction xs arbitrary: d k)
  case (Cons x xs)
  let ?d = "fst (dispatch_item n (usage (event_of_row n x)) False x d)"
  have rows: "event_outbox ?d = map (\<lambda>e. if e = x then dispatched n usage e else e) (event_outbox d)"
    using Cons.prems by (intro dispatch_item_rows) auto
  have "map eo_id (event_outbox ?d) = map eo_id (event_outbox d)" by (simp add: rows)
  then have dist: "distinct (map eo_id (event_outbox ?d))" using Cons.prems(1) by simp
  have nx: "x \<notin> set xs" using Cons.prems(3) by auto
  have sub: "set xs \<subseteq> set (event_outbox ?d)" using Cons.prems(2) nx by (force simp: rows)
  have dx: "dispatched n usage x \<notin> set xs"
    using Cons.prems(3) by (force simp: image_iff dest: arg_cong [where f = eo_id])
  from Cons.IH [OF dist sub _ Cons.prems(4), of "Suc k"] Cons.prems(3,4) nx dx show ?case
    by (auto simp: Let_def split_def rows snd_dispatch_item)
qed simp

lemma dispatch_batch_rows:
  assumes "distinct (map eo_id (event_outbox d))" "\<forall>k. \<not> f k"
  shows "event_outbox (fst (dispatchEventBatch n usage f d)) =
      map (\<lambda>e. if e \<in> set (due_events n (event_outbox d)) then dispatched n usage e else e) (event_outbox d) \<and>
    snd (dispatchEventBatch n usage f d) =
      map (\<lambda>x. PostEvent (event_of_row n x)) (due_events n (event_outbox d))"
proof -
  let ?due = "due_events n (event_outbox d)"
  have "distinct (map eo_id (sort_key eo_created_at (filter (\<lambda>e. eo_status e = ObPending \<and>
      eo_next_attempt_at e \<le> n) (event_outbox d))))"
    using assms(1) by (simp add: distinct_map inj_on_def)
  then have "distinct (map eo_id ?due)"
    unfolding due_events_def take_map [symmetric] by (rule distinct_take)
  moreover have "set ?due \<subseteq> set (event_outbox d)"
    by (auto simp: due_events_def dest!: in_set_takeD)
  ultimately show ?thesis
    using dispatch_items_rows [OF assms(1), of ?due f n usage 1] assms(2)
    by (simp add: dispatchEventBatch_def)
qed

text \<open>
  A dispatcher batch posts each due event exactly once, at most 20 of them and the oldest
  first, and rewrites exactly their rows: delivered after a 2xx answer, otherwise counted up
  with the error stored and the next attempt between 2 and 256 seconds away. Every other
  event is as before and no event is ever dropped.
\<close>
lemma dispatch_batch_exact:
  assumes "distinct (map eo_id (event_outbox d))"
  shows "event_outbox (fst (dispatchEventBatch n usage no_faults d)) =
      map (\<lambda>e. if e \<in> set (due_events n (event_outbox d)) then dispatched n usage e else e) (event_outbox d) \<and>
    snd (dispatchEventBatch n usage no_faults d) =
      map (\<lambda>x. PostEvent (event_of_row n x)) (due_events n (event_outbox d)) \<and>
    length (due_events n (event_outbox d)) \<le> 20 \<and>
    (\<forall>a. a < 0 \<or> outbox_delay a \<in> {2..256})"
proof -
  have "outbox_delay a \<in> {2..256}" if "0 \<le> a" for a
    using outbox_delay_bounds [OF that] by simp
  then show ?thesis
    using dispatch_batch_rows [OF assms, of no_faults n usage] by (auto simp: due_events_def not_less)
qed

definition sample_event :: event_row where
  "sample_event = new_event 0 ''g1'' ''op1:operation.succeeded:1'' ''operation.succeeded'' ''op1'' ''t1'' ''{}''"

lemma dispatch_batch_exact_witness:
  "snd (dispatchEventBatch 5 (\<lambda>e. HttpResponse 202 []) no_faults
     ((sample_db [])\<lparr>event_outbox := [sample_event]\<rparr>)) = [PostEvent (event_of_row 5 sample_event)]"
proof -
  let ?d = "(sample_db [])\<lparr>event_outbox := [sample_event]\<rparr>"
  have dist: "distinct (map eo_id (event_outbox ?d))" by simp
  have "due_events 5 (event_outbox ?d) = [sample_event]"
    by (simp add: due_events_def sample_event_def new_event_def)
  with dispatch_batch_exact [OF dist, of 5 "\<lambda>e. HttpResponse 202 []"] show ?thesis by simp
qed

end
