(* ===== verification/Journey.thy ===== *)
theory Journey
  imports Delivery
begin

text \<open>
  Whole journeys of an operation through the Operations service: an accepted submission that
  is published, polled and completed, and an operation whose target always fails, which is
  retried until its budget is spent and then dead-lettered.
\<close>

section \<open>The number of running operations\<close>

text \<open>It only depends on the rows that run, so a change of one idle row to idle keeps it.\<close>

lemma running_count_card:
  assumes "distinct (map op_id (operations d))"
  shows "running_count t d = card {r. lookup_op d (op_id r) = Some r \<and> op_tenant r = t \<and> status r = Running}"
proof -
  have "distinct (filter (\<lambda>r. op_tenant r = t \<and> status r = Running) (operations d))"
    using assms by (simp add: distinct_map)
  then have "running_count t d = card {r \<in> set (operations d). op_tenant r = t \<and> status r = Running}"
    by (simp add: running_count_def count_where_def distinct_card [symmetric])
  moreover have "r \<in> set (operations d) \<longleftrightarrow> lookup_op d (op_id r) = Some r" for r
    using lookup_op_in [OF assms] lookup_op_Some by blast
  ultimately show ?thesis by simp
qed

definition idle_at :: "string \<Rightarrow> database \<Rightarrow> bool" where
  "idle_at i d = (case lookup_op d i of None \<Rightarrow> True | Some r \<Rightarrow> status r \<noteq> Running)"

lemma running_count_idle:
  assumes "distinct (map op_id (operations d))" "distinct (map op_id (operations d'))"
    and "\<forall>j. j = i \<or> lookup_op d' j = lookup_op d j" "idle_at i d" "idle_at i d'"
  shows "running_count t d' = running_count t d"
proof -
  have "lookup_op d' (op_id r) = Some r \<and> op_tenant r = t \<and> status r = Running \<longleftrightarrow>
      lookup_op d (op_id r) = Some r \<and> op_tenant r = t \<and> status r = Running" for r
    using assms(3-5) by (cases "op_id r = i") (auto simp: idle_at_def)
  then show ?thesis by (simp add: running_count_card [OF assms(1)] running_count_card [OF assms(2)])
qed

section \<open>The steps of a journey\<close>

lemma inv_distinct: "ops_inv d \<Longrightarrow> distinct (map op_id (operations d))"
  by (simp add: ops_inv_def)

lemma steps_keep_inv: "steps_to T d d' \<Longrightarrow> ops_inv d \<Longrightarrow> ops_inv d'"
  by (auto simp: steps_to_def intro: ops.inv_runs)

text \<open>A claim that goes through, with all it leaves alone.\<close>

lemma claim_any:
  assumes "ops_inv d" "lookup_op d i = Some r" "status r \<in> {Queued, Retrying}" "ex \<in> {[], op_tenant r}"
    and "find_row (\<lambda>x. tn_id x = op_tenant r) (tenants d) = Some tn"
    and "int (running_count (op_tenant r) d) < tn_concurrency_limit tn"
  obtains d' where "claimOperation n i ex w 45 no_faults d = (d', Some (op_tenant r, True))"
    "ops_inv d'" "lookup_op d' i = Some (r\<lparr>status := Running, attempt := attempt r + 1,
       lease_owner := Some w, lease_expires_at := Some (n + 45 * second), updated_at := n,
       version := version r + 1\<rparr>)"
    "\<forall>j. j = i \<or> lookup_op d' j = lookup_op d j" "tenants d' = tenants d" "event_outbox d' = event_outbox d"
    "ledger d' = ledger d"
proof -
  have c: "status r \<in> {Queued, Retrying} \<and> int (running_count (op_tenant r) d) < tn_concurrency_limit tn"
    using assms(3,6) by blast
  from claim_result [OF assms(1,2,4,5), of n w 45, unfolded if_P [OF c]]
  obtain d' where cl: "claimOperation n i ex w 45 no_faults d = (d', Some (op_tenant r, True))"
    and d': "lookup_op d' i = Some (r\<lparr>status := Running, attempt := attempt r + 1,
       lease_owner := Some w, lease_expires_at := Some (n + 45 * second), updated_at := n,
       version := version r + 1\<rparr>)" "\<forall>j. j = i \<or> lookup_op d' j = lookup_op d j"
    by blast
  have inv: "ops_inv d'"
    using steps_keep_inv [OF claimOperation_steps assms(1), of n i ex w 45 no_faults]
    unfolding cl by simp
  obtain x :: op_row where
    e: "d' = fst (exec_stmt (claim_stmt n i w 45 (op_tenant x)) d)"
    by (rule claimOperation_claimed [OF cl]) (rule that)
  have "tenants d' = tenants d" "event_outbox d' = event_outbox d" "ledger d' = ledger d"
    unfolding e by (rule claiming.frame_exec)+
  with cl inv d' show ?thesis by (rule that)
qed

lemma claim_step:
  assumes "ops_inv d" "lookup_op d i = Some r" "status r \<in> {Queued, Retrying}"
    and "find_row (\<lambda>x. tn_id x = op_tenant r) (tenants d) = Some tn"
    and "int (running_count (op_tenant r) d) < tn_concurrency_limit tn"
  obtains d' where "claimOperation n i (op_tenant r) w 45 no_faults d = (d', Some (op_tenant r, True))"
    "ops_inv d'" "lookup_op d' i = Some (r\<lparr>status := Running, attempt := attempt r + 1,
       lease_owner := Some w, lease_expires_at := Some (n + 45 * second), updated_at := n,
       version := version r + 1\<rparr>)"
    "\<forall>j. j = i \<or> lookup_op d' j = lookup_op d j" "tenants d' = tenants d" "event_outbox d' = event_outbox d"
proof -
  have "op_tenant r \<in> {[], op_tenant r}" by simp
  from claim_any [OF assms(1-3) this assms(4,5), of n w] that show ?thesis by metis
qed

lemma find_holder:
  assumes "distinct (map op_id (operations d))" "lookup_op d i = Some r" "P r"
    and "\<And>x. P x \<Longrightarrow> op_id x = i"
  shows "find_row P (operations d) = Some r"
proof (rule find_row_unique [where k = op_id])
  show "r \<in> set (operations d)" using lookup_op_Some [OF assms(2)] by simp
  show "\<And>x. P x \<Longrightarrow> op_id x = op_id r" using assms(4) lookup_op_Some [OF assms(2)] by simp
qed (use assms in auto)

text \<open>
  \<open>leased w r d\<close>: worker \<open>w\<close> holds the lease of the operation of row \<open>r\<close>, whose attempt
  and submitted columns are those of \<open>r\<close>.
\<close>

definition leased :: "string \<Rightarrow> op_row \<Rightarrow> database \<Rightarrow> bool" where
  "leased w r d \<longleftrightarrow> ops_inv d \<and> (\<exists>x. lookup_op d (op_id r) = Some x \<and> status x = Running \<and>
     lease_owner x = Some w \<and> attempt x = attempt r \<and> identity x = identity r)"

section \<open>A target that always fails\<close>

text \<open>A failure report of the worker that holds the lease.\<close>

lemma fail_step:
  assumes "ops_inv d" "lookup_op d i = Some r" "status r = Running" "lease_owner r = Some (fi_worker_id inp)"
    and "op_tenant r = hdr_get h TenantHeader" "g \<notin> eo_id ` set (event_outbox d)"
    and "\<forall>ty. event_key i ty (attempt r) \<notin> eo_event_key ` set (event_outbox d)"
  obtains d' r' ty where "fst (workerFail n g i (Some inp) no_faults h d) = d'" "ops_inv d'"
    "lookup_op d' i = Some r'" "status r' = failure_status (fi_retryable inp) (attempt r) (max_attempts r)"
    "attempt r' = attempt r" "max_attempts r' = max_attempts r" "op_tenant r' = op_tenant r"
    "\<forall>j. j = i \<or> lookup_op d' j = lookup_op d j" "tenants d' = tenants d"
    "eo_event_key ` set (event_outbox d') = insert (event_key i ty (attempt r)) (eo_event_key ` set (event_outbox d))"
proof -
  let ?t = "hdr_get h TenantHeader" and ?w = "fi_worker_id inp"
  let ?st = "failure_status (fi_retryable inp) (attempt r) (max_attempts r)"
  let ?s = "worker_fail_stmt n i ?t ?w ?st (fi_error_code inp) (fi_error_message inp) (fi_ai_explanation inp)"
  let ?ty = "if ?st = DeadLettered then ''operation.dead_lettered'' else ''operation.failed''"
  have dist: "distinct (map op_id (operations d))" using assms(1) by (rule inv_distinct)
  have find: "find_row (\<lambda>r. op_id r = i \<and> op_tenant r = ?t \<and> status r = Running \<and> lease_owner r = Some ?w)
      (operations d) = Some r"
    by (rule find_holder [OF dist assms(2)]) (use assms lookup_op_Some [OF assms(2)] in auto)
  have "st_where ?s r" using assms lookup_op_Some [OF assms(2)] by (simp add: worker_fail_stmt_def)
  from worker_failing.exec_hit [OF dist assms(2) this] have
    hit: "snd (exec_stmt ?s d) = 1" "lookup_op (fst (exec_stmt ?s d)) i = Some (st_set ?s r)"
      "\<forall>j. j = i \<or> lookup_op (fst (exec_stmt ?s d)) j = lookup_op d j" by auto
  let ?e = "new_event n g (event_key i ?ty (attempt r)) ?ty i ?t (fail_event_payload ?st inp)"
  let ?d' = "put_event ?e (fst (exec_stmt ?s d))"
  have box: "event_outbox (fst (exec_stmt ?s d)) = event_outbox d" "tenants (fst (exec_stmt ?s d)) = tenants d"
    by (rule worker_failing.frame_exec)+
  have ins: "insertEvent n g (event_key i ?ty (attempt r)) ?ty i ?t (fail_event_payload ?st inp)
      (fst (exec_stmt ?s d)) = Some ?d'"
    using assms(6) by (simp add: insertEvent_def box)
  have res: "fst (workerFail n g i (Some inp) no_faults h d) = ?d'"
    unfolding workerFail_def option.case find Let_def split_def
    using hit(1) ins by (simp add: scan_envelope_def)
  have fresh: "eo_event_key ?e \<notin> eo_event_key ` set (event_outbox d)"
    using assms(7) by (simp add: new_event_def)
  have keys: "eo_event_key ` set (event_outbox ?d') = insert (event_key i ?ty (attempt r)) (eo_event_key ` set (event_outbox d))"
    using fresh by (simp add: put_event_def insert_new_def box) (simp add: new_event_def)
  have look: "lookup_op ?d' j = lookup_op (fst (exec_stmt ?s d)) j" for j
    by (simp add: put_event_def lookup_op_def)
  show ?thesis
  proof (rule that [OF res])
    show "ops_inv ?d'" using steps_keep_inv [OF workerFail_steps assms(1)] res by metis
    show "lookup_op ?d' i = Some (st_set ?s r)" using hit(2) look by simp
    show "\<forall>j. j = i \<or> lookup_op ?d' j = lookup_op d j" using hit(3) look by simp
    show "tenants ?d' = tenants d" by (simp add: put_event_def box)
  qed (use keys in \<open>simp_all add: worker_fail_stmt_def row_defs\<close>)
qed

text \<open>
  One round: a worker claims the operation, its target fails, and it reports the failure.
  \<open>gs\<close> draws the identifier of the event.
\<close>

definition failing_round ::
    "string \<Rightarrow> failInput \<Rightarrow> (database \<Rightarrow> string) \<Rightarrow> header \<Rightarrow> int \<Rightarrow> database \<Rightarrow> database" where
  "failing_round i inp gs h n d =
     (let d1 = fst (claimOperation n i (hdr_get h TenantHeader) (fi_worker_id inp) 45 no_faults d)
      in fst (workerFail n (gs d1) i (Some inp) no_faults h d1))"

text \<open>The states between the rounds.\<close>

definition round_ready :: "string \<Rightarrow> header \<Rightarrow> tenant \<Rightarrow> op_row \<Rightarrow> database \<Rightarrow> bool" where
  "round_ready i h tn r d \<longleftrightarrow> ops_inv d \<and> lookup_op d i = Some r \<and> op_tenant r = hdr_get h TenantHeader \<and>
     find_row (\<lambda>x. tn_id x = op_tenant r) (tenants d) = Some tn \<and>
     int (running_count (op_tenant r) d) < tn_concurrency_limit tn \<and>
     (\<forall>ty a. a \<le> attempt r \<or> event_key i ty a \<notin> eo_event_key ` set (event_outbox d))"

lemma event_key_attempt: "event_key i ty a = event_key i ty' a' \<Longrightarrow> a = a'"
proof -
  assume eq: "event_key i ty a = event_key i ty' a'"
  have rk: "rev (event_key i ty b) = rev (itoa b) @ CHR '':'' # rev ty @ CHR '':'' # rev i" for ty b
    by (simp add: event_key_def)
  from arg_cong [OF eq, of rev] have
    "rev (itoa a) @ CHR '':'' # rev ty @ CHR '':'' # rev i = rev (itoa a') @ CHR '':'' # rev ty' @ CHR '':'' # rev i"
    unfolding rk .
  then have "rev (itoa a) = rev (itoa a')" by (rule split_unique [THEN conjunct1, rotated 2]) simp_all
  then show ?thesis by (auto dest: itoa_inj)
qed

lemma one_round:
  assumes "round_ready i h tn r d" "status r \<in> {Queued, Retrying}" "\<And>d. gs d \<notin> eo_id ` set (event_outbox d)"
    and "fi_retryable inp"
  shows "\<exists>r'. round_ready i h tn r' (failing_round i inp gs h n d) \<and> attempt r' = attempt r + 1 \<and>
    max_attempts r' = max_attempts r \<and>
    status r' = (if attempt r + 1 < max_attempts r then Retrying else DeadLettered)"
proof -
  let ?t = "hdr_get h TenantHeader" and ?w = "fi_worker_id inp"
  from assms(1) have inv: "ops_inv d" and row: "lookup_op d i = Some r" and t: "op_tenant r = ?t"
    and tn: "find_row (\<lambda>x. tn_id x = op_tenant r) (tenants d) = Some tn"
    and lim: "int (running_count (op_tenant r) d) < tn_concurrency_limit tn"
    and keys: "\<forall>ty a. a \<le> attempt r \<or> event_key i ty a \<notin> eo_event_key ` set (event_outbox d)"
    by (auto simp: round_ready_def)
  from claim_step [OF inv row assms(2) tn lim, of n ?w] obtain d1 where
    cl: "claimOperation n i (op_tenant r) ?w 45 no_faults d = (d1, Some (op_tenant r, True))"
    and inv1: "ops_inv d1" and row1: "lookup_op d1 i = Some (r\<lparr>status := Running, attempt := attempt r + 1,
       lease_owner := Some ?w, lease_expires_at := Some (n + 45 * second), updated_at := n,
       version := version r + 1\<rparr>)" (is "_ = Some ?r1")
    and oth1: "\<forall>j. j = i \<or> lookup_op d1 j = lookup_op d j" and fr1: "tenants d1 = tenants d" "event_outbox d1 = event_outbox d"
    by blast
  have k1: "\<forall>ty. event_key i ty (attempt ?r1) \<notin> eo_event_key ` set (event_outbox d1)"
  proof
    fix ty
    from keys have "attempt r + 1 \<le> attempt r \<or> event_key i ty (attempt r + 1) \<notin> eo_event_key ` set (event_outbox d)"
      by blast
    then show "event_key i ty (attempt ?r1) \<notin> eo_event_key ` set (event_outbox d1)" by (simp add: fr1)
  qed
  have p1: "status ?r1 = Running" "lease_owner ?r1 = Some ?w" "op_tenant ?r1 = ?t" by (simp_all add: t)
  obtain d2 r2 ty where
    fl: "fst (workerFail n (gs d1) i (Some inp) no_faults h d1) = d2" and inv2: "ops_inv d2"
    and row2: "lookup_op d2 i = Some r2"
    and r2: "status r2 = failure_status (fi_retryable inp) (attempt ?r1) (max_attempts ?r1)"
      "attempt r2 = attempt ?r1" "max_attempts r2 = max_attempts ?r1" "op_tenant r2 = op_tenant ?r1"
    and oth2: "\<forall>j. j = i \<or> lookup_op d2 j = lookup_op d1 j" and fr2: "tenants d2 = tenants d1"
      "eo_event_key ` set (event_outbox d2) = insert (event_key i ty (attempt ?r1)) (eo_event_key ` set (event_outbox d1))"
    by (rule fail_step [OF inv1 row1 p1 assms(3) k1, where n = n])
  have rd: "failing_round i inp gs h n d = d2"
    using cl fl by (simp add: failing_round_def t)
  have st: "status r2 = (if attempt r + 1 < max_attempts r then Retrying else DeadLettered)"
    using r2 assms(4) by (simp add: failure_status_def)
  have "\<forall>j. j = i \<or> lookup_op d2 j = lookup_op d j" using oth1 oth2 by metis
  moreover have "idle_at i d" "idle_at i d2" using row row2 st assms(2) by (auto simp: idle_at_def)
  ultimately have "running_count (op_tenant r) d2 = running_count (op_tenant r) d"
    by (rule running_count_idle [OF inv_distinct [OF inv] inv_distinct [OF inv2]])
  moreover have "a \<le> attempt r + 1 \<or> event_key i ty' a \<notin> eo_event_key ` set (event_outbox d2)" for ty' a
  proof -
    have "a \<le> attempt r \<or> event_key i ty' a \<notin> eo_event_key ` set (event_outbox d)" using keys by blast
    then show ?thesis unfolding fr2 fr1 using event_key_attempt [of i ty' a ty "attempt ?r1"] by auto
  qed
  ultimately have "round_ready i h tn r2 d2"
    using inv2 row2 r2 t tn lim fr1 fr2 by (simp add: round_ready_def)
  with rd st r2 show ?thesis by auto
qed

text \<open>Once dead-lettered, a round changes nothing.\<close>

lemma dead_round:
  assumes "round_ready i h tn r d" "status r = DeadLettered"
  shows "failing_round i inp gs h n d = d"
proof -
  let ?t = "hdr_get h TenantHeader" and ?w = "fi_worker_id inp"
  have inv: "ops_inv d" and row: "lookup_op d i = Some r" and t: "op_tenant r = ?t"
    and tn: "find_row (\<lambda>x. tn_id x = op_tenant r) (tenants d) = Some tn"
    using assms(1) by (auto simp: round_ready_def)
  have c: "\<not> (status r \<in> {Queued, Retrying} \<and> int (running_count (op_tenant r) d) < tn_concurrency_limit tn)"
    using assms(2) by simp
  have ex: "?t \<in> {[], op_tenant r}" using t by simp
  from claim_result [OF inv row ex tn, of n ?w 45, unfolded if_not_P [OF c]]
  have cl: "fst (claimOperation n i ?t ?w 45 no_faults d) = d" by auto
  have "\<not> (op_id x = i \<and> op_tenant x = ?t \<and> status x = Running \<and> lease_owner x = Some ?w)"
    if "x \<in> set (operations d)" for x
    using lookup_op_in [OF inv_distinct [OF inv] that] row assms(2) by auto
  then have "find_row (\<lambda>x. op_id x = i \<and> op_tenant x = ?t \<and> status x = Running \<and> lease_owner x = Some ?w)
      (operations d) = None"
    unfolding find_row_None by blast
  then show ?thesis by (simp add: failing_round_def cl workerFail_def)
qed

lemma failing_rounds:
  assumes "\<And>d. gs d \<notin> eo_id ` set (event_outbox d)" "fi_retryable inp"
  shows "round_ready i h tn r d \<Longrightarrow> status r \<in> {Queued, Retrying} \<and> attempt r < max_attempts r \<or>
      status r = DeadLettered \<and> attempt r = max_attempts r \<Longrightarrow>
    \<exists>r'. lookup_op (fold (failing_round i inp gs h) ns d) i = Some r' \<and>
      attempt r' = min (attempt r + int (length ns)) (max_attempts r) \<and>
      status r' = (if ns = [] then status r
        else if attempt r + int (length ns) < max_attempts r then Retrying else DeadLettered)"
proof (induction ns arbitrary: d r)
  case Nil
  then show ?case by (auto simp: round_ready_def)
next
  case (Cons n ns)
  show ?case
  proof (cases "status r = DeadLettered")
    case True
    with Cons.prems have "attempt r = max_attempts r" by auto
    with Cons.IH [OF Cons.prems] dead_round [OF Cons.prems(1) True] True show ?thesis by auto
  next
    case False
    with Cons.prems(2) have w: "status r \<in> {Queued, Retrying}" "attempt r < max_attempts r" by auto
    from one_round [OF Cons.prems(1) w(1) assms, of n] obtain r1 where
      r1: "round_ready i h tn r1 (failing_round i inp gs h n d)" "attempt r1 = attempt r + 1"
        "max_attempts r1 = max_attempts r"
        "status r1 = (if attempt r + 1 < max_attempts r then Retrying else DeadLettered)"
      by blast
    with w(2) have "status r1 \<in> {Queued, Retrying} \<and> attempt r1 < max_attempts r1 \<or>
        status r1 = DeadLettered \<and> attempt r1 = max_attempts r1" by auto
    from Cons.IH [OF r1(1) this] r1 w(2) show ?thesis by auto
  qed
qed

text \<open>
  C5: Retrying ends. An operation whose target always fails in a retryable way is claimed and
  failed again and again only until its budget is spent: after each round it is \<open>RETRYING\<close>
  with one more attempt as long as attempts are left, after exactly the budgeted number it
  is \<open>DEAD_LETTERED\<close>, and every later claim and report leaves it so.
\<close>
theorem failing_operation_ends:
  assumes "ops_inv d" "lookup_op d i = Some r" "op_tenant r = hdr_get h TenantHeader"
    and "status r \<in> {Queued, Retrying}" "attempt r < max_attempts r" "ns \<noteq> []"
    and "find_row (\<lambda>x. tn_id x = op_tenant r) (tenants d) = Some tn"
    and "int (running_count (op_tenant r) d) < tn_concurrency_limit tn"
    and "\<And>ty a. attempt r < a \<Longrightarrow> event_key i ty a \<notin> eo_event_key ` set (event_outbox d)"
    and "\<And>d. gs d \<notin> eo_id ` set (event_outbox d)" "fi_retryable inp"
  shows "\<exists>r'. lookup_op (fold (failing_round i inp gs h) ns d) i = Some r' \<and>
    attempt r' = min (attempt r + int (length ns)) (max_attempts r) \<and>
    status r' = (if attempt r + int (length ns) < max_attempts r then Retrying else DeadLettered)"
proof -
  have "round_ready i h tn r d"
    unfolding round_ready_def using assms(1-3,7-9) by (metis not_le)
  from failing_rounds [OF assms(10,11) this, of ns] assms(4-6) show ?thesis by auto
qed

definition longer_event_id :: "database \<Rightarrow> string" where
  "longer_event_id d = ''x'' @ concat (map eo_id (event_outbox d))"

lemma longer_event_id_fresh: "longer_event_id d \<notin> eo_id ` set (event_outbox d)"
proof
  assume "longer_event_id d \<in> eo_id ` set (event_outbox d)"
  then obtain e where e: "e \<in> set (event_outbox d)" "longer_event_id d = eo_id e" by blast
  then have "length (eo_id e) \<le> length (concat (map eo_id (event_outbox d)))"
    by (auto simp: length_concat intro: member_le_sum_list)
  with arg_cong [OF e(2), of length] show False by (simp add: longer_event_id_def)
qed

definition sample_failure :: failInput where
  "sample_failure = \<lparr>fi_worker_id = ''w'', fi_error_code = ''E'', fi_error_message = ''m'',
     fi_ai_explanation = '''', fi_retryable = True\<rparr>"

theorem failing_operation_ends_witness:
  "\<exists>r'. lookup_op (fold (failing_round ''op1'' sample_failure longer_event_id sample_header) [1, 2, 3, 4]
      (sample_db [sample_op Queued 0 None])) ''op1'' = Some r' \<and> attempt r' = 3 \<and> status r' = DeadLettered"
proof -
  let ?d = "sample_db [sample_op Queued 0 None]" and ?r = "sample_op Queued 0 None"
  have inv: "ops_inv ?d" by (simp add: ops_inv_def sample_defs wf_row_def statuses_def)
  have row: "lookup_op ?d ''op1'' = Some ?r" by (simp add: lookup_op_def sample_defs)
  have f: "op_tenant ?r = hdr_get sample_header TenantHeader" "status ?r \<in> {Queued, Retrying}"
    "attempt ?r < max_attempts ?r" "[1, 2, 3, 4 :: int] \<noteq> []"
    "find_row (\<lambda>x. tn_id x = op_tenant ?r) (tenants ?d) = Some sample_tenant"
    "int (running_count (op_tenant ?r) ?d) < tn_concurrency_limit sample_tenant"
    "\<And>ty a. attempt ?r < a \<Longrightarrow> event_key ''op1'' ty a \<notin> eo_event_key ` set (event_outbox ?d)"
    "fi_retryable sample_failure"
    by (simp_all add: sample_hdr) (simp_all add: sample_defs running_count_def sample_failure_def)
  from failing_operation_ends [OF inv row f(1-7) longer_event_id_fresh f(8)]
  show ?thesis by (simp add: sample_op_def)
qed

section \<open>From submission to success\<close>

lemma accepted_row:
  assumes "create clk i bound no_faults h d = (d1, cs, JSON 202 b)" "i \<notin> op_id ` set (operations d)"
  obtains r raw inp tn where "bound = Some raw" "check_input raw = Inr inp"
    "operations d1 = operations d @ [r]" "tenants d1 = tenants d" "event_outbox d1 = event_outbox d"
    "r = new_operation (now clk) i (hdr_get h TenantHeader) (idempotency_key r) inp"
    "cs = [RunWorkflow (''operation:'' @ i) (create_envelope i (hdr_get h TenantHeader) inp)]"
    "find_row (\<lambda>x. tn_id x = hdr_get h TenantHeader) (tenants d) = Some tn"
    "int (running_count (hdr_get h TenantHeader) d) < tn_concurrency_limit tn"
proof -
  let ?t = "hdr_get h TenantHeader"
  from assms(1) obtain raw inp idem tn where c: "bound = Some raw" "check_input raw = Inr inp"
      "find_row (\<lambda>x. tn_id x = ?t) (tenants d) = Some tn" "int (running_count ?t d) < tn_concurrency_limit tn"
    and st: "store_operation (now clk) i ?t idem inp no_faults d = (d1, cs, JSON 202 b)"
    by (rule create_202)
  let ?r = "new_operation (now clk) i ?t idem inp"
  from st have "d1 = d\<lparr>operations := operations d @ [?r]\<rparr>"
      "cs = [RunWorkflow (''operation:'' @ i) (create_envelope i ?t inp)]"
    using assms(2) unfolding store_operation_def insert_operation_def
    by (auto simp: put_operation_def insert_new_def find_row_append image_iff new_operation_def
        split: option.splits if_splits dest!: find_row_Some)
  moreover have "idempotency_key ?r = idem" by (simp add: new_operation_def)
  ultimately show ?thesis using c by (intro that [of raw inp ?r tn]) simp_all
qed

text \<open>A completion of the worker that holds the lease.\<close>

lemma complete_step:
  assumes "ops_inv d" "lookup_op d i = Some r" "status r = Running" "lease_owner r = Some (co_worker_id inp)"
    and "op_tenant r = hdr_get h TenantHeader" "g \<notin> eo_id ` set (event_outbox d)"
    and "event_key i ''operation.succeeded'' (attempt r) \<notin> eo_event_key ` set (event_outbox d)"
  shows "\<exists>d' r' e. workerComplete n g i (Some inp) no_faults h d = (d', [], NoContent 204) \<and>
    lookup_op d' i = Some r' \<and> status r' = Succeeded \<and> result r' = json_column (co_result inp) \<and>
    attempt r' = attempt r \<and> lease_owner r' = None \<and> event_outbox d' = event_outbox d @ [e] \<and>
    eo_event_key e = event_key i ''operation.succeeded'' (attempt r) \<and> eo_status e = ObPending \<and>
    eo_tenant_id e = op_tenant r \<and> eo_units e = 1"
proof -
  let ?t = "hdr_get h TenantHeader"
  let ?s = "worker_complete_stmt n i ?t (co_worker_id inp) (co_result inp) (co_ai_explanation inp)"
  let ?e = "new_event n g (event_key i ''operation.succeeded'' (attempt r)) ''operation.succeeded'' i ?t (co_result inp)"
  have dist: "distinct (map op_id (operations d))" using assms(1) by (rule inv_distinct)
  have w: "st_where ?s r" using assms lookup_op_Some [OF assms(2)] by (simp add: worker_complete_stmt_def)
  have find: "find_row (st_where ?s) (operations d) = Some r"
    by (rule find_holder [where P = "st_where ?s", OF dist assms(2) w]) (simp add: worker_complete_stmt_def)
  from worker_completing.exec_hit [OF dist assms(2) w] have
    hit: "lookup_op (fst (exec_stmt ?s d)) i = Some (st_set ?s r)" by auto
  have box: "event_outbox (fst (exec_stmt ?s d)) = event_outbox d" by (rule worker_completing.frame_exec)
  let ?d' = "put_event ?e (fst (exec_stmt ?s d))"
  have "workerComplete n g i (Some inp) no_faults h d = (?d', [], NoContent 204)"
    unfolding workerComplete_def option.case find Let_def
    using assms(6) by (simp add: insertEvent_def box)
  moreover have "event_outbox ?d' = event_outbox d @ [?e]"
    using assms(7) by (simp add: put_event_def insert_new_def box) (simp add: new_event_def)
  moreover have "lookup_op ?d' i = Some (st_set ?s r)"
    using hit by (simp add: put_event_def lookup_op_def)
  ultimately show ?thesis
    using assms(5)
    by (intro exI [of _ ?d'] exI [of _ "st_set ?s r"] exI [of _ ?e])
      (simp add: worker_complete_stmt_def row_defs new_event_def)
qed

text \<open>The workflow of a pending operation queues it and publishes its envelope once.\<close>

lemma pending_published:
  assumes "ops_inv d" "lookup_op d i = Some r" "status r = Pending" "env_operation_id env = i"
  obtains d2 calls q where "queueOperationWorkflow n no_faults env d = (d2, calls, Some i)"
    "filter (\<lambda>c. \<forall>s. c \<noteq> Sleep s) calls = [XAdd env]" "ops_inv d2" "lookup_op d2 i = Some q"
    "status q = Queued" "op_tenant q = op_tenant r" "attempt q = attempt r"
    "tenants d2 = tenants d" "event_outbox d2 = event_outbox d"
    "\<And>t. running_count t d2 = running_count t d"
proof -
  let ?m = "n + workflow_delay n env" and ?s = "enqueue_stmt (n + workflow_delay n env) i"
  let ?d2 = "(fst (exec_stmt ?s d))\<lparr>transition_log := transition_log d @ [enqueue_log ?m env]\<rparr>"
  have id: "op_id r = i" using lookup_op_Some [OF assms(2)] by simp
  have "st_where ?s r" using assms(3) id by (simp add: enqueue_stmt_def)
  from enqueue.exec_hit [OF inv_distinct [OF assms(1)] assms(2) this] have
    hit: "snd (exec_stmt ?s d) = 1" "lookup_op (fst (exec_stmt ?s d)) i = Some (st_set ?s r)"
      "\<forall>j. j = i \<or> lookup_op (fst (exec_stmt ?s d)) j = lookup_op d j" by auto
  have enq: "enqueueOperationStep ?m no_faults env d = (?d2, [XAdd env], Some i)"
    using hit(1) lookup_image [OF hit(2)] assms(4)
    by (simp add: enqueueOperationStep_def split_def publish_step_calls enqueue.frame_exec)
  have inv2: "ops_inv ?d2" using steps_keep_inv [OF enqueueOperationStep_steps assms(1)] enq by (metis fst_conv)
  have row: "lookup_op ?d2 i = Some (st_set ?s r)" using hit(2) by simp
  have q: "status (st_set ?s r) = Queued" "op_tenant (st_set ?s r) = op_tenant r" "attempt (st_set ?s r) = attempt r"
    by (simp_all add: enqueue_stmt_def row_defs)
  have count: "running_count t ?d2 = running_count t d" for t
    by (rule running_count_idle [OF inv_distinct [OF assms(1)] inv_distinct [OF inv2], of i])
      (use hit(3) assms(2,3) row q in \<open>auto simp: idle_at_def\<close>)
  have wf: "queueOperationWorkflow n no_faults env d =
      (?d2, (if workflow_delay n env > 0 then [Sleep (workflow_delay n env)] else []) @ [XAdd env], Some i)"
    using enq by (simp add: queueOperationWorkflow_def Let_def)
  show ?thesis by (rule that [OF wf _ inv2 row q _ _ count]) (simp_all add: enqueue.frame_exec)
qed

lemma submission_published:
  assumes "ops_inv d" "i \<notin> op_id ` set (operations d)"
    and "create clk i (Some raw) no_faults h d = (d1, cs, JSON 202 b)" "ci_execution_mode raw \<noteq> ''CLOUD''"
  obtains env d2 calls q tn where "cs = [RunWorkflow (''operation:'' @ i) env]"
    "queueOperationWorkflow n no_faults env d1 = (d2, calls, Some i)"
    "filter (\<lambda>c. \<forall>s. c \<noteq> Sleep s) calls = [XAdd env]"
    "env_operation_id env = i" "env_tenant_id env = hdr_get h TenantHeader" "env_execution_mode env = ''PRIVATE''"
    "env_attempt env = 0" "ops_inv d2" "lookup_op d2 i = Some q" "status q \<in> {Queued, Retrying}"
    "op_tenant q = hdr_get h TenantHeader" "attempt q = 0" "event_outbox d2 = event_outbox d"
    "find_row (\<lambda>x. tn_id x = op_tenant q) (tenants d2) = Some tn"
    "int (running_count (op_tenant q) d2) < tn_concurrency_limit tn"
proof -
  let ?t = "hdr_get h TenantHeader"
  from accepted_row [OF assms(3,2)] obtain r raw' ci tn where raw: "raw' = raw" and ci: "check_input raw = Inr ci"
    and d1: "operations d1 = operations d @ [r]" "tenants d1 = tenants d" "event_outbox d1 = event_outbox d"
    and r: "r = new_operation (now clk) i ?t (idempotency_key r) ci"
    and cs: "cs = [RunWorkflow (''operation:'' @ i) (create_envelope i ?t ci)]"
    and tn: "find_row (\<lambda>x. tn_id x = ?t) (tenants d) = Some tn"
    and lim: "int (running_count ?t d) < tn_concurrency_limit tn"
    by (metis option.inject)
  let ?env = "create_envelope i ?t ci"
  have mode: "ci_execution_mode ci = ''PRIVATE''"
    using ci assms(4) by (auto simp: check_input_def Let_def split: if_splits)
  have rf: "op_id r = i" "op_tenant r = ?t" "status r = Pending" "attempt r = 0"
    by (subst r, simp add: new_operation_def)+
  have inv1: "ops_inv d1" using create_keeps_inv [OF assms(1), of clk i "Some raw" no_faults h] assms(3) by simp
  have row1: "lookup_op d1 i = Some r"
    using lookup_op_in [OF inv_distinct [OF inv1], of r] rf d1(1) by simp
  have env: "env_operation_id ?env = i" "env_tenant_id ?env = ?t" "env_execution_mode ?env = ''PRIVATE''"
      "env_attempt ?env = 0"
    using mode by (simp_all add: create_envelope_def)
  obtain d2 calls q where wf: "queueOperationWorkflow n no_faults ?env d1 = (d2, calls, Some i)"
      "filter (\<lambda>c. \<forall>s. c \<noteq> Sleep s) calls = [XAdd ?env]" and inv2: "ops_inv d2" and row2: "lookup_op d2 i = Some q"
    and q: "status q = Queued" "op_tenant q = op_tenant r" "attempt q = attempt r"
    and fr2: "tenants d2 = tenants d1" "event_outbox d2 = event_outbox d1"
    and count: "\<And>t. running_count t d2 = running_count t d1"
    by (rule pending_published [OF inv1 row1 rf(3) env(1), of n]) blast
  have "running_count ?t d1 = running_count ?t d"
    using rf by (simp add: running_count_def count_where_def d1(1))
  then show ?thesis
    by (intro that [OF cs wf env inv2 row2]) (use q rf fr2 d1 tn lim count in simp_all)
qed

text \<open>
  C4: An accepted submission can run to success. Take any well-formed database and any private
  submission it accepts. When its workflow runs, the envelope it was started with is
  published once; a worker of the tenant that polls it gets it; and when that worker then
  reports completion, the operation is \<open>SUCCEEDED\<close> after one attempt, with its result stored,
  its lease released, and exactly one success event waiting in the outbox to be billed.
\<close>
theorem submission_succeeds:
  assumes "ops_inv d" "i \<notin> op_id ` set (operations d)" "hdr_get h TenantHeader \<noteq> ''''"
    and "create clk i (Some raw) no_faults h d = (d1, cs, JSON 202 b)"
    and "ci_execution_mode raw \<noteq> ''CLOUD''" "co_worker_id inp \<noteq> ''''"
    and "g \<notin> eo_id ` set (event_outbox d)"
    and "event_key i ''operation.succeeded'' 1 \<notin> eo_event_key ` set (event_outbox d)"
  shows "\<exists>env d2 calls d3 r e d4. cs = [RunWorkflow (''operation:'' @ i) env] \<and>
    queueOperationWorkflow n1 no_faults env d1 = (d2, calls, Some i) \<and>
    filter (\<lambda>c. \<forall>s. c \<noteq> Sleep s) calls = [XAdd env] \<and>
    workerPoll n2 (Some (co_worker_id inp)) CursorNil (\<lambda>p. XReadEntries [(sid, Envelope env)]) (\<lambda>k. no_faults) h d2 =
      (d3, [SetCursor (cursor_key (hdr_get h TenantHeader)) sid], JSON 200 (EnvelopeBody (env\<lparr>env_attempt := 1\<rparr>))) \<and>
    workerComplete n3 g i (Some inp) no_faults h d3 = (d4, [], NoContent 204) \<and>
    lookup_op d4 i = Some r \<and> status r = Succeeded \<and> result r = json_column (co_result inp) \<and>
    attempt r = 1 \<and> lease_owner r = None \<and> event_outbox d4 = event_outbox d @ [e] \<and>
    eo_event_key e = event_key i ''operation.succeeded'' 1 \<and> eo_status e = ObPending \<and>
    eo_tenant_id e = hdr_get h TenantHeader \<and> eo_units e = 1"
proof -
  let ?t = "hdr_get h TenantHeader" and ?w = "co_worker_id inp"
  obtain env d2 calls q tn where cs: "cs = [RunWorkflow (''operation:'' @ i) env]"
    and wf: "queueOperationWorkflow n1 no_faults env d1 = (d2, calls, Some i)"
      "filter (\<lambda>c. \<forall>s. c \<noteq> Sleep s) calls = [XAdd env]"
    and env: "env_operation_id env = i" "env_tenant_id env = ?t" "env_execution_mode env = ''PRIVATE''" "env_attempt env = 0"
    and inv2: "ops_inv d2" and row2: "lookup_op d2 i = Some q" and waiting: "status q \<in> {Queued, Retrying}"
    and q: "op_tenant q = ?t" "attempt q = 0" and fr2: "event_outbox d2 = event_outbox d"
    and tn2: "find_row (\<lambda>x. tn_id x = op_tenant q) (tenants d2) = Some tn"
    and lim2: "int (running_count (op_tenant q) d2) < tn_concurrency_limit tn"
    by (rule submission_published [OF assms(1,2,4,5), of n1])
  obtain d3 where cl: "claimOperation n2 i (op_tenant q) ?w 45 no_faults d2 = (d3, Some (op_tenant q, True))"
    and inv3: "ops_inv d3"
    and row3: "lookup_op d3 i = Some (q\<lparr>status := Running, attempt := attempt q + 1,
       lease_owner := Some ?w, lease_expires_at := Some (n2 + 45 * second), updated_at := n2,
       version := version q + 1\<rparr>)" (is "_ = Some ?r3") and fr3: "event_outbox d3 = event_outbox d2"
    by (rule claim_step [OF inv2 row2 waiting tn2 lim2])
  have poll: "workerPoll n2 (Some ?w) CursorNil (\<lambda>p. XReadEntries [(sid, Envelope env)]) (\<lambda>k. no_faults) h d2 =
      (d3, [SetCursor (cursor_key ?t) sid], JSON 200 (EnvelopeBody (env\<lparr>env_attempt := 1\<rparr>)))"
    using assms(6) cl env q(1) by (simp add: workerPoll_def Let_def)
  have r3: "status ?r3 = Running" "lease_owner ?r3 = Some ?w" "op_tenant ?r3 = ?t" "attempt ?r3 = 1"
    using q by simp_all
  have fresh: "g \<notin> eo_id ` set (event_outbox d3)"
    "event_key i ''operation.succeeded'' (attempt ?r3) \<notin> eo_event_key ` set (event_outbox d3)"
    unfolding r3(4) fr3 fr2 by (rule assms(7,8))+
  from complete_step [OF inv3 row3 r3(1-3) fresh, of n3] obtain d4 r4 e where
    "workerComplete n3 g i (Some inp) no_faults h d3 = (d4, [], NoContent 204)"
    "lookup_op d4 i = Some r4" "status r4 = Succeeded" "result r4 = json_column (co_result inp)"
    "attempt r4 = 1" "lease_owner r4 = None" "event_outbox d4 = event_outbox d @ [e]"
    "eo_event_key e = event_key i ''operation.succeeded'' 1" "eo_status e = ObPending"
    "eo_tenant_id e = ?t" "eo_units e = 1"
    unfolding r3(3,4) fr3 fr2 by blast
  with cs wf poll show ?thesis
    by (intro exI [of _ env] exI [of _ d2] exI [of _ calls] exI [of _ d3] exI [of _ r4]
        exI [of _ e] exI [of _ d4]) simp
qed

definition sample_completion :: completeInput where
  "sample_completion = \<lparr>co_worker_id = ''w'', co_result = ''{}'', co_ai_explanation = ''''\<rparr>"

theorem submission_succeeds_witness:
  "\<exists>d1 env d2 calls d3 r d4.
    create sample_clock ''op9'' (Some sample_input) no_faults sample_header (sample_db []) =
      (d1, [RunWorkflow (''operation:op9'') env], JSON 202 (OpBody (scanOperation (hd (operations d1))))) \<and>
    queueOperationWorkflow 6 no_faults env d1 = (d2, calls, Some ''op9'') \<and>
    workerComplete 8 ''g1'' ''op9'' (Some sample_completion) no_faults sample_header d3 = (d4, [], NoContent 204) \<and>
    lookup_op d4 ''op9'' = Some r \<and> status r = Succeeded \<and> attempt r = 1"
proof -
  let ?r = "create sample_clock ''op9'' (Some sample_input) no_faults sample_header (sample_db [])"
  obtain b where r: "?r = (fst ?r, fst (snd ?r), JSON 202 b)" using sample_create(2) by (metis prod.collapse)
  have b: "JSON 202 b = JSON 202 (OpBody (scanOperation (hd (operations (fst ?r)))))"
    using sample_create(2) r
    by (simp add: create_def sample_hdr sample_check Let_def sample_defs used_units_def
      running_count_def store_operation_def insert_operation_def put_operation_def
      insert_new_def new_operation_def)
  have inv: "ops_inv (sample_db [])" by (simp add: ops_inv_def sample_defs)
  have f: "''op9'' \<notin> op_id ` set (operations (sample_db []))" "hdr_get sample_header TenantHeader \<noteq> ''''"
    "ci_execution_mode sample_input \<noteq> ''CLOUD''" "co_worker_id sample_completion \<noteq> ''''"
    "''g1'' \<notin> eo_id ` set (event_outbox (sample_db []))"
    "event_key ''op9'' ''operation.succeeded'' 1 \<notin> eo_event_key ` set (event_outbox (sample_db []))"
    by (simp_all add: sample_hdr) (simp_all add: sample_defs sample_input_def sample_completion_def)
  from submission_succeeds [OF inv f(1,2) r f(3-6), of 6 7 "StreamId 1 0" 8] obtain env d2 calls d3 q d4 where
    "fst (snd ?r) = [RunWorkflow (''operation:'' @ ''op9'') env]"
    "queueOperationWorkflow 6 no_faults env (fst ?r) = (d2, calls, Some ''op9'')"
    "workerComplete 8 ''g1'' ''op9'' (Some sample_completion) no_faults sample_header d3 = (d4, [], NoContent 204)"
    "lookup_op d4 ''op9'' = Some q" "status q = Succeeded" "attempt q = 1" by blast
  with r b show ?thesis
    by (intro exI [of _ "fst ?r"] exI [of _ env] exI [of _ d2] exI [of _ calls] exI [of _ d3] exI [of _ q] exI [of _ d4])
      simp
qed

end
