(* ===== verification/Billing.thy ===== *)
theory Billing
  imports Usage Submission
begin

text \<open>
  Billing across the two services. The Operations service stores an event with the
  transition that causes it, its dispatcher posts the event to the Usage service until it
  is acknowledged, and the Usage service inserts it into the ledger unless its key is known.
  Posts may be repeated, answers may be lost, and everything may interleave; still each
  delivered event is billed exactly once.
\<close>

section \<open>One request to the Usage service\<close>

lemma put_ledger_other [simp]:
  "webhook_outbox (put_ledger r d) = webhook_outbox d" "event_outbox (put_ledger r d) = event_outbox d"
  "operations (put_ledger r d) = operations d" "tenants (put_ledger r d) = tenants d"
  "webhook_endpoints (put_ledger r d) = webhook_endpoints d"
  by (simp_all add: put_ledger_def)

lemma fan_out_frame [simp]:
  "ledger (fan_out n g ev d) = ledger d" "event_outbox (fan_out n g ev d) = event_outbox d"
  "operations (fan_out n g ev d) = operations d" "tenants (fan_out n g ev d) = tenants d"
  by (simp_all add: fan_out_def)

lemma record_tx_known:
  assumes "record_tx n g ev f d = Some d'" "ev_event_key ev \<in> le_event_key ` set (ledger d)"
  shows "d' = d"
proof -
  have "le_event_key (ledger_entry n ev) \<in> le_event_key ` set (ledger d)"
    using assms(2) by (simp add: ledger_entry_def)
  then have "put_ledger (ledger_entry n ev) d = d" by (rule ledger_store.put_known)
  with assms show ?thesis
    by (auto simp: record_tx_def insert_ledger_def split: if_splits)
qed

lemma record_tx_fresh:
  assumes "record_tx n g ev f d = Some d'" "ev_event_key ev \<notin> le_event_key ` set (ledger d)"
  shows "d' = fan_out n g ev (d\<lparr>ledger := ledger d @ [ledger_entry n ev]\<rparr>) \<and> 0 \<le> ev_units ev \<and>
    ev_tenant_id ev \<in> tn_id ` set (tenants d)"
proof -
  have "put_ledger (ledger_entry n ev) d = d\<lparr>ledger := ledger d @ [ledger_entry n ev]\<rparr>"
    using assms(2) by (simp add: put_ledger_def insert_new_def ledger_entry_def)
  with assms show ?thesis
    by (auto simp: record_tx_def insert_ledger_def Let_def split: if_splits)
qed

text \<open>
  A recorded event takes effect once and as a whole. A request answered 202 with a key
  the ledger knows changes nothing in the database; with a new key it adds one ledger row
  with the event's units and, in the same transaction, one pending delivery for each enabled
  endpoint of the event's tenant and for no other; any other answer leaves the state as it
  was. Negative units and unknown tenants never reach the ledger.
\<close>
lemma record_event_effect:
  assumes "recordEvent enc n g (Some raw) f h s = (s', cs, reply)"
  shows "(s' = s \<and> reply_status reply \<in> {400, 500}) \<or>
    (reply = NoContent 202 \<and> (\<exists>ev. check_event n raw = Some ev \<and>
      us_subs s' = publish (ev_tenant_id ev) (enc ev) (us_subs s) \<and>
      (if ev_event_key ev \<in> le_event_key ` set (ledger (us_db s)) then us_db s' = us_db s
       else 0 \<le> ev_units ev \<and> ev_tenant_id ev \<in> tn_id ` set (tenants (us_db s)) \<and>
         us_db s' = (us_db s)\<lparr>ledger := ledger (us_db s) @ [ledger_entry n ev],
           webhook_outbox := webhook_outbox (us_db s) @ map (\<lambda>e. new_webhook n (g e) ev e)
             (filter (\<lambda>e. we_tenant_id e = ev_tenant_id ev \<and> we_enabled e)
               (webhook_endpoints (us_db s)))\<rparr>)))"
proof (cases "check_event n raw")
  case None
  with assms show ?thesis by (auto simp: recordEvent_def)
next
  case (Some ev)
  show ?thesis
  proof (cases "record_tx n g ev f (us_db s)")
    case None
    with assms Some show ?thesis by (auto simp: recordEvent_def)
  next
    case (Some d')
    note tx = this
    from assms \<open>check_event n raw = Some ev\<close> tx have
      res: "s' = \<lparr>us_db = d', us_subs = publish (ev_tenant_id ev) (enc ev) (us_subs s)\<rparr>"
        "reply = NoContent 202"
      by (auto simp: recordEvent_def)
    show ?thesis
    proof (cases "ev_event_key ev \<in> le_event_key ` set (ledger (us_db s))")
      case True
      with res record_tx_known [OF tx] \<open>check_event n raw = Some ev\<close> show ?thesis by simp
    next
      case False
      with res record_tx_fresh [OF tx] \<open>check_event n raw = Some ev\<close> show ?thesis
        by (simp add: fan_out_def)
    qed
  qed
qed

definition sample_usage_event :: OperationEvent where
  "sample_usage_event = \<lparr>ev_event_key = ''k'', ev_event_type = ''operation.succeeded'',
     ev_operation_id = ''op1'', ev_tenant_id = ''t1'', ev_units = 1, ev_payload = ''{}'',
     ev_occurred_at = 3\<rparr>"

lemma record_event_effect_witness:
  "let s = \<lparr>us_db = sample_db [], us_subs = []\<rparr>;
       s' = fst (recordEvent (\<lambda>e. []) 5 we_id (Some sample_usage_event) no_faults [] s)
   in ledger (us_db s') = [ledger_entry 5 sample_usage_event]"
proof -
  let ?s = "\<lparr>us_db = sample_db [], us_subs = []\<rparr>"
  let ?r = "recordEvent (\<lambda>e. []) 5 we_id (Some sample_usage_event) no_faults [] ?s"
  have r: "?r = (fst ?r, fst (snd ?r), snd (snd ?r))" by simp
  have 202: "snd (snd ?r) = NoContent 202"
    by (simp add: recordEvent_def check_event_def sample_usage_event_def record_tx_def
        insert_ledger_def sample_defs put_ledger_def)
  have chk: "check_event 5 sample_usage_event = Some sample_usage_event"
    by (simp add: check_event_def sample_usage_event_def)
  have new: "ledger (us_db ?s) = []" by (simp add: sample_defs)
  from record_event_effect [OF r] 202 show ?thesis
    by (simp add: chk new Let_def) (simp add: sample_defs)
qed

section \<open>The two services together\<close>

text \<open>
  The state adds to the database what the dispatcher knows: the events whose post was
  answered 2xx and whose rows it is about to mark delivered. A post can commit and its
  answer be lost. Cloud workers post their events straight to the Usage service
  (\<open>emit\<close> in \<open>cmd/worker/main.go\<close>); \<open>bl_cloud\<close> collects the keys they used.
\<close>

record bill_state =
  bl_db :: database
  bl_acked :: "event_row list"
  bl_cloud :: "string set"

datatype bill_tag = BOperations | BPost | BAck | BRetry | BEmit

inductive bill_step :: "bill_state \<Rightarrow> bill_tag \<Rightarrow> bill_state \<Rightarrow> bool" where
  bill_operations: "op_step d l d' \<Longrightarrow> l \<noteq> TOutbox \<Longrightarrow>
    bill_step \<lparr>bl_db = d, bl_acked = a, bl_cloud = c\<rparr> BOperations \<lparr>bl_db = d', bl_acked = a, bl_cloud = c\<rparr>"
| bill_post: "x \<in> set (event_outbox d) \<Longrightarrow>
    recordEvent enc n g (Some (event_of_row m x)) f h \<lparr>us_db = d, us_subs = subs\<rparr> = (s', cs, reply) \<Longrightarrow>
    bill_step \<lparr>bl_db = d, bl_acked = a, bl_cloud = c\<rparr> BPost \<lparr>bl_db = us_db s',
      bl_acked = (if lost \<or> \<not> is_2xx (reply_status reply) then a else x # a), bl_cloud = c\<rparr>"
| bill_ack: "x \<in> set a \<Longrightarrow>
    bill_step \<lparr>bl_db = d, bl_acked = a, bl_cloud = c\<rparr> BAck
      \<lparr>bl_db = d\<lparr>event_outbox := event_delivered n (eo_id x) (event_outbox d)\<rparr>, bl_acked = a, bl_cloud = c\<rparr>"
| bill_retry: "bill_step \<lparr>bl_db = d, bl_acked = a, bl_cloud = c\<rparr> BRetry
      \<lparr>bl_db = d\<lparr>event_outbox := event_retry n i err secs (event_outbox d)\<rparr>, bl_acked = a, bl_cloud = c\<rparr>"
| bill_emit: "recordEvent enc n g (Some raw) f h \<lparr>us_db = d, us_subs = subs\<rparr> = (s', cs, reply) \<Longrightarrow>
    bill_step \<lparr>bl_db = d, bl_acked = a, bl_cloud = c\<rparr> BEmit
      \<lparr>bl_db = us_db s', bl_acked = a, bl_cloud = insert (ev_event_key raw) c\<rparr>"

text \<open>\<open>billed e l\<close>: the ledger row \<open>l\<close> bills the event \<open>e\<close>.\<close>

definition billed :: "event_row \<Rightarrow> ledger_row \<Rightarrow> bool" where
  "billed e l \<longleftrightarrow> le_event_key l = eo_event_key e \<and> le_tenant_id l = eo_tenant_id e \<and>
     le_operation_id l = eo_operation_id e \<and> le_units l = eo_units e"

text \<open>The columns of an event that are never updated.\<close>

definition event_content :: "event_row \<Rightarrow> string \<times> string \<times> string \<times> string \<times> string \<times> int \<times> string" where
  "event_content e = (eo_id e, eo_event_key e, eo_event_type e, eo_operation_id e, eo_tenant_id e,
     eo_units e, eo_payload e)"

text \<open>
  The ledger has the event: a row that bills it, or a row under its key when a cloud worker
  used that key.
\<close>

definition in_ledger :: "ledger_row list \<Rightarrow> string set \<Rightarrow> event_row \<Rightarrow> bool" where
  "in_ledger ls c e \<longleftrightarrow> (\<exists>l\<in>set ls. le_event_key l = eo_event_key e \<and>
     (billed e l \<or> eo_event_key e \<in> c))"

definition bill_inv :: "bill_state \<Rightarrow> bool" where
  "bill_inv s \<longleftrightarrow>
     distinct (map eo_event_key (event_outbox (bl_db s))) \<and>
     distinct (map eo_id (event_outbox (bl_db s))) \<and>
     distinct (map le_event_key (ledger (bl_db s))) \<and>
     (\<forall>l\<in>set (ledger (bl_db s)). le_event_key l \<in> bl_cloud s \<or>
        (\<exists>e\<in>set (event_outbox (bl_db s)). billed e l)) \<and>
     (\<forall>e\<in>set (event_outbox (bl_db s)). eo_status e = ObDelivered \<longrightarrow>
        in_ledger (ledger (bl_db s)) (bl_cloud s) e) \<and>
     (\<forall>x\<in>set (bl_acked s). event_content x \<in> event_content ` set (event_outbox (bl_db s)) \<and>
        in_ledger (ledger (bl_db s)) (bl_cloud s) x)"

lemma billed_content: "event_content e = event_content e' \<Longrightarrow> billed e l = billed e' l"
  by (simp add: event_content_def billed_def)

lemma insertEvent_effect:
  assumes "insertEvent n g key ty i t p d = Some d'"
  shows "ledger d' = ledger d \<and> (event_outbox d' = event_outbox d \<or>
    (\<exists>x. event_outbox d' = event_outbox d @ [x] \<and> eo_status x = ObPending \<and>
       eo_event_key x \<notin> eo_event_key ` set (event_outbox d) \<and> eo_id x \<notin> eo_id ` set (event_outbox d)))"
  using assms
  by (auto simp: insertEvent_def put_event_def insert_new_def new_event_def split: if_splits)

lemma exec_ledger [simp]: "ledger (fst (exec_stmt st d)) = ledger d"
  by (simp add: exec_stmt_def)

lemma op_step_outbox:
  assumes "op_step d l d'" "l \<noteq> TOutbox"
  shows "ledger d' = ledger d \<and> (event_outbox d' = event_outbox d \<or>
    (\<exists>x. event_outbox d' = event_outbox d @ [x] \<and> eo_status x = ObPending \<and>
       eo_event_key x \<notin> eo_event_key ` set (event_outbox d) \<and> eo_id x \<notin> eo_id ` set (event_outbox d)))"
  using assms(1)
proof (cases rule: op_step.cases)
  case (step_create inp n i t idem)
  then show ?thesis by (auto simp: insert_operation_def split: if_splits)
next
  case (step_worker_complete st n i t w res expl r g p)
  with insertEvent_effect [OF this(4)] show ?thesis by simp
next
  case (step_worker_fail ty st n g i a t p w code msg expl)
  with insertEvent_effect [OF this(4)] show ?thesis by simp
next
  case (step_reap_dead n g i a t p)
  with insertEvent_effect [OF this(2)] show ?thesis by simp
qed (use assms(2) in simp_all)

text \<open>An update of the outbox that keeps the content columns.\<close>

lemma in_ledger_content: "event_content e = event_content e' \<Longrightarrow> in_ledger ls c e = in_ledger ls c e'"
  using billed_content [of e e'] by (auto simp: in_ledger_def event_content_def)

lemma in_ledger_mono: "in_ledger ls c e \<Longrightarrow> in_ledger (ls @ ls') (c \<union> c') e"
  unfolding in_ledger_def by auto

lemma bill_inv_update:
  assumes inv: "bill_inv \<lparr>bl_db = d, bl_acked = a, bl_cloud = c\<rparr>"
    and keep: "\<And>e. event_content (f e) = event_content e"
    and del: "\<And>e. e \<in> set (event_outbox d) \<Longrightarrow> P e \<Longrightarrow> eo_status (f e) = ObDelivered \<Longrightarrow>
      eo_status e = ObDelivered \<or> in_ledger (ledger d) c e"
  shows "bill_inv \<lparr>bl_db = d\<lparr>event_outbox := update_where P f (event_outbox d)\<rparr>, bl_acked = a, bl_cloud = c\<rparr>"
proof -
  let ?o = "event_outbox d" and ?o' = "update_where P f (event_outbox d)"
  have keys: "map eo_event_key ?o' = map eo_event_key ?o" "map eo_id ?o' = map eo_id ?o"
    using keep by (auto simp: event_content_def intro!: map_update_where)
  have img: "event_content ` set ?o' = event_content ` set ?o" by (rule image_update_where) (rule keep)
  have b: "billed (f e) l = billed e l" for e l by (rule billed_content) (rule keep)
  have il: "in_ledger (ledger d) c (f e) = in_ledger (ledger d) c e" for e
    by (rule in_ledger_content) (rule keep)
  have led: "\<forall>l\<in>set (ledger d). le_event_key l \<in> c \<or> (\<exists>e\<in>set ?o'. billed e l)"
  proof
    fix l assume l: "l \<in> set (ledger d)"
    show "le_event_key l \<in> c \<or> (\<exists>e\<in>set ?o'. billed e l)"
    proof (cases "le_event_key l \<in> c")
      case False
      with inv l obtain e where e: "e \<in> set ?o" "billed e l" by (auto simp: bill_inv_def)
      then have "(if P e then f e else e) \<in> set ?o'" by (auto simp: in_update_where)
      moreover have "billed (if P e then f e else e) l" using e b by simp
      ultimately show ?thesis by blast
    qed simp
  qed
  have dl: "\<forall>e\<in>set ?o'. eo_status e = ObDelivered \<longrightarrow> in_ledger (ledger d) c e"
  proof (intro ballI impI)
    fix e assume e: "e \<in> set ?o'" "eo_status e = ObDelivered"
    then obtain r where r: "r \<in> set ?o" "e = (if P r then f r else r)" by (auto simp: in_update_where)
    have "eo_status r = ObDelivered \<or> in_ledger (ledger d) c r"
      using del [OF r(1)] e(2) r(2) by (cases "P r") auto
    with inv r(1) have "in_ledger (ledger d) c r" by (auto simp: bill_inv_def)
    with r(2) il show "in_ledger (ledger d) c e" by (cases "P r") auto
  qed
  show ?thesis using inv led dl by (simp add: bill_inv_def keys img)
qed

lemma bill_inv_append:
  assumes inv: "bill_inv \<lparr>bl_db = d, bl_acked = a, bl_cloud = c\<rparr>"
    and d': "ledger d' = ledger d" "event_outbox d' = event_outbox d @ [x]"
    and x: "eo_status x = ObPending" "eo_event_key x \<notin> eo_event_key ` set (event_outbox d)"
      "eo_id x \<notin> eo_id ` set (event_outbox d)"
  shows "bill_inv \<lparr>bl_db = d', bl_acked = a, bl_cloud = c\<rparr>"
  using inv x unfolding bill_inv_def by (auto simp: d' image_iff)

text \<open>A committed request for a key, from the dispatcher or from a cloud worker.\<close>

lemma bill_inv_grow:
  assumes inv: "bill_inv \<lparr>bl_db = d, bl_acked = a, bl_cloud = c\<rparr>"
    and tx: "record_tx n g ev f d = Some d'"
    and src: "ev_event_key ev \<in> c' \<or> (\<exists>e\<in>set (event_outbox d). billed e (ledger_entry n ev))"
  shows "bill_inv \<lparr>bl_db = d', bl_acked = a, bl_cloud = c \<union> c'\<rparr>"
proof (cases "ev_event_key ev \<in> le_event_key ` set (ledger d)")
  case True
  with inv record_tx_known [OF tx] show ?thesis
    using in_ledger_mono [where ls' = "[]" and c = c and c' = c'] by (auto simp: bill_inv_def)
next
  case False
  from record_tx_fresh [OF tx False] have
    d': "ledger d' = ledger d @ [ledger_entry n ev]" "event_outbox d' = event_outbox d"
    by simp_all
  have key: "le_event_key (ledger_entry n ev) = ev_event_key ev" by (simp add: ledger_entry_def)
  show ?thesis
    using inv False src in_ledger_mono [where ls' = "[ledger_entry n ev]" and c = c and c' = c']
    unfolding bill_inv_def by (auto simp: d' key)
qed

lemma record_posted:
  assumes inv: "bill_inv \<lparr>bl_db = d, bl_acked = a, bl_cloud = c\<rparr>" and x: "x \<in> set (event_outbox d)"
    and tx: "record_tx n g ev f d = Some d'" and ev: "check_event n (event_of_row m x) = Some ev"
  shows "bill_inv \<lparr>bl_db = d', bl_acked = x # a, bl_cloud = c\<rparr> \<and> bill_inv \<lparr>bl_db = d', bl_acked = a, bl_cloud = c\<rparr>"
proof -
  have key: "ev_event_key ev = eo_event_key x" "ev_tenant_id ev = eo_tenant_id x"
      "ev_operation_id ev = eo_operation_id x" "ev_units ev = eo_units x"
    using ev by (auto simp: check_event_def event_of_row_def Let_def split: if_splits)
  have new: "billed x (ledger_entry n ev)" by (simp add: billed_def ledger_entry_def key)
  have inv': "bill_inv \<lparr>bl_db = d', bl_acked = a, bl_cloud = c\<rparr>"
    using bill_inv_grow [OF inv tx, of "{}"] new x by auto
  have out: "event_outbox d' = event_outbox d"
    using record_tx_known [OF tx] record_tx_fresh [OF tx]
    by (cases "ev_event_key ev \<in> le_event_key ` set (ledger d)") simp_all
  have "in_ledger (ledger d') c x"
  proof (cases "ev_event_key ev \<in> le_event_key ` set (ledger d)")
    case True
    then obtain l where l: "l \<in> set (ledger d)" "le_event_key l = eo_event_key x" by (auto simp: key)
    have "billed x l" if "eo_event_key x \<notin> c"
    proof -
      from inv l that obtain e where e: "e \<in> set (event_outbox d)" "billed e l" by (auto simp: bill_inv_def)
      then have "e = x"
        using inv x l by (intro distinct_map_eq [of eo_event_key]) (auto simp: bill_inv_def billed_def)
      with e show ?thesis by simp
    qed
    with l record_tx_known [OF tx True] show ?thesis by (auto simp: in_ledger_def)
  next
    case False
    with record_tx_fresh [OF tx] new show ?thesis by (simp add: in_ledger_def ledger_entry_def key)
  qed
  with inv' x show ?thesis by (simp add: bill_inv_def out)
qed

lemma recordEvent_cases:
  assumes "recordEvent enc n g (Some raw) f h s = (s', cs, reply)"
  shows "us_db s' = us_db s \<and> \<not> is_2xx (reply_status reply) \<or>
    (\<exists>ev. check_event n raw = Some ev \<and> record_tx n g ev f (us_db s) = Some (us_db s'))"
  using assms by (auto simp: recordEvent_def is_2xx_def split: option.splits)

lemma bill_inv_step: "bill_step s t s' \<Longrightarrow> bill_inv s \<Longrightarrow> bill_inv s'"
proof (induction rule: bill_step.induct)
  case (bill_operations d l d' a c)
  from op_step_outbox [OF bill_operations(1,2)] show ?case
  proof (elim conjE disjE exE)
    assume "ledger d' = ledger d" "event_outbox d' = event_outbox d"
    with bill_operations(3) show ?thesis by (simp add: bill_inv_def)
  qed (rule bill_inv_append [OF bill_operations(3)])
next
  case (bill_post x d enc n g m f h subs s' cs reply a c lost)
  from recordEvent_cases [OF bill_post(2)] show ?case
  proof (elim disjE conjE exE)
    assume "us_db s' = us_db \<lparr>us_db = d, us_subs = subs\<rparr>" "\<not> is_2xx (reply_status reply)"
    with bill_post(3) show ?thesis by simp
  next
    fix ev
    assume "check_event n (event_of_row m x) = Some ev"
      "record_tx n g ev f (us_db \<lparr>us_db = d, us_subs = subs\<rparr>) = Some (us_db s')"
    with record_posted [OF bill_post(3) bill_post(1)] show ?thesis by auto
  qed
next
  case (bill_ack x a d c n)
  show ?case
    unfolding event_delivered_def
  proof (rule bill_inv_update [OF bill_ack(2)])
    fix e assume e: "e \<in> set (event_outbox d)" "eo_id e = eo_id x"
    from bill_ack obtain y where y: "y \<in> set (event_outbox d)" "event_content y = event_content x"
      and l: "in_ledger (ledger d) c x"
      by (force simp: bill_inv_def)
    have "e = y"
      using e y bill_ack(2) by (intro distinct_map_eq [of eo_id]) (auto simp: bill_inv_def event_content_def)
    with y l show "eo_status e = ObDelivered \<or> in_ledger (ledger d) c e"
      using in_ledger_content by blast
  qed (simp add: event_content_def)
next
  case (bill_retry d a c n i err secs)
  show ?case
    unfolding event_retry_def
    by (rule bill_inv_update [OF bill_retry]) (simp_all add: event_content_def)
next
  case (bill_emit enc n g raw f h d subs s' cs reply a c)
  have same: "bill_inv \<lparr>bl_db = d, bl_acked = a, bl_cloud = insert k c\<rparr>" for k
    using bill_emit(2) in_ledger_mono [where ls' = "[]" and c = c and c' = "{k}"]
    by (auto simp: bill_inv_def)
  from recordEvent_cases [OF bill_emit(1)] show ?case
  proof (elim disjE conjE exE)
    assume "us_db s' = us_db \<lparr>us_db = d, us_subs = subs\<rparr>"
    with same show ?thesis by simp
  next
    fix ev
    assume ev: "check_event n raw = Some ev"
      and tx: "record_tx n g ev f (us_db \<lparr>us_db = d, us_subs = subs\<rparr>) = Some (us_db s')"
    have "ev_event_key ev = ev_event_key raw"
      using ev by (auto simp: check_event_def Let_def split: if_splits)
    with bill_inv_grow [OF bill_emit(2), of n g ev f "us_db s'" "{ev_event_key raw}"] tx show ?thesis by simp
  qed
qed

interpretation billing: step_invariant bill_step bill_inv
  by unfold_locales (rule bill_inv_step)


definition sample_pending :: event_row where
  "sample_pending = new_event 1 ''g1'' ''k'' ''operation.succeeded'' ''op1'' ''t1'' ''{}''"

definition sample_posted :: usage_state where
  "sample_posted = fst (recordEvent (\<lambda>e. []) 5 we_id (Some (event_of_row 3 sample_pending)) no_faults []
     \<lparr>us_db = (sample_db [])\<lparr>event_outbox := [sample_pending]\<rparr>, us_subs = []\<rparr>)"

lemma sample_posted_eq: "us_db sample_posted = (sample_db [])\<lparr>event_outbox := [sample_pending],
    ledger := [ledger_entry 5 (event_of_row 3 sample_pending)]\<rparr>"
  by (simp add: sample_posted_def recordEvent_def check_event_def event_of_row_def sample_pending_def
      new_event_def event_payload_def record_tx_def insert_ledger_def sample_defs put_ledger_def
      insert_new_def fan_out_def ledger_entry_def Let_def)

lemma sample_bill_run:
  "runs bill_step \<lparr>bl_db = (sample_db [])\<lparr>event_outbox := [sample_pending]\<rparr>, bl_acked = [], bl_cloud = {}\<rparr> [BPost, BAck]
     \<lparr>bl_db = (us_db sample_posted)\<lparr>event_outbox := event_delivered 6 (eo_id sample_pending) [sample_pending]\<rparr>,
      bl_acked = [sample_pending], bl_cloud = {}\<rparr>"
proof -
  let ?d = "(sample_db [])\<lparr>event_outbox := [sample_pending]\<rparr>"
  let ?r = "recordEvent (\<lambda>e. []) 5 we_id (Some (event_of_row 3 sample_pending)) no_faults []
     \<lparr>us_db = ?d, us_subs = []\<rparr>"
  have r: "?r = (sample_posted, fst (snd ?r), snd (snd ?r))" by (simp add: sample_posted_def)
  have ok: "is_2xx (reply_status (snd (snd ?r)))"
    by (simp add: recordEvent_def check_event_def event_of_row_def sample_pending_def
      new_event_def event_payload_def record_tx_def insert_ledger_def sample_defs is_2xx_def Let_def)
  have "bill_step \<lparr>bl_db = ?d, bl_acked = [], bl_cloud = {}\<rparr> BPost \<lparr>bl_db = us_db sample_posted,
      bl_acked = (if False \<or> \<not> is_2xx (reply_status (snd (snd ?r))) then [] else [sample_pending]), bl_cloud = {}\<rparr>"
    by (rule bill_post [OF _ r]) simp
  then have post: "bill_step \<lparr>bl_db = ?d, bl_acked = [], bl_cloud = {}\<rparr> BPost
      \<lparr>bl_db = us_db sample_posted, bl_acked = [sample_pending], bl_cloud = {}\<rparr>"
    using ok by simp
  have "bill_step \<lparr>bl_db = us_db sample_posted, bl_acked = [sample_pending], bl_cloud = {}\<rparr> BAck
      \<lparr>bl_db = (us_db sample_posted)\<lparr>event_outbox :=
         event_delivered 6 (eo_id sample_pending) (event_outbox (us_db sample_posted))\<rparr>,
       bl_acked = [sample_pending], bl_cloud = {}\<rparr>"
    by (rule bill_ack) simp
  then have "bill_step \<lparr>bl_db = us_db sample_posted, bl_acked = [sample_pending], bl_cloud = {}\<rparr> BAck
      \<lparr>bl_db = (us_db sample_posted)\<lparr>event_outbox := event_delivered 6 (eo_id sample_pending) [sample_pending]\<rparr>,
       bl_acked = [sample_pending], bl_cloud = {}\<rparr>"
    by (simp add: sample_posted_eq)
  with post show ?thesis by (meson runs_Cons runs_single)
qed


section \<open>One charge per operation\<close>

definition charge_inv :: "bill_state \<Rightarrow> bool" where
  "charge_inv s \<longleftrightarrow> bill_inv s \<and> success_inv (bl_db s)"

lemma success_inv_frame:
  "operations d' = operations d \<Longrightarrow>
   (\<And>i. count_where (is_success i) (event_outbox d') = count_where (is_success i) (event_outbox d)) \<Longrightarrow>
   success_inv d \<Longrightarrow> success_inv d'"
  by (simp add: success_inv_def lookup_op_def)

lemma recordEvent_frame:
  assumes "recordEvent enc n g (Some raw) f h s = (s', cs, reply)"
  shows "operations (us_db s') = operations (us_db s) \<and> event_outbox (us_db s') = event_outbox (us_db s)"
proof -
  have "operations d' = operations d \<and> event_outbox d' = event_outbox d"
    if "record_tx n g ev f d = Some d'" for ev d d'
    using that record_tx_known [OF that] record_tx_fresh [OF that]
    by (cases "ev_event_key ev \<in> le_event_key ` set (ledger d)") simp_all
  then show ?thesis using assms by (auto simp: recordEvent_def split: option.splits)
qed

lemma success_inv_bill_step: "bill_step s t s' \<Longrightarrow> success_inv (bl_db s) \<Longrightarrow> success_inv (bl_db s')"
proof (induction rule: bill_step.induct)
  case (bill_operations d l d' a c)
  then show ?case by (auto intro: success_inv_step)
next
  case (bill_post x d enc n g m f h subs s' cs reply a c lost)
  then show ?case
    using recordEvent_frame [OF bill_post(2)] by (auto intro: success_inv_frame [of _ d])
next
  case (bill_ack x a d c n)
  then show ?case by (auto intro: success_inv_frame [of _ d] simp: count_success_update)
next
  case (bill_retry d a c n i err secs)
  then show ?case by (auto intro: success_inv_frame [of _ d] simp: count_success_update)
next
  case (bill_emit enc n g raw f h d subs s' cs reply a c)
  then show ?case
    using recordEvent_frame [OF bill_emit(1)] by (auto intro: success_inv_frame [of _ d])
qed

interpretation charging: step_invariant bill_step charge_inv
  by unfold_locales (auto simp: charge_inv_def intro: bill_inv_step success_inv_bill_step)

text \<open>The rows of the ledger inject into the events they bill.\<close>

lemma ledger_le_outbox:
  assumes "distinct (map le_event_key ls)" "distinct (map eo_event_key es)"
    and "\<And>l. l \<in> set ls \<Longrightarrow> P l \<Longrightarrow> \<exists>e\<in>set es. Q e \<and> eo_event_key e = le_event_key l"
  shows "count_where P ls \<le> count_where Q es"
proof -
  have "distinct (map le_event_key (filter P ls))" "distinct (map eo_event_key (filter Q es))"
    using assms(1,2) by (simp_all add: distinct_map inj_on_def)
  then have "length (filter P ls) = card (le_event_key ` set (filter P ls))"
    "length (filter Q es) = card (eo_event_key ` set (filter Q es))"
    by (metis distinct_card length_map set_map)+
  moreover have "le_event_key ` set (filter P ls) \<subseteq> eo_event_key ` set (filter Q es)"
  proof
    fix k assume "k \<in> le_event_key ` set (filter P ls)"
    then obtain l where "l \<in> set ls" "P l" "k = le_event_key l" by auto
    with assms(3) [of l] show "k \<in> eo_event_key ` set (filter Q es)" by force
  qed
  then have "card (le_event_key ` set (filter P ls)) \<le> card (eo_event_key ` set (filter Q es))"
    by (intro card_mono) auto
  ultimately show ?thesis by (simp add: count_where_def)
qed



section \<open>Quotas\<close>

lemma filter_singleton: "distinct xs \<Longrightarrow> x \<in> set xs \<Longrightarrow> filter (\<lambda>y. y = x) xs = [x]"
  by (induction xs) (auto simp: filter_empty_conv)

lemma store_not_402: "snd (snd (store_operation n i t idem inp f d)) \<noteq> HTTPError 402 msg"
  by (auto simp: store_operation_def Let_def split: option.split)

text \<open>
  C39: The two services agree on quotas. What the Usage service tells a customer, what it lists
  for an administrator and what gates submissions are the same number: the units used this
  month, of which nothing remains exactly when the Operations service refuses a valid
  submission with 402, changing nothing.
\<close>
theorem quota_agrees:
  assumes "find_row (\<lambda>x. tn_id x = hdr_get h TenantHeader) (tenants (us_db s)) = Some tn"
    and "check_input raw = Inr inp" "check_key h = Inr idem" "hdr_get h' RoleHeader = ''admin''"
    and "distinct (map tn_id (tenants (us_db s)))"
  shows "\<exists>u items. getUsage clk no_faults h s = (s, [], JSON 200 (UsageInfo u)) \<and>
    ui_used u + ui_remaining u = max (ui_used u) (ui_quota u) \<and>
    (ui_remaining u = 0 \<longleftrightarrow> create clk i (Some raw) no_faults h (us_db s) =
      (us_db s, [], HTTPError 402 ''monthly quota exhausted'')) \<and>
    adminUsage clk no_faults h' s = (s, [], JSON 200 (TenantItems items)) \<and>
    filter (\<lambda>x. tu_tenant_id x = hdr_get h TenantHeader) items =
      [\<lparr>tu_tenant_id = hdr_get h TenantHeader, tu_name = tn_name tn, tu_quota = ui_quota u, tu_used = ui_used u\<rparr>]"
proof -
  let ?t = "hdr_get h TenantHeader" and ?d = "us_db s"
  let ?used = "month_units clk ?t ?d"
  let ?u = "\<lparr>ui_used = ?used, ui_quota = tn_monthly_quota tn, ui_remaining = max (tn_monthly_quota tn - ?used) 0\<rparr>"
  let ?item = "\<lambda>x. \<lparr>tu_tenant_id = tn_id x, tu_name = tn_name x, tu_quota = tn_monthly_quota x,
      tu_used = month_units clk (tn_id x) ?d\<rparr>"
  let ?items = "sort_key (\<lambda>x. - tu_used x) (map ?item (tenants ?d))"
  have used: "used_units clk ?t ?d = ?used" by (simp add: used_units_def month_units_def)
  have gate: "max (tn_monthly_quota tn - ?used) 0 = 0 \<longleftrightarrow> create clk i (Some raw) no_faults h ?d =
      (?d, [], HTTPError 402 ''monthly quota exhausted'')"
    using assms(1-3) store_not_402 [of "now clk" i ?t idem inp no_faults ?d "''monthly quota exhausted''"]
    by (auto simp: create_def used Let_def max_def split: if_splits dest: arg_cong [where f = "\<lambda>x. snd (snd x)"])
  have one: "filter (\<lambda>x. tn_id x = ?t) (tenants ?d) = [tn]"
  proof -
    note tn = find_row_Some [OF assms(1)]
    have "filter (\<lambda>x. tn_id x = ?t) (tenants ?d) = filter (\<lambda>x. x = tn) (tenants ?d)"
      using tn distinct_map_eq [OF assms(5)] by (intro filter_cong) auto
    also have "\<dots> = [tn]" using tn assms(5) by (intro filter_singleton) (simp_all add: distinct_map)
    finally show ?thesis .
  qed
  have flt: "filter (\<lambda>x. tu_tenant_id x = ?t) (map ?item xs) = map ?item (filter (\<lambda>x. tn_id x = ?t) xs)" for xs
    by (induction xs) auto
  have "filter (\<lambda>x. tu_tenant_id x = ?t) ?items = [?item tn]"
    by (simp only: filter_sort flt one list.map) simp
  then show ?thesis
    using gate assms(1,4) find_row_Some [OF assms(1)]
    by (intro exI [of _ ?u] exI [of _ ?items]) (auto simp: getUsage_def adminUsage_def Let_def)
qed

theorem quota_agrees_witness:
  "\<exists>u. getUsage sample_clock no_faults sample_header \<lparr>us_db = sample_db [], us_subs = []\<rparr> =
      (\<lparr>us_db = sample_db [], us_subs = []\<rparr>, [], JSON 200 (UsageInfo u)) \<and>
    ui_used u + ui_remaining u = max (ui_used u) (ui_quota u)"
proof -
  let ?s = "\<lparr>us_db = sample_db [], us_subs = []\<rparr>" and ?h = "[(''X-Nexora-Role'', [''admin''])]"
  have f: "find_row (\<lambda>x. tn_id x = hdr_get sample_header TenantHeader) (tenants (us_db ?s)) = Some sample_tenant"
    "distinct (map tn_id (tenants (us_db ?s)))" by (simp_all add: sample_hdr sample_defs)
  have r: "hdr_get ?h RoleHeader = ''admin''" by code_simp
  from quota_agrees [OF f(1) sample_check sample_hdr(2) r f(2), of sample_clock "''op9''"]
  show ?thesis by blast
qed

end
