(* ===== verification/Cloud.thy ===== *)
theory Cloud
  imports Config Services Journey Billing
begin

text \<open>
  The cloud worker together with the services it reports to: every call the worker issues is
  served by the internal route it addresses, with the headers the configuration gives it, and
  what the services answer is what the worker acts on. What the operation, the ledger and
  the stream end up with then agrees with what the target answered.
\<close>

section \<open>Serving the calls of the worker\<close>

text \<open>
  The time of a call, the encoder of events and the identifiers of webhook deliveries are
  the parameters of the services; a call of the target, the AI provider or Redis touches
  none of them. The result has the state, the workflows started and the answer.
\<close>

record cloud_env =
  ce_config :: Config
  ce_encode :: "OperationEvent \<Rightarrow> string"
  ce_hook_id :: "endpoint_row \<Rightarrow> string"

type_synonym served = "usage_state \<times> call list \<times> http_result option"

definition op_served :: "cloud_env \<Rightarrow> op_internal \<Rightarrow> usage_state \<Rightarrow> served" where
  "op_served env q s =
     (let (d, cs, reply) = op_private (cf_internal_secret (ce_config env)) q
            (internal_headers (ce_config env)) (us_db s)
      in (s\<lparr>us_db := d\<rparr>, cs, Some (HttpResponse (reply_status reply) [])))"

fun cloud_serve :: "cloud_env \<Rightarrow> int \<Rightarrow> worker_call \<Rightarrow> usage_state \<Rightarrow> served" where
  "cloud_serve env n (CallClaim i w secs) s = op_served env (OpClaim n i (Some (w, secs)) no_faults) s"
| "cloud_serve env n (CallHeartbeat i w) s = op_served env (OpHeartbeat n i (Some w) no_faults) s"
| "cloud_serve env n (CallComplete i x) s = op_served env (OpComplete n i (Some x) no_faults) s"
| "cloud_serve env n (CallFail i x) s = op_served env (OpFail n i (Some x) no_faults) s"
| "cloud_serve env n (CallEvent ev) s =
     (let (s', cs, reply) = usage_serve (cf_internal_secret (ce_config env))
            (UsRecord (ce_encode env) n (ce_hook_id env) (Some ev) no_faults)
            (internal_headers (ce_config env)) s
      in (s', [], Some (HttpResponse (reply_status reply) [])))"
| "cloud_serve env n (CallTarget u h p) s = (s, [], None)"
| "cloud_serve env n (CallAI m p) s = (s, [], None)"
| "cloud_serve env n (CallAck sid) s = (s, [], None)"

text \<open>The calls of one message, each served at the time the clock gives it.\<close>

abbreviation cloud_run ::
    "cloud_env \<Rightarrow> (nat \<Rightarrow> int) \<Rightarrow> worker_call list \<Rightarrow> usage_state \<Rightarrow>
     usage_state \<times> call list \<times> (worker_call \<times> http_result option) list" where
  "cloud_run env \<equiv> run_calls (cloud_serve env)"

text \<open>The worker acts on the answers it is given; these are the ones the services gave.\<close>

fun answered :: "worker_answers \<Rightarrow> worker_call \<times> http_result option \<Rightarrow> bool" where
  "answered a (CallClaim i w secs, x) = (x = Some (wa_claim a))"
| "answered a (CallComplete i y, x) = (x = Some (wa_complete a))"
| "answered a _ = True"

lemma internal_admitted [simp]:
  "cf_internal_secret c \<noteq> [] \<Longrightarrow>
     RequireInternal (cf_internal_secret c) next (internal_headers c) s = next (internal_headers c) s"
  by (simp add: RequireInternal_def internal_headers_def hdr_get_set)

section \<open>Assertions about the leased row\<close>

definition held :: "string \<Rightarrow> op_row \<Rightarrow> usage_state \<Rightarrow> bool" where
  "held w r s \<longleftrightarrow> leased w r (us_db s)"

definition same_books :: "usage_state \<Rightarrow> usage_state \<Rightarrow> bool" where
  "same_books s s' \<longleftrightarrow> ledger (us_db s') = ledger (us_db s) \<and> tenants (us_db s') = tenants (us_db s)"

lemma heartbeat_held:
  assumes "held w r s" "cf_internal_secret (ce_config env) \<noteq> []"
  obtains s' where "cloud_serve env n (CallHeartbeat (op_id r) w) s = (s', [], Some (HttpResponse 204 []))"
    "held w r s'" "same_books s s'"
proof -
  from assms(1) obtain x where inv: "ops_inv (us_db s)" and x: "lookup_op (us_db s) (op_id r) = Some x"
    "status x = Running" "lease_owner x = Some w" "attempt x = attempt r" "identity x = identity r"
    unfolding held_def leased_def by blast
  let ?s = "heartbeat_stmt n (op_id r) w"
  have "st_where ?s x" using x lookup_op_Some [OF x(1)] by (simp add: heartbeat_stmt_def)
  from beating.exec_hit [OF inv_distinct [OF inv] x(1) this] have
    hit: "snd (exec_stmt ?s (us_db s)) = 1"
      "lookup_op (fst (exec_stmt ?s (us_db s))) (op_id r) = Some (st_set ?s x)" by auto
  have run: "heartbeat n (op_id r) (Some w) no_faults h (us_db s) = (fst (exec_stmt ?s (us_db s)), [], NoContent 204)" for h
    using hit(1) by (simp add: heartbeat_def Let_def split_def)
  show ?thesis
  proof (rule that)
    show "cloud_serve env n (CallHeartbeat (op_id r) w) s =
        (s\<lparr>us_db := fst (exec_stmt ?s (us_db s))\<rparr>, [], Some (HttpResponse 204 []))"
      using assms(2) by (simp add: op_served_def run)
    have "ops_inv (fst (exec_stmt ?s (us_db s)))"
      using steps_keep_inv [OF heartbeat_steps inv] run by (metis fst_conv)
    then show "held w r (s\<lparr>us_db := fst (exec_stmt ?s (us_db s))\<rparr>)"
      using x hit(2) by (simp add: held_def leased_def) (simp add: heartbeat_stmt_def identity_def)
    show "same_books s (s\<lparr>us_db := fst (exec_stmt ?s (us_db s))\<rparr>)"
      by (simp add: same_books_def beating.frame_exec)
  qed
qed

fun cloud_silent :: "worker_call \<Rightarrow> bool" where
  "cloud_silent (CallTarget u h p) = True"
| "cloud_silent (CallAI m p) = True"
| "cloud_silent (CallAck sid) = True"
| "cloud_silent _ = False"

interpretation cloud_session: working_session "cloud_serve env" "CallHeartbeat (op_id r) w" "HttpResponse 204 []"
  "\<lambda>n s. held w r s \<and> cf_internal_secret (ce_config env) \<noteq> []" same_books cloud_silent for env r w
proof
  fix n s m
  assume "held w r s \<and> cf_internal_secret (ce_config env) \<noteq> []"
  then show "\<exists>s'. cloud_serve env m (CallHeartbeat (op_id r) w) s = (s', [], Some (HttpResponse 204 [])) \<and>
      (held w r s' \<and> cf_internal_secret (ce_config env) \<noteq> []) \<and> same_books s s'"
    using heartbeat_held by metis
next
  show "cloud_silent c \<Longrightarrow> cloud_serve env m c s = (s, [], None)" for c m s by (cases c) simp_all
qed (simp_all add: same_books_def)

lemma claim_held:
  assumes "ops_inv (us_db s)" "lookup_op (us_db s) i = Some r" "status r \<in> {Queued, Retrying}"
    and "find_row (\<lambda>x. tn_id x = op_tenant r) (tenants (us_db s)) = Some tn"
    and "int (running_count (op_tenant r) (us_db s)) < tn_concurrency_limit tn"
    and "cf_internal_secret (ce_config env) \<noteq> []"
  obtains s' where "cloud_serve env n (CallClaim i w 45) s = (s', [], Some (HttpResponse 200 []))"
    "held w (r\<lparr>attempt := attempt r + 1\<rparr>) s'" "same_books s s'"
proof -
  have e: "[] \<in> {[], op_tenant r}" by simp
  obtain d where d: "claimOperation n i [] w 45 no_faults (us_db s) = (d, Some (op_tenant r, True))" "ops_inv d"
    "lookup_op d i = Some (r\<lparr>status := Running, attempt := attempt r + 1, lease_owner := Some w,
       lease_expires_at := Some (n + 45 * second), updated_at := n, version := version r + 1\<rparr>)"
    "tenants d = tenants (us_db s)" "ledger d = ledger (us_db s)"
    by (rule claim_any [OF assms(1-3) e assms(4,5)])
  show ?thesis
  proof (rule that)
    show "cloud_serve env n (CallClaim i w 45) s = (s\<lparr>us_db := d\<rparr>, [], Some (HttpResponse 200 []))"
      using assms(6) d(1) by (simp add: op_served_def claim_def)
    show "held w (r\<lparr>attempt := attempt r + 1\<rparr>) (s\<lparr>us_db := d\<rparr>)"
      using d(2,3) lookup_op_Some [OF assms(2)] by (simp add: held_def leased_def) (simp add: identity_def)
    show "same_books s (s\<lparr>us_db := d\<rparr>)" using d(4,5) by (simp add: same_books_def)
  qed
qed

text \<open>The two outcomes the holder of a lease can report.\<close>

lemma complete_held:
  assumes "held w r s" "cf_internal_secret (ce_config env) \<noteq> []" "co_worker_id inp = w"
  obtains s' x where "cloud_serve env n (CallComplete (op_id r) inp) s = (s', [], Some (HttpResponse 204 []))"
    "lookup_op (us_db s') (op_id r) = Some x" "status x = Succeeded" "attempt x = attempt r" "lease_owner x = None"
    "identity x = identity r" "result x = json_column (co_result inp)" "same_books s s'"
proof -
  from assms(1) obtain x where inv: "ops_inv (us_db s)" and x: "lookup_op (us_db s) (op_id r) = Some x"
    "status x = Running" "lease_owner x = Some w" "attempt x = attempt r" "identity x = identity r"
    unfolding held_def leased_def by blast
  let ?s = "complete_stmt n (op_id r) w (co_result inp) (co_ai_explanation inp)"
  have "st_where ?s x" using x lookup_op_Some [OF x(1)] by (simp add: complete_stmt_def)
  from completing.exec_hit [OF inv_distinct [OF inv] x(1) this] have
    hit: "snd (exec_stmt ?s (us_db s)) = 1"
      "lookup_op (fst (exec_stmt ?s (us_db s))) (op_id r) = Some (st_set ?s x)" by auto
  show ?thesis
  proof (rule that)
    show "cloud_serve env n (CallComplete (op_id r) inp) s =
        (s\<lparr>us_db := fst (exec_stmt ?s (us_db s))\<rparr>, [], Some (HttpResponse 204 []))"
      using assms(2,3) hit(1) by (simp add: op_served_def complete_def Let_def split_def)
    show "lookup_op (us_db (s\<lparr>us_db := fst (exec_stmt ?s (us_db s))\<rparr>)) (op_id r) = Some (st_set ?s x)"
      using hit(2) by simp
    show "same_books s (s\<lparr>us_db := fst (exec_stmt ?s (us_db s))\<rparr>)"
      by (simp add: same_books_def completing.frame_exec)
  qed (use x in \<open>simp_all add: complete_stmt_def row_defs identity_def\<close>)
qed

lemma fail_held:
  assumes "held w r s" "cf_internal_secret (ce_config env) \<noteq> []" "fi_worker_id inp = w"
  obtains s' x where "cloud_serve env n (CallFail (op_id r) inp) s =
      (s', if status x = Retrying then [retry_call n (scan_envelope r)] else [], Some (HttpResponse 200 []))"
    "lookup_op (us_db s') (op_id r) = Some x" "attempt x = attempt r" "lease_owner x = None" "identity x = identity r"
    "status x = failure_status (fi_retryable inp) (attempt r) (max_attempts r)"
    "error_code x = Some (fi_error_code inp)" "same_books s s'"
proof -
  from assms(1) obtain x where inv: "ops_inv (us_db s)" and x: "lookup_op (us_db s) (op_id r) = Some x"
    "status x = Running" "lease_owner x = Some w" "attempt x = attempt r" "identity x = identity r"
    unfolding held_def leased_def by blast
  let ?st = "failure_status (fi_retryable inp) (attempt r) (max_attempts r)"
  let ?s = "fail_stmt n (op_id r) w ?st (fi_error_code inp) (fi_error_message inp) (fi_ai_explanation inp)"
  have "st_where ?s x" using x lookup_op_Some [OF x(1)] by (simp add: fail_stmt_def)
  from failing.exec_hit [OF inv_distinct [OF inv] x(1) this] have
    hit: "snd (exec_stmt ?s (us_db s)) = 1"
      "lookup_op (fst (exec_stmt ?s (us_db s))) (op_id r) = Some (st_set ?s x)" by auto
  have find: "find_row (\<lambda>x. op_id x = op_id r \<and> status x = Running \<and> lease_owner x = Some (fi_worker_id inp))
      (operations (us_db s)) = Some x"
    by (rule find_holder [OF inv_distinct [OF inv] x(1)]) (use x assms(3) lookup_op_Some [OF x(1)] in auto)
  have env: "scan_envelope x = scan_envelope r" "max_attempts x = max_attempts r"
    using x(4,5) by (simp_all add: scan_envelope_def identity_def)
  have lim: "env_max_attempts (scan_envelope r) = max_attempts r" by (simp add: scan_envelope_def)
  show ?thesis
  proof (rule that)
    show "cloud_serve env n (CallFail (op_id r) inp) s = (s\<lparr>us_db := fst (exec_stmt ?s (us_db s))\<rparr>,
        if status (st_set ?s x) = Retrying then [retry_call n (scan_envelope r)] else [], Some (HttpResponse 200 []))"
      using assms(2,3) hit(1) find env lim x(4)
      by (simp add: op_served_def fail_def Let_def split_def) (simp add: fail_stmt_def row_defs)
    show "lookup_op (us_db (s\<lparr>us_db := fst (exec_stmt ?s (us_db s))\<rparr>)) (op_id r) = Some (st_set ?s x)"
      using hit(2) by simp
    show "same_books s (s\<lparr>us_db := fst (exec_stmt ?s (us_db s))\<rparr>)"
      by (simp add: same_books_def failing.frame_exec)
  qed (use x in \<open>simp_all add: fail_stmt_def row_defs identity_def\<close>)
qed

text \<open>The event of an outcome, posted by the worker, under a key the ledger does not have.\<close>

lemma event_booked:
  assumes "env_operation_id e \<noteq> []" "env_tenant_id e \<in> tn_id ` set (tenants (us_db s)) - {[]}" "0 \<le> units"
    and "event_key (env_operation_id e) ty (env_attempt e) \<notin> le_event_key ` set (ledger (us_db s))"
    and "cf_internal_secret (ce_config env) \<noteq> []"
  obtains s' l where "cloud_serve env n (emit t e ty units p) s = (s', [], Some (HttpResponse 202 []))"
    "ledger (us_db s') = ledger (us_db s) @ [l]" "operations (us_db s') = operations (us_db s)"
    "le_event_key l = event_key (env_operation_id e) ty (env_attempt e)" "le_units l = units"
    "le_tenant_id l = env_tenant_id e" "le_operation_id l = env_operation_id e"
proof -
  let ?ev = "\<lparr>ev_event_key = event_key (env_operation_id e) ty (env_attempt e), ev_event_type = ty,
     ev_operation_id = env_operation_id e, ev_tenant_id = env_tenant_id e, ev_units = units,
     ev_payload = p, ev_occurred_at = t\<rparr>"
  have "event_key (env_operation_id e) ty (env_attempt e) \<noteq> []" by (simp add: event_key_def)
  with assms(1,2) obtain ev where ev: "check_event n ?ev = Some ev" "ev_event_key ev = ev_event_key ?ev"
    "ev_units ev = units" "ev_tenant_id ev = env_tenant_id e" "ev_operation_id ev = env_operation_id e"
    by (auto simp: check_event_def Let_def)
  let ?d = "fan_out n (ce_hook_id env) ev ((us_db s)\<lparr>ledger := ledger (us_db s) @ [ledger_entry n ev]\<rparr>)"
  have "put_ledger (ledger_entry n ev) (us_db s) = (us_db s)\<lparr>ledger := ledger (us_db s) @ [ledger_entry n ev]\<rparr>"
    using assms(4) ev(2) by (simp add: put_ledger_def insert_new_def ledger_entry_def)
  then have "record_tx n (ce_hook_id env) ev no_faults (us_db s) = Some ?d"
    using assms(2-4) ev by (simp add: record_tx_def insert_ledger_def)
  then have "cloud_serve env n (emit t e ty units p) s =
      (\<lparr>us_db = ?d, us_subs = publish (ev_tenant_id ev) (ce_encode env ev) (us_subs s)\<rparr>, [], Some (HttpResponse 202 []))"
    using assms(5) ev(1) by (simp add: emit_def recordEvent_def)
  then show ?thesis
    by (rule that [of _ "ledger_entry n ev"]) (use ev in \<open>simp_all add: ledger_entry_def\<close>)
qed

lemma before_report:
  assumes "held (wc_id cfg) r s" "cf_internal_secret (ce_config env) \<noteq> []"
    and "\<And>c. c \<in> set ai \<Longrightarrow> \<exists>m p. c = CallAI m p"
  obtains s' log where "cloud_run env clk (CallTarget u h p # worker_heartbeats cfg (op_id r) k @ ai) s = (s', [], log)"
    "held (wc_id cfg) r s'" "same_books s s'"
proof (rule cloud_session.session_before_report [where r = r and w = "wc_id cfg" and env = env and k = k and
    s = s and t = "CallTarget u h p" and cs = ai and clk = clk])
  show "held (wc_id cfg) r s \<and> cf_internal_secret (ce_config env) \<noteq> []" using assms(1,2) by simp
  show "cloud_silent c" if "c \<in> set ai" for c using assms(3) [OF that] by auto
qed (auto intro: that simp: worker_heartbeats_def simp del: run_calls.simps)

text \<open>
  \<open>reported\<close> is what the outcome of a target call must leave: \<open>q\<close> is the row with the attempt
  the claim counted, \<open>e\<close> the envelope the worker read.
\<close>

definition reported :: "target_reply \<Rightarrow> QueueEnvelope \<Rightarrow> op_row \<Rightarrow> usage_state \<Rightarrow> usage_state \<Rightarrow> call list \<Rightarrow> bool" where
  "reported reply e q s s' ws \<longleftrightarrow> (\<exists>x l. lookup_op (us_db s') (op_id q) = Some x \<and>
     attempt x = attempt q \<and> lease_owner x = None \<and> identity x = identity q \<and>
     ledger (us_db s') = ledger (us_db s) @ [l] \<and> le_operation_id l = op_id q \<and>
     le_tenant_id l = op_tenant q \<and> le_units l = 1 \<and>
     (case execute reply of
        (res, code, None) \<Rightarrow> status x = Succeeded \<and> result x = Some res \<and> ws = [] \<and>
          le_event_key l = event_key (op_id q) ''operation.succeeded'' (env_attempt e)
      | (res, code, Some msg) \<Rightarrow>
          status x = failure_status (retryable_status code) (attempt q) (max_attempts q) \<and>
          error_code x = Some (errorCode code) \<and>
          le_event_key l = event_key (op_id q) (if status x = DeadLettered
            then ''operation.dead_lettered'' else ''operation.failed'') (env_attempt e) \<and>
          (\<exists>t. ws = (if status x = Retrying then [retry_call t (scan_envelope x)] else []))))"

lemma success_reported:
  assumes "held (wc_id cfg) q s" "cf_internal_secret (ce_config env) \<noteq> []"
    and "env_operation_id e = op_id q" "env_tenant_id e = op_tenant q" "op_id q \<noteq> []"
    and "op_tenant q \<in> tn_id ` set (tenants (us_db s)) - {[]}"
    and "\<forall>ty. event_key (op_id q) ty (env_attempt e) \<notin> le_event_key ` set (ledger (us_db s))"
    and "execute (wa_target a) = (res, code, None)"
    and "cloud_run env clk (run_claimed cfg a sid e) s = (s', ws, log)" "\<forall>x\<in>set log. answered a x"
  shows "reported (wa_target a) e q s s' ws \<and> last (run_claimed cfg a sid e) = CallAck sid"
proof -
  let ?ai = "fst (explain cfg (wa_ai a) e res [])" and ?x = "snd (explain cfg (wa_ai a) e res [])"
  let ?pre = "CallTarget (env_target_url e) (target_headers e) (env_payload e) #
      worker_heartbeats cfg (op_id q) (wa_ticks a) @ ?ai"
  let ?inp = "\<lparr>co_worker_id = wc_id cfg, co_result = res, co_ai_explanation = ?x\<rparr>"
  let ?done = "CallComplete (op_id q) ?inp"
  let ?ev = "emit (wa_now a) e ''operation.succeeded'' 1 res"
  let ?post = "if post_ok (wa_complete a) then [?ev, CallAck sid] else []"
  have cs: "run_claimed cfg a sid e = ?pre @ ?done # ?post"
    using assms(3,8) by (simp add: run_claimed_def Let_def split_def)
  obtain s1 log1 where pre: "cloud_run env clk ?pre s = (s1, [], log1)" "held (wc_id cfg) q s1" "same_books s s1"
    by (rule before_report [OF assms(1,2)]) (rule explain_calls)
  let ?n = "length ?pre"
  obtain s2 x where don: "cloud_serve env (clk ?n) ?done s1 = (s2, [], Some (HttpResponse 204 []))"
    "lookup_op (us_db s2) (op_id q) = Some x" "status x = Succeeded" "attempt x = attempt q" "lease_owner x = None"
    "identity x = identity q" "result x = json_column (co_result ?inp)" "same_books s1 s2"
    by (rule complete_held [OF pre(2) assms(2), of ?inp]) simp_all
  have "(?done, Some (HttpResponse 204 [])) \<in> set log"
    using assms(9) don(1) unfolding cs run_calls_append pre(1) by (auto simp: Let_def split_def)
  with assms(10) have "wa_complete a = HttpResponse 204 []" by fastforce
  then have post: "?post = [?ev, CallAck sid]" by (simp add: post_ok_def is_2xx_def)
  have books: "ledger (us_db s2) = ledger (us_db s)" "tenants (us_db s2) = tenants (us_db s)"
    using pre(3) don(8) by (simp_all add: same_books_def)
  obtain s3 l where ev: "cloud_serve env (clk (Suc ?n)) ?ev s2 = (s3, [], Some (HttpResponse 202 []))"
    "ledger (us_db s3) = ledger (us_db s2) @ [l]" "operations (us_db s3) = operations (us_db s2)"
    "le_event_key l = event_key (env_operation_id e) ''operation.succeeded'' (env_attempt e)" "le_units l = 1"
    "le_tenant_id l = env_tenant_id e" "le_operation_id l = env_operation_id e"
    by (rule event_booked [of e s2 1 "''operation.succeeded''" env "clk (Suc ?n)" "wa_now a" res])
      (use assms(2-7) books in simp_all)
  have "cloud_run env clk (run_claimed cfg a sid e) s =
      (s3, [], log1 @ [(?done, Some (HttpResponse 204 [])), (?ev, Some (HttpResponse 202 [])), (CallAck sid, None)])"
    unfolding cs run_calls_append pre(1) post using don(1) ev(1) by simp
  then have fin: "s' = s3" "ws = []" using assms(9) by simp_all
  have "json_valid res" using assms(8) by (rule execute_valid)
  moreover have "\<not> json_valid []" by code_simp
  ultimately have "res \<noteq> []" by auto
  then have "reported (wa_target a) e q s s' ws"
    unfolding reported_def fin using don ev books assms(3,4,8)
    by (intro exI [of _ x] exI [of _ l]) (simp add: json_column_def lookup_op_def)
  then show ?thesis by (simp add: cs post)
qed

lemma failure_reported:
  assumes "held (wc_id cfg) q s" "cf_internal_secret (ce_config env) \<noteq> []"
    and "env_operation_id e = op_id q" "env_tenant_id e = op_tenant q" "op_id q \<noteq> []"
    and "env_attempt e + 1 = attempt q" "env_max_attempts e = max_attempts q"
    and "op_tenant q \<in> tn_id ` set (tenants (us_db s)) - {[]}"
    and "\<forall>ty. event_key (op_id q) ty (env_attempt e) \<notin> le_event_key ` set (ledger (us_db s))"
    and "execute (wa_target a) = (res, code, Some msg)"
    and "cloud_run env clk (run_claimed cfg a sid e) s = (s', ws, log)"
  shows "reported (wa_target a) e q s s' ws \<and> last (run_claimed cfg a sid e) = CallAck sid"
proof -
  let ?ai = "fst (explain cfg (wa_ai a) e [] msg)" and ?x = "snd (explain cfg (wa_ai a) e [] msg)"
  let ?pre = "CallTarget (env_target_url e) (target_headers e) (env_payload e) #
      worker_heartbeats cfg (op_id q) (wa_ticks a) @ ?ai"
  let ?retry = "retryable_status code"
  let ?inp = "failure_report cfg (errorCode code) msg ?retry ?x"
  let ?done = "CallFail (op_id q) ?inp"
  let ?dead = "\<not> ?retry \<or> env_attempt e + 1 \<ge> env_max_attempts e"
  let ?ty = "if ?dead then ''operation.dead_lettered'' else ''operation.failed''"
  let ?p = "if ?dead then json_object [(''error'', json_quote msg)]
            else json_object [(''error'', json_quote msg), (''retryable'', json_bool True)]"
  let ?ev = "emit (wa_now a) e ?ty 1 ?p"
  have cs: "run_claimed cfg a sid e = ?pre @ [?done, ?ev, CallAck sid]"
    using assms(3,10) by (simp add: run_claimed_def reportFailure_def Let_def split_def)
  obtain s1 log1 where pre: "cloud_run env clk ?pre s = (s1, [], log1)" "held (wc_id cfg) q s1" "same_books s s1"
    by (rule before_report [OF assms(1,2)]) (rule explain_calls)
  let ?n = "length ?pre"
  have fid: "fi_worker_id ?inp = wc_id cfg" by (simp add: failure_report_def)
  obtain s2 x where don: "cloud_serve env (clk ?n) ?done s1 =
      (s2, if status x = Retrying then [retry_call (clk ?n) (scan_envelope q)] else [], Some (HttpResponse 200 []))"
    "lookup_op (us_db s2) (op_id q) = Some x" "attempt x = attempt q" "lease_owner x = None" "identity x = identity q"
    "status x = failure_status (fi_retryable ?inp) (attempt q) (max_attempts q)"
    "error_code x = Some (fi_error_code ?inp)" "same_books s1 s2"
    by (rule fail_held [OF pre(2) assms(2) fid]) (rule that)
  have books: "ledger (us_db s2) = ledger (us_db s)" "tenants (us_db s2) = tenants (us_db s)"
    using pre(3) don(8) by (simp_all add: same_books_def)
  obtain s3 l where ev: "cloud_serve env (clk (Suc ?n)) ?ev s2 = (s3, [], Some (HttpResponse 202 []))"
    "ledger (us_db s3) = ledger (us_db s2) @ [l]" "operations (us_db s3) = operations (us_db s2)"
    "le_event_key l = event_key (env_operation_id e) ?ty (env_attempt e)" "le_units l = 1"
    "le_tenant_id l = env_tenant_id e" "le_operation_id l = env_operation_id e"
    by (rule event_booked [of e s2 1 ?ty env "clk (Suc ?n)" "wa_now a" ?p])
      (use assms(2-5,8,9) books in simp_all)
  have "cloud_run env clk (run_claimed cfg a sid e) s =
      (s3, if status x = Retrying then [retry_call (clk ?n) (scan_envelope q)] else [],
       log1 @ [(?done, Some (HttpResponse 200 [])), (?ev, Some (HttpResponse 202 [])), (CallAck sid, None)])"
    unfolding cs run_calls_append pre(1) using don(1) ev(1) by simp
  then have fin: "s' = s3" "ws = (if status x = Retrying then [retry_call (clk ?n) (scan_envelope q)] else [])"
    using assms(11) by simp_all
  have st: "status x = failure_status ?retry (attempt q) (max_attempts q)" "error_code x = Some (errorCode code)"
    using don(6,7) by (simp_all add: failure_report_def)
  then have dead: "?dead \<longleftrightarrow> status x = DeadLettered" using assms(6,7) by (auto simp: failure_status_def)
  have scan: "scan_envelope q = scan_envelope x" using don(3,5) by (simp add: scan_envelope_def identity_def)
  have key: "le_event_key l = event_key (op_id q) (if status x = DeadLettered
      then ''operation.dead_lettered'' else ''operation.failed'') (env_attempt e)"
    using ev(4) assms(3) unfolding dead by simp
  have look: "lookup_op (us_db s3) (op_id q) = Some x" using don(2) ev(3) by (simp add: lookup_op_def)
  have "reported (wa_target a) e q s s' ws"
    unfolding reported_def fin assms(10) using don(3-5) ev(2,5-7) books assms(3,4) st key look scan
    by (intro exI [of _ x] exI [of _ l]) auto
  then show ?thesis by (simp add: cs)
qed

section \<open>The outcome agrees with the target's answer\<close>

lemma scanned_envelope:
  assumes "e\<lparr>env_not_before := None\<rparr> = scan_envelope r"
  shows "env_operation_id e = op_id r" "env_tenant_id e = op_tenant r" "env_attempt e = attempt r"
    "env_max_attempts e = max_attempts r" "env_execution_mode e = execution_mode r"
  using assms by (cases e; simp add: scan_envelope_def)+

text \<open>A run that the worker's answers match begins with an accepted claim.\<close>

lemma claimed_run:
  assumes "cloud_serve env (clk 0) (CallClaim i (wc_id cfg) 45) s = (s1, [], Some (HttpResponse 200 []))"
    and "env_operation_id e = i" "env_execution_mode e = ''CLOUD''" "\<not> past_deadline (wa_now a) e"
    and "cloud_run env clk (process cfg a (sid, Envelope e)) s = (s', ws, log)" "\<forall>x\<in>set log. answered a x"
  obtains log' where "process cfg a (sid, Envelope e) = CallClaim i (wc_id cfg) 45 # run_claimed cfg a sid e"
    "cloud_run env (\<lambda>k. clk (Suc k)) (run_claimed cfg a sid e) s1 = (s', ws, log')" "\<forall>x\<in>set log'. answered a x"
proof -
  have cs: "process cfg a (sid, Envelope e) =
      CallClaim i (wc_id cfg) 45 # (if post_ok (wa_claim a) then run_claimed cfg a sid e else [])"
    using assms(2-4) by (simp add: process_def)
  have "(CallClaim i (wc_id cfg) 45, Some (HttpResponse 200 [])) \<in> set log"
    using assms(5,1) unfolding cs by (auto simp: Let_def split_def)
  with assms(6) have "wa_claim a = HttpResponse 200 []" by fastforce
  then have cs': "process cfg a (sid, Envelope e) = CallClaim i (wc_id cfg) 45 # run_claimed cfg a sid e"
    unfolding cs by (simp add: post_ok_def is_2xx_def)
  obtain s2 ws2 log' where rest: "cloud_run env (\<lambda>k. clk (Suc k)) (run_claimed cfg a sid e) s1 = (s2, ws2, log')"
    by (metis prod.collapse)
  then have "s' = s2" "ws = ws2" "log = (CallClaim i (wc_id cfg) 45, Some (HttpResponse 200 [])) # log'"
    using assms(5,1) unfolding cs' by simp_all
  then show ?thesis using that [OF cs'] rest assms(6) by simp
qed

text \<open>
  C1: The cloud worker, the Operations service and the Usage service agree on an outcome. Let a
  cloud operation wait with its message on the stream and its tenant below the concurrency
  limit, and let one worker process the message within the deadline, acting on the answers
  the services give. Then, whatever the target answers and however long it takes, the
  operation ends up with one more attempt, no lease, its submitted columns untouched, and
  the status the answer calls for: \<open>SUCCEEDED\<close> with the result stored, or \<open>RETRYING\<close> with
  exactly one retry workflow started for it, or \<open>DEAD_LETTERED\<close>. The ledger gets exactly one
  entry of one unit, for this operation and tenant, whose event names that same outcome, and
  the message is acknowledged.
\<close>
theorem cloud_outcome_agrees:
  assumes "ops_inv (us_db s)" "lookup_op (us_db s) i = Some r" "status r \<in> {Queued, Retrying}"
    and "find_row (\<lambda>x. tn_id x = op_tenant r) (tenants (us_db s)) = Some tn"
    and "int (running_count (op_tenant r) (us_db s)) < tn_concurrency_limit tn"
    and "i \<noteq> ''''" "op_tenant r \<noteq> ''''" "cf_internal_secret (ce_config env) \<noteq> ''''"
    and "e\<lparr>env_not_before := None\<rparr> = scan_envelope r" "execution_mode r = ''CLOUD''"
    and "\<not> past_deadline (wa_now a) e"
    and "\<forall>ty. event_key i ty (attempt r) \<notin> le_event_key ` set (ledger (us_db s))"
    and "cloud_run env clk (process cfg a (sid, Envelope e)) s = (s', ws, log)" "\<forall>x\<in>set log. answered a x"
  shows "last (process cfg a (sid, Envelope e)) = CallAck sid \<and>
    (\<exists>x l. lookup_op (us_db s') i = Some x \<and> attempt x = attempt r + 1 \<and> lease_owner x = None \<and>
     identity x = identity r \<and> ledger (us_db s') = ledger (us_db s) @ [l] \<and> le_operation_id l = i \<and>
     le_tenant_id l = op_tenant r \<and> le_units l = 1 \<and>
     (case execute (wa_target a) of
        (res, code, None) \<Rightarrow> status x = Succeeded \<and> result x = Some res \<and> ws = [] \<and>
          le_event_key l = event_key i ''operation.succeeded'' (attempt r)
      | (res, code, Some msg) \<Rightarrow>
          status x = failure_status (retryable_status code) (attempt r + 1) (max_attempts r) \<and>
          error_code x = Some (errorCode code) \<and>
          le_event_key l = event_key i (if status x = DeadLettered
            then ''operation.dead_lettered'' else ''operation.failed'') (attempt r) \<and>
          (\<exists>t. ws = (if status x = Retrying then [retry_call t (scan_envelope x)] else []))))"
proof -
  let ?q = "r\<lparr>attempt := attempt r + 1\<rparr>"
  have id: "op_id r = i" using lookup_op_Some [OF assms(2)] by simp
  note env = scanned_envelope [OF assms(9), unfolded id assms(10)]
  obtain s1 where cl: "cloud_serve env (clk 0) (CallClaim i (wc_id cfg) 45) s = (s1, [], Some (HttpResponse 200 []))"
    "held (wc_id cfg) ?q s1" "same_books s s1"
    by (rule claim_held [OF assms(1-5,8)])
  obtain log' where cs: "process cfg a (sid, Envelope e) = CallClaim i (wc_id cfg) 45 # run_claimed cfg a sid e"
    and run: "cloud_run env (\<lambda>k. clk (Suc k)) (run_claimed cfg a sid e) s1 = (s', ws, log')"
    and ans: "\<forall>x\<in>set log'. answered a x"
    by (rule claimed_run [OF cl(1) env(1,5) assms(11,13,14)])
  have books: "ledger (us_db s1) = ledger (us_db s)" "tenants (us_db s1) = tenants (us_db s)"
    using cl(3) by (simp_all add: same_books_def)
  have q: "env_operation_id e = op_id ?q" "env_tenant_id e = op_tenant ?q" "op_id ?q \<noteq> []"
    "env_attempt e + 1 = attempt ?q" "env_max_attempts e = max_attempts ?q" using env id assms(6) by simp_all
  have tn: "op_tenant ?q \<in> tn_id ` set (tenants (us_db s1)) - {[]}"
    using find_row_Some [OF assms(4)] assms(7) books by (auto intro: image_eqI [where x = tn])
  have keys: "\<forall>ty. event_key (op_id ?q) ty (env_attempt e) \<notin> le_event_key ` set (ledger (us_db s1))"
    using assms(12) env id books by simp
  have "reported (wa_target a) e ?q s1 s' ws \<and> last (run_claimed cfg a sid e) = CallAck sid"
  proof (cases "snd (snd (execute (wa_target a)))")
    case None
    then have "execute (wa_target a) = (fst (execute (wa_target a)), fst (snd (execute (wa_target a))), None)"
      by (metis prod.collapse)
    from success_reported [OF cl(2) assms(8) q(1-3) tn keys this run ans] show ?thesis .
  next
    case (Some msg)
    then have "execute (wa_target a) = (fst (execute (wa_target a)), fst (snd (execute (wa_target a))), Some msg)"
      by (metis prod.collapse)
    from failure_reported [OF cl(2) assms(8) q tn keys this run] show ?thesis .
  qed
  moreover have "run_claimed cfg a sid e \<noteq> []" by (simp add: run_claimed_def Let_def split_def split: option.split)
  moreover have "identity x = identity ?q \<longleftrightarrow> identity x = identity r" for x by (simp add: identity_def)
  ultimately show ?thesis unfolding reported_def cs using env(3) id books by simp
qed

text \<open>
  C40: A message past its deadline is lost. The worker reports \<open>DEADLINE_EXCEEDED\<close> without
  having claimed the operation, so the Operations service, which takes a failure only from
  the holder of the lease, rejects the report; the worker ignores that, acknowledges the
  message, and the waiting operation stays exactly as it was, with no message left for it.
\<close>
theorem deadline_report_rejected:
  assumes "ops_inv (us_db s)" "lookup_op (us_db s) (env_operation_id e) = Some r" "status r \<in> {Queued, Retrying}"
    and "past_deadline (wa_now a) e" "cf_internal_secret (ce_config env) \<noteq> ''''"
  shows "\<exists>x. cloud_run env clk (process cfg a (sid, Envelope e)) s =
    (s, [], [(x, Some (HttpResponse 409 [])), (CallAck sid, None)]) \<and> is_report x"
proof -
  let ?i = "env_operation_id e"
  let ?inp = "failure_report cfg ''DEADLINE_EXCEEDED'' ''operation deadline exceeded'' False ''''"
  have "\<not> (op_id x = ?i \<and> status x = Running \<and> lease_owner x = Some (fi_worker_id ?inp))"
    if "x \<in> set (operations (us_db s))" for x
    using lookup_op_in [OF inv_distinct [OF assms(1)] that] assms(2,3) by auto
  then have "find_row (\<lambda>x. op_id x = ?i \<and> status x = Running \<and> lease_owner x = Some (fi_worker_id ?inp))
      (operations (us_db s)) = None"
    unfolding find_row_None by blast
  then have "cloud_serve env (clk 0) (CallFail ?i ?inp) s = (s, [], Some (HttpResponse 409 []))"
    using assms(5) by (simp add: op_served_def fail_def)
  then show ?thesis
    using assms(4) by (intro exI [of _ "CallFail ?i ?inp"]) (simp add: process_def reportFailure_def)
qed

section \<open>Witnesses\<close>

definition sample_cloud_op :: op_row where
  "sample_cloud_op = (sample_op Queued 0 None)\<lparr>execution_mode := ''CLOUD''\<rparr>"

definition sample_cloud_env :: cloud_env where
  "sample_cloud_env = \<lparr>ce_config = LoadConfig (\<lambda>k. ''''), ce_encode = ev_event_key, ce_hook_id = we_id\<rparr>"

definition sample_books :: usage_state where
  "sample_books = \<lparr>us_db = sample_db [sample_cloud_op], us_subs = []\<rparr>"

definition sample_run ::
    "target_reply \<Rightarrow> usage_state \<times> call list \<times> (worker_call \<times> http_result option) list" where
  "sample_run t = cloud_run sample_cloud_env (\<lambda>k. 9 + int k)
     (process sample_worker (sample_answers t) (StreamId 1 0, Envelope (scan_envelope sample_cloud_op))) sample_books"

lemma sample_digits: "itoa 503 = ''503''" "itoa 0 = ''0''"
  by code_simp+

lemma sample_execute:
  "execute (TargetReply 503 ''down'') = (''down'', 503, Some (''target returned HTTP 503: down''))"
  by (simp add: execute_def is_2xx_def body_limit_def sample_digits Let_def)

lemma sample_books_facts:
  "ops_inv (us_db sample_books)" "lookup_op (us_db sample_books) ''op1'' = Some sample_cloud_op"
  "status sample_cloud_op \<in> {Queued, Retrying}" "cf_internal_secret (ce_config sample_cloud_env) \<noteq> ''''"
  "find_row (\<lambda>x. tn_id x = op_tenant sample_cloud_op) (tenants (us_db sample_books)) = Some sample_tenant"
  "int (running_count (op_tenant sample_cloud_op) (us_db sample_books)) < tn_concurrency_limit sample_tenant"
  by (simp_all add: sample_books_def sample_cloud_op_def ops_inv_def sample_defs wf_row_def statuses_def
      lookup_op_def sample_cloud_env_def LoadConfig_def running_count_def)

lemma sample_run_answered:
  "\<forall>x\<in>set (snd (snd (sample_run (TargetReply 503 ''down'')))). answered (sample_answers (TargetReply 503 ''down'')) x"
proof -
  let ?a = "sample_answers (TargetReply 503 ''down'')" and ?e = "scan_envelope sample_cloud_op"
  let ?cs = "run_claimed sample_worker ?a (StreamId 1 0) ?e"
  obtain s1 where cl: "cloud_serve sample_cloud_env 9 (CallClaim ''op1'' ''w'' 45) sample_books =
      (s1, [], Some (HttpResponse 200 []))"
    by (rule claim_held [OF sample_books_facts(1-3,5,6,4)])
  have cs: "process sample_worker ?a (StreamId 1 0, Envelope ?e) = CallClaim ''op1'' ''w'' 45 # ?cs"
    by (simp add: process_def past_deadline_def scan_envelope_def sample_cloud_op_def sample_op_def
        sample_answers_def sample_worker_def post_ok_def is_2xx_def)
  let ?rest = "cloud_run sample_cloud_env (\<lambda>k. 9 + int (Suc k)) ?cs s1"
  have log: "snd (snd (sample_run (TargetReply 503 ''down''))) =
      (CallClaim ''op1'' ''w'' 45, Some (HttpResponse 200 [])) # snd (snd ?rest)"
    unfolding sample_run_def cs using cl by (simp add: Let_def split_def)
  have quiet: "\<not> is_claim c \<and> (\<forall>i x. c \<noteq> CallComplete i x)" if "c \<in> set ?cs" for c
    using that by (auto simp: run_claimed_def sample_answers_def sample_execute Let_def split_def explain_def
        sample_worker_def worker_heartbeats_def emit_def reportFailure_def split: if_splits)
  have "answered ?a (c, x)" if "c \<in> set ?cs" for c x
    using quiet [OF that] by (cases c) simp_all
  moreover have "fst y \<in> set ?cs" if "y \<in> set (snd (snd ?rest))" for y
    using arg_cong [OF run_calls_log [of "cloud_serve sample_cloud_env" "\<lambda>k. 9 + int (Suc k)" ?cs s1], of set] that by auto
  ultimately show ?thesis unfolding log by (auto simp: sample_answers_def)
qed

theorem cloud_outcome_agrees_witness:
  "\<exists>x l t. lookup_op (us_db (fst (sample_run (TargetReply 503 ''down'')))) ''op1'' = Some x \<and>
     status x = Retrying \<and> error_code x = Some ''TARGET_SERVER_ERROR'' \<and>
     ledger (us_db (fst (sample_run (TargetReply 503 ''down'')))) = [l] \<and>
     le_event_key l = ''op1:operation.failed:0'' \<and>
     fst (snd (sample_run (TargetReply 503 ''down''))) = [retry_call t (scan_envelope x)]"
proof -
  let ?t = "TargetReply 503 ''down''" and ?r = sample_cloud_op
  let ?e = "scan_envelope ?r"
  have f: "''op1'' \<noteq> ''''" "op_tenant ?r \<noteq> ''''" "?e\<lparr>env_not_before := None\<rparr> = scan_envelope ?r"
    "execution_mode ?r = ''CLOUD''" "\<not> past_deadline (wa_now (sample_answers ?t)) ?e"
    "\<forall>ty. event_key ''op1'' ty (attempt ?r) \<notin> le_event_key ` set (ledger (us_db sample_books))"
    by (simp_all add: sample_books_def sample_cloud_op_def sample_defs scan_envelope_def past_deadline_def)
  have run: "cloud_run sample_cloud_env (\<lambda>k. 9 + int k) (process sample_worker (sample_answers ?t)
      (StreamId 1 0, Envelope ?e)) sample_books = (fst (sample_run ?t), fst (snd (sample_run ?t)), snd (snd (sample_run ?t)))"
    by (simp add: sample_run_def)
  have ex: "execute (wa_target (sample_answers ?t)) = (''down'', 503, Some ''target returned HTTP 503: down'')"
    by (simp add: sample_answers_def sample_execute)
  have st: "failure_status (retryable_status 503) (attempt ?r + 1) (max_attempts ?r) = Retrying"
    "errorCode 503 = ''TARGET_SERVER_ERROR''" "event_key ''op1'' ''operation.failed'' (attempt ?r) = ''op1:operation.failed:0''"
    by (simp_all add: failure_status_def retryable_status_def errorCode_def event_key_def sample_digits
        sample_cloud_op_def sample_op_def)
  have l: "ledger (us_db sample_books) = []" by (simp add: sample_books_def sample_defs)
  from cloud_outcome_agrees [OF sample_books_facts(1-3,5,6) f(1,2) sample_books_facts(4) f(3-6) run sample_run_answered]
  obtain x l t where "lookup_op (us_db (fst (sample_run ?t))) ''op1'' = Some x" "status x = Retrying"
    "error_code x = Some ''TARGET_SERVER_ERROR''" "ledger (us_db (fst (sample_run ?t))) = [l]"
    "le_event_key l = ''op1:operation.failed:0''" "fst (snd (sample_run ?t)) = [retry_call t (scan_envelope x)]"
    unfolding ex l by (auto simp: st)
  then show ?thesis by blast
qed

theorem deadline_report_rejected_witness:
  "\<exists>x. cloud_run sample_cloud_env (\<lambda>k. 9) (process sample_worker (sample_answers (TargetReply 200 ''{}''))
     (StreamId 1 0, Envelope ((scan_envelope sample_cloud_op)\<lparr>env_deadline := Some 5\<rparr>))) sample_books =
     (sample_books, [], [(x, Some (HttpResponse 409 [])), (CallAck (StreamId 1 0), None)]) \<and> is_report x"
proof -
  let ?e = "(scan_envelope sample_cloud_op)\<lparr>env_deadline := Some 5\<rparr>"
  have row: "lookup_op (us_db sample_books) (env_operation_id ?e) = Some sample_cloud_op"
    using sample_books_facts(2) by (simp add: scan_envelope_def sample_cloud_op_def sample_op_def)
  have "past_deadline (wa_now (sample_answers (TargetReply 200 ''{}''))) ?e"
    by (simp add: past_deadline_def sample_answers_def)
  from deadline_report_rejected [OF sample_books_facts(1) row sample_books_facts(3) this sample_books_facts(4)]
  show ?thesis .
qed

end
