(* ===== verification/Perimeter.thy ===== *)
theory Perimeter
  imports Gateway Access Sample
begin

text \<open>
  Properties of the gateway: the identity a service sees is the one the Access service
  verified, administration needs an administrator's token, internal routes are out of reach
  whatever the path parameters, and the request rate of a tenant is bounded.
\<close>

section \<open>Identity\<close>

lemma hdr_get_identify:
  "hdr_get (identify p h) TenantHeader = pr_tenant_id p"
  "hdr_get (identify p h) UserHeader = pr_user_id p"
  "hdr_get (identify p h) RoleHeader = pr_role p"
  by (simp_all add: identify_def Let_def hdr_get_set)

lemma request_id_distinct [simp]:
  "canonical_key TenantHeader \<noteq> canonical_key ''X-Request-ID''"
  "canonical_key UserHeader \<noteq> canonical_key ''X-Request-ID''"
  "canonical_key RoleHeader \<noteq> canonical_key ''X-Request-ID''"
  by (simp_all add: canonical_key_def TenantHeader_def UserHeader_def RoleHeader_def
      upper_char_def lower_char_def)

text \<open>The headers the services get, from a forwarded request or from the assistant.\<close>

fun service_header :: "gw_call \<Rightarrow> header option" where
  "service_header (Forward svc path h) = Some h"
| "service_header (LoadOperations h) = Some h"
| "service_header _ = None"

lemma ask_assistants_calls: "c \<in> set (fst (ask_assistants ai p ms)) \<Longrightarrow> \<exists>m. c = AskModel m p"
  by (induction ms) (auto split: option.splits simp: Let_def split_def)

lemma assistant_calls:
  "c \<in> set (fst (snd (assistant cfg ops ai bound h s))) \<Longrightarrow>
     c = LoadOperations (operations_request h) \<or> (\<exists>m p. c = AskModel m p)"
  unfolding assistant_def Let_def prepend_calls_def split_def
  by (auto simp del: ask_assistants.simps split: option.splits if_splits http_result.splits
      dest: ask_assistants_calls)

lemma proxy_identity:
  "k \<in> {TenantHeader, UserHeader, RoleHeader} \<Longrightarrow>
     hdr_get (remove_hop_headers (hdr_set h ''X-Request-ID'' rid)) k \<in> {hdr_get h k, ''''}"
  using hdr_get_remove_hop [of "hdr_set h ''X-Request-ID'' rid" k] by (auto simp: hdr_get_set)

lemma route_calls:
  assumes "c \<in> set (fst (snd (route_handler cfg env params r h s)))" "service_header c = Some h'"
  shows "(\<forall>k\<in>{TenantHeader, UserHeader, RoleHeader}. hdr_get h' k \<in> {hdr_get h k, ''''}) \<and>
    (\<forall>svc path. r = RouteAdmin svc path \<longrightarrow> hdr_get h RoleHeader = ''admin'')"
proof (cases "r = RouteAssistant")
  case True
  with assms assistant_calls [of c cfg "ge_operations env" "ge_ai env" "ge_question env" h s]
  show ?thesis by (auto simp: operations_request_def hdr_get_set) (simp add: hdr_get_def)
next
  case False
  with assms have "h' = remove_hop_headers (hdr_set h ''X-Request-ID'' (ge_request_id env)) \<and>
      (\<forall>svc path. r = RouteAdmin svc path \<longrightarrow> hdr_get h RoleHeader = ''admin'')"
    by (cases r) (auto simp: proxyPath_def requireAdmin_def Let_def split: if_splits)
  with proxy_identity [of _ h "ge_request_id env"] show ?thesis by blast
qed

lemma rateLimit_calls:
  "c \<in> set (fst (snd (rateLimit n b next h s))) \<Longrightarrow> service_header c = Some h' \<Longrightarrow>
     \<exists>s'. c \<in> set (fst (snd (next h s')))"
  by (auto simp: rateLimit_def Let_def prepend_calls_def split_def split: if_splits)

lemma forwarded_principal:
  assumes "serve_v1 cfg env params r h s = (s', calls, reply)"
    and "c \<in> set calls" "service_header c = Some h'"
  shows "\<exists>p. ge_access env (verify_request (gw_internal_secret cfg) h) = AuthReply 200 (Some p) \<and>
    hdr_get h' TenantHeader \<in> {pr_tenant_id p, ''''} \<and> hdr_get h' RoleHeader \<in> {pr_role p, ''''} \<and>
    hdr_get h' UserHeader \<in> {pr_user_id p, ''''} \<and>
    ((\<forall>svc path. r \<noteq> RouteAdmin svc path) \<or> pr_role p = ''admin'')"
proof -
  let ?req = "verify_request (gw_internal_secret cfg) h"
  let ?inner = "route_handler cfg env params r"
  from assms obtain p where p: "ge_access env ?req = AuthReply 200 (Some p)"
    and c: "c \<in> set (fst (snd (rateLimit (ge_now env) (ge_redis_fails env) ?inner (identify p h) s)))"
    by (auto simp: serve_v1_def authenticate_def Let_def prepend_calls_def
        split: auth_reply.splits if_splits option.splits prod.splits)
  from rateLimit_calls [OF c assms(3)] obtain s1 where "c \<in> set (fst (snd (?inner (identify p h) s1)))"
    by blast
  from route_calls [OF this assms(3)] p show ?thesis by (auto simp: hdr_get_identify)
qed

text \<open>
  C13: The identity behind the gateway cannot be forged. Whatever headers a client sends, each
  request that reaches a service through a route of the group \<open>/v1\<close> carries, as tenant, user
  and role, what the Access service verified for the client's own credentials with a 200, or
  nothing (a \<open>Connection\<close> header can only drop them); and a route of the administration
  passes only when the verified role is \<open>admin\<close>.
\<close>
theorem forwarded_identity:
  assumes "serve_v1 cfg env params r h s = (s', calls, reply)"
    and "c \<in> set calls" "service_header c = Some h'"
  shows "\<exists>p. ge_access env (verify_request (gw_internal_secret cfg) h) = AuthReply 200 (Some p) \<and>
    hdr_get h' TenantHeader \<in> {pr_tenant_id p, ''''} \<and> hdr_get h' RoleHeader \<in> {pr_role p, ''''} \<and>
    hdr_get h' UserHeader \<in> {pr_user_id p, ''''} \<and>
    ((\<forall>svc path. r \<noteq> RouteAdmin svc path) \<or> pr_role p = ''admin'')"
  using assms by (rule forwarded_principal)

definition sample_env :: "string \<Rightarrow> gw_env" where
  "sample_env role = \<lparr>ge_now = 0, ge_request_id = ''r'',
     ge_access = (\<lambda>h. AuthReply 200 (Some \<lparr>pr_tenant_id = ''t1'', pr_user_id = ''u1'', pr_role = role\<rparr>)),
     ge_redis_fails = False, ge_upstream = (\<lambda>svc path h. UpResponse 200 [] ''ok''),
     ge_operations = (\<lambda>h. HttpError ''''), ge_ai = (\<lambda>m. AiTransport), ge_question = None\<rparr>"

definition sample_gw_cfg :: gw_cfg where
  "sample_gw_cfg = \<lparr>gw_internal_secret = ''s'', gw_openrouter_key = '''', gw_primary_model = ''a'',
     gw_fallback_model = ''b''\<rparr>"

theorem forwarded_identity_witness:
  "\<exists>h'. Forward UsageService ''/usage'' h' \<in> set (fst (snd (serve_v1 sample_gw_cfg (sample_env ''customer'') []
      (RouteProxy UsageService ''/usage'') [(''X-Nexora-Tenant-Id'', [''forged''])] (\<lambda>k. None)))) \<and>
    hdr_get h' TenantHeader \<noteq> ''forged''"
proof -
  let ?h = "[(''X-Nexora-Tenant-Id'', [''forged''])]"
  let ?v = "serve_v1 sample_gw_cfg (sample_env ''customer'') [] (RouteProxy UsageService ''/usage'') ?h (\<lambda>k. None)"
  have v: "?v = (fst ?v, fst (snd ?v), snd (snd ?v))" by simp
  obtain h' where c: "Forward UsageService ''/usage'' h' \<in> set (fst (snd ?v))"
    by (auto simp: serve_v1_def authenticate_def sample_env_def rateLimit_def incr_script_def rate_cap_def
        hdr_get_identify proxyPath_def prepend_calls_def Let_def)
  have "service_header (Forward UsageService ''/usage'' h') = Some h'" by simp
  from forwarded_identity [OF v c this] have "hdr_get h' TenantHeader \<noteq> ''forged''"
    by (auto simp: sample_env_def)
  with c show ?thesis by blast
qed

text \<open>
  The converse direction is not guaranteed: an administrator's request that names the role
  header in \<open>Connection\<close> passes the gateway's own check, and the service gets no role.
\<close>

lemma connection_drops_role:
  "\<exists>h'. Forward AccessService ''/admin/tenants'' h' \<in> set (fst (snd (serve_v1 sample_gw_cfg
      (sample_env ''admin'') [] (RouteAdmin AccessService ''/admin/tenants'')
      [(''Connection'', [''X-Nexora-Role'']), (''Authorization'', [''Bearer tok''])] (\<lambda>k. None)))) \<and>
    hdr_get h' RoleHeader = '''' \<and> hdr_get h' TenantHeader = ''t1''"
proof -
  let ?h = "[(''Connection'', [''X-Nexora-Role'']), (''Authorization'', [''Bearer tok''])]"
  let ?p = "\<lparr>pr_tenant_id = ''t1'', pr_user_id = ''u1'', pr_role = ''admin''\<rparr>"
  let ?h' = "remove_hop_headers (hdr_set (identify ?p ?h) ''X-Request-ID'' ''r'')"
  have "hdr_get ?h' RoleHeader = '''' \<and> hdr_get ?h' TenantHeader = ''t1''" by code_simp
  then show ?thesis
    by (intro exI [of _ ?h']) (simp add: serve_v1_def authenticate_def sample_env_def rateLimit_def
        incr_script_def rate_cap_def hdr_get_identify proxyPath_def requireAdmin_def prepend_calls_def Let_def)
qed

section \<open>API keys and administration\<close>

text \<open>What the gateway makes of the Access service's reply.\<close>

fun principal_reply :: "access_body reply \<Rightarrow> auth_reply" where
  "principal_reply (JSON code (PrincipalBody p)) = AuthReply code (Some p)"
| "principal_reply r = AuthReply (reply_status r) None"

lemma verify_request_get:
  "hdr_get (verify_request secret h) ''Authorization'' = hdr_get h ''Authorization''"
proof -
  have "canonical_key ''Authorization'' \<noteq> canonical_key ''X-API-Key''"
    by (simp add: canonical_key_def upper_char_def lower_char_def)
  then show ?thesis by (simp add: verify_request_def hdr_get_set)
qed

text \<open>
  C27: An API key never administrates. With the Access service answering the gateway, a request
  that passes an administration route carries a bearer token, and that token's claims have
  the role \<open>admin\<close> under the service's secret; no API key, whatever its tenant, gets through.
\<close>
theorem api_key_never_admin:
  assumes "ge_access env = (\<lambda>req. principal_reply (snd (snd
      (RequireInternal secret (verify sha parse jwt_secret n f) req d))))"
    and "serve_v1 cfg env params (RouteAdmin svc path) h s = (s', calls, reply)"
    and "Forward svc' path' h' \<in> set calls"
  shows "\<exists>cl. bearer (hdr_get h ''Authorization'') \<noteq> '''' \<and>
    parse jwt_secret ''nexora'' n (bearer (hdr_get h ''Authorization'')) = Some cl \<and> cl_role cl = ''admin''"
proof -
  let ?req = "verify_request (gw_internal_secret cfg) h"
  let ?inner = "route_handler cfg env params (RouteAdmin svc path)"
  from assms(2,3) obtain p where p: "ge_access env ?req = AuthReply 200 (Some p)"
    and c: "Forward svc' path' h' \<in> set (fst (snd (rateLimit (ge_now env) (ge_redis_fails env) ?inner (identify p h) s)))"
    by (auto simp: serve_v1_def authenticate_def Let_def prepend_calls_def
        split: auth_reply.splits if_splits option.splits prod.splits)
  from rateLimit_calls [OF c] obtain s1 where c1: "Forward svc' path' h' \<in> set (fst (snd (?inner (identify p h) s1)))"
    by auto
  have admin: "pr_role p = ''admin''"
    using route_calls [OF c1, of h'] by (simp add: hdr_get_identify)
  have body: "snd (snd (RequireInternal secret (verify sha parse jwt_secret n f) ?req d)) = JSON 200 (PrincipalBody p)"
    using p assms(1)
    by (cases "snd (snd (RequireInternal secret (verify sha parse jwt_secret n f) ?req d))" rule: principal_reply.cases) auto
  then have v: "snd (snd (verify sha parse jwt_secret n f ?req d)) = JSON 200 (PrincipalBody p)"
    by (auto simp: RequireInternal_def split: if_splits)
  show ?thesis
    using v admin unfolding verify_def verify_request_get
    by (auto simp: Let_def split: option.splits if_splits)
qed

definition admin_parse :: "string \<Rightarrow> string \<Rightarrow> int \<Rightarrow> string \<Rightarrow> claims option" where
  "admin_parse secret iss n tok = (if tok = ''tok'' then Some \<lparr>cl_tenant_id = '''', cl_role = ''admin'',
     cl_subject = ''root'', cl_issuer = iss, cl_issued_at = 0, cl_expires_at = 9\<rparr> else None)"

definition admin_env :: gw_env where
  "admin_env = (sample_env '''')\<lparr>ge_access := (\<lambda>req. principal_reply (snd (snd
     (RequireInternal ''s'' (verify id admin_parse ''j'' 0 no_faults) req (sample_db [])))))\<rparr>"

theorem api_key_never_admin_witness:
  "\<exists>h'. Forward OperationsService ''/admin/operations'' h' \<in> set (fst (snd
      (serve_v1 sample_gw_cfg admin_env [] (RouteAdmin OperationsService ''/admin/operations'')
        [(''Authorization'', [''Bearer tok''])] (\<lambda>k. None)))) \<and>
    (\<exists>cl. admin_parse ''j'' ''nexora'' 0 ''tok'' = Some cl \<and> cl_role cl = ''admin'')"
proof -
  let ?h = "[(''Authorization'', [''Bearer tok''])]"
  let ?r = "RouteAdmin OperationsService ''/admin/operations''"
  let ?v = "serve_v1 sample_gw_cfg admin_env [] ?r ?h (\<lambda>k. None)"
  have v: "?v = (fst ?v, fst (snd ?v), snd (snd ?v))" by simp
  have b: "bearer (hdr_get ?h ''Authorization'') = ''tok''" by code_simp
  have sec: "hdr_get (verify_request ''s'' ?h) ''X-Internal-Secret'' = ''s''" by code_simp
  have a: "ge_access admin_env = (\<lambda>req. principal_reply (snd (snd
      (RequireInternal ''s'' (verify id admin_parse ''j'' 0 no_faults) req (sample_db [])))))"
    by (simp add: admin_env_def)
  have p: "ge_access admin_env (verify_request ''s'' ?h) = AuthReply 200 (Some
      \<lparr>pr_tenant_id = '''', pr_user_id = ''root'', pr_role = ''admin''\<rparr>)"
    unfolding a RequireInternal_def sec verify_def verify_request_get b by (simp add: admin_parse_def)
  have "\<exists>h'. Forward OperationsService ''/admin/operations'' h' \<in> set (fst (snd ?v))"
    using p by (simp add: serve_v1_def authenticate_def sample_gw_cfg_def admin_env_def sample_env_def rateLimit_def
        incr_script_def rate_cap_def hdr_get_identify proxyPath_def requireAdmin_def prepend_calls_def Let_def)
  then obtain h' where c: "Forward OperationsService ''/admin/operations'' h' \<in> set (fst (snd ?v))" ..
  from api_key_never_admin [OF a v c] c show ?thesis unfolding b by blast
qed

section \<open>Internal routes\<close>

lemma path_escape_no_slash: "CHR ''/'' \<notin> set (path_escape s)"
proof -
  have hex: "upper_hex k \<noteq> CHR ''/''" if "k < 16" for k
  proof -
    have "\<forall>k\<in>set [0..<16]. upper_hex k \<noteq> CHR ''/''" by code_simp
    with that show ?thesis by simp
  qed
  have "(of_char c :: nat) div 16 < 16" "(of_char c :: nat) mod 16 < 16" for c
    by (simp_all add: of_char_def less_mult_imp_div_less)
  then show ?thesis
    by (auto simp: path_escape_def path_char_def hex [THEN not_sym] dest: hex split: if_splits)
qed

lemma path_escape_count: "count_list (path_escape s) (CHR ''/'') = 0"
  using path_escape_no_slash by (simp add: count_list_0_iff)

text \<open>The upstream path a route forwards to, before the parameter is put in.\<close>

fun upstream_pattern :: "route \<Rightarrow> string" where
  "upstream_pattern (RouteProxy svc path) = path"
| "upstream_pattern (RouteParam svc path) = path"
| "upstream_pattern (RouteAdmin svc path) = path"
| "upstream_pattern RouteAssistant = ''''"

lemma replace_id:
  "replace_all '':id'' x ''/operations/:id'' = ''/operations/'' @ x"
  "replace_all '':id'' x ''/operations/:id/redrive'' = ''/operations/'' @ x @ ''/redrive''"
  "replace_all '':id'' x ''/webhooks/:id'' = ''/webhooks/'' @ x"
  "replace_all '':id'' x ''/worker/operations/:id/heartbeat'' = ''/worker/operations/'' @ x @ ''/heartbeat''"
  "replace_all '':id'' x ''/worker/operations/:id/complete'' = ''/worker/operations/'' @ x @ ''/complete''"
  "replace_all '':id'' x ''/worker/operations/:id/fail'' = ''/worker/operations/'' @ x @ ''/fail''"
  by simp_all

lemma forwarded_path:
  assumes "Forward svc path h' \<in> set (fst (snd (route_handler cfg env params r h s)))"
  shows "path = (case r of RouteParam svc p \<Rightarrow> param_path p params | _ \<Rightarrow> upstream_pattern r)"
proof (cases r)
  case RouteAssistant
  with assms assistant_calls [of "Forward svc path h'" cfg "ge_operations env" "ge_ai env" "ge_question env" h s]
  show ?thesis by auto
qed (use assms in \<open>auto simp: proxyPath_def requireAdmin_def Let_def split: if_splits\<close>)

text \<open>
  C28: The internal routes are out of a client's reach: on every route of the group \<open>/v1\<close> and
  for every value of the path parameter, slashes and dots included, the path forwarded to a
  service begins with none of \<open>/internal\<close>, \<open>/auth\<close> and \<open>/healthz\<close> and has exactly the
  slashes of the route's own pattern, so the parameter stays one segment.
\<close>
theorem internal_routes_unreachable:
  assumes "(m, pat, r) \<in> set v1_routes"
    and "serve_v1 cfg env [(''id'', v)] r h s = (s', calls, reply)" "Forward svc path h' \<in> set calls"
  shows "\<not> has_prefix path ''/internal'' \<and> \<not> has_prefix path ''/auth'' \<and> \<not> has_prefix path ''/healthz'' \<and>
    count_list path (CHR ''/'') = count_list (upstream_pattern r) (CHR ''/'')"
proof -
  from assms(2,3) obtain p where "ge_access env (verify_request (gw_internal_secret cfg) h) = AuthReply 200 (Some p)"
    and c: "Forward svc path h' \<in>
      set (fst (snd (rateLimit (ge_now env) (ge_redis_fails env) (route_handler cfg env [(''id'', v)] r) (identify p h) s)))"
    by (auto simp: serve_v1_def authenticate_def Let_def prepend_calls_def
        split: auth_reply.splits if_splits option.splits prod.splits)
  from rateLimit_calls [OF c] obtain h1 s1 where
    "Forward svc path h' \<in> set (fst (snd (route_handler cfg env [(''id'', v)] r h1 s1)))"
    by auto
  then have path: "path = (case r of RouteParam svc p \<Rightarrow> param_path p [(''id'', v)] | _ \<Rightarrow> upstream_pattern r)"
    by (rule forwarded_path)
  have par: "param_path p [(''id'', v)] = replace_all '':id'' (path_escape v) p" for p
    by (simp add: param_path_def)
  show ?thesis
    using assms(1) unfolding path v1_routes_def
    by (auto simp: par replace_id has_prefix_def path_escape_count)
qed

theorem internal_routes_unreachable_witness:
  "\<exists>h'. Forward OperationsService ''/operations/..%2Finternal'' h' \<in> set (fst (snd
      (serve_v1 sample_gw_cfg (sample_env ''customer'') [(''id'', ''../internal'')]
        (RouteParam OperationsService ''/operations/:id'') [] (\<lambda>k. None)))) \<and>
    count_list ''/operations/..%2Finternal'' (CHR ''/'') = 2"
proof -
  let ?r = "RouteParam OperationsService ''/operations/:id''"
  let ?v = "serve_v1 sample_gw_cfg (sample_env ''customer'') [(''id'', ''../internal'')] ?r [] (\<lambda>k. None)"
  have v: "?v = (fst ?v, fst (snd ?v), snd (snd ?v))" by simp
  have m: "(''GET'', ''/v1/operations/:id'', ?r) \<in> set v1_routes" by (simp add: v1_routes_def)
  have path: "param_path ''/operations/:id'' [(''id'', ''../internal'')] = ''/operations/..%2Finternal''"
    by code_simp
  obtain h' where c: "Forward OperationsService ''/operations/..%2Finternal'' h' \<in> set (fst (snd ?v))"
    by (auto simp: serve_v1_def authenticate_def sample_env_def rateLimit_def incr_script_def rate_cap_def
        hdr_get_identify proxyPath_def prepend_calls_def Let_def path simp del: replace_all.simps)
  from internal_routes_unreachable [OF m v c] have "count_list ''/operations/..%2Finternal'' (CHR ''/'') = 2"
    by simp
  with c show ?thesis by blast
qed

section \<open>The request rate\<close>

text \<open>
  A sequence of requests through the limiter: which of them reach the handler behind it.
\<close>

definition reaches :: gw_handler where
  "reaches h s = (s, [], NoContent 204)"

fun rate_run :: "(int \<times> header) list \<Rightarrow> counters \<Rightarrow> (int \<times> header) list" where
  "rate_run [] s = []"
| "rate_run ((n, h) # rs) s =
     (let (s', calls, r) = rateLimit n False reaches h s
      in (if r = NoContent 204 then [(n, h)] else []) @ rate_run rs s')"

lemma rate_key_inj: "rate_key t w = rate_key t' w' \<Longrightarrow> t = t' \<and> w = w'"
proof -
  assume "rate_key t w = rate_key t' w'"
  then have "t @ CHR '':'' # itoa w = t' @ CHR '':'' # itoa w'" by (simp add: rate_key_def)
  then have "rev (itoa w) @ CHR '':'' # rev t = rev (itoa w') @ CHR '':'' # rev t'"
    by (metis append.assoc append_Cons append_Nil rev.simps(2) rev_append)
  moreover have "CHR '':'' \<notin> set (rev (itoa w))" "CHR '':'' \<notin> set (rev (itoa w'))" by simp_all
  ultimately have "rev (itoa w) = rev (itoa w') \<and> rev t = rev t'" by (intro split_unique)
  then show ?thesis by (auto dest: itoa_inj)
qed

text \<open>The counter of one tenant's window lives past the end of the window.\<close>

definition window_live :: "string \<Rightarrow> int \<Rightarrow> counters \<Rightarrow> bool" where
  "window_live t w s = (case s (rate_key t w) of None \<Rightarrow> True
     | Some (c, e) \<Rightarrow> 0 \<le> c \<and> (w + 1) * 60 * second \<le> e)"

definition window_used :: "string \<Rightarrow> int \<Rightarrow> counters \<Rightarrow> int" where
  "window_used t w s = (case s (rate_key t w) of None \<Rightarrow> 0 | Some (c, e) \<Rightarrow> c)"

lemma rate_window_bounds: "rate_window n = w \<Longrightarrow> w * 60 * second \<le> n \<and> n < (w + 1) * 60 * second"
proof -
  assume "rate_window n = w"
  then have "n div (second * 60) = w" by (simp add: rate_window_def zdiv_zmult2_eq second_def)
  then show ?thesis unfolding second_def by auto
qed

lemma incr_window:
  assumes "window_live t w s" "rate_window n = w"
  shows "snd (incr_script (rate_key t w) 70 n s) = window_used t w s + 1 \<and>
    window_live t w (fst (incr_script (rate_key t w) 70 n s)) \<and>
    window_used t w (fst (incr_script (rate_key t w) 70 n s)) = window_used t w s + 1"
  using assms rate_window_bounds [OF assms(2)]
  by (auto simp: incr_script_def window_live_def window_used_def second_def split: option.splits)

lemma incr_other:
  assumes "(t', w') \<noteq> (t, w)"
  shows "fst (incr_script (rate_key t' w') 70 n s) (rate_key t w) = s (rate_key t w)"
proof -
  have "rate_key t w \<noteq> rate_key t' w'" using assms rate_key_inj by blast
  then show ?thesis by (auto simp: incr_script_def split: option.split)
qed

lemma rateLimit_reaches:
  "rateLimit n False reaches h s = (s', calls, r) \<Longrightarrow>
     (s', snd (incr_script (rate_key (hdr_get h TenantHeader) (rate_window n)) 70 n s)) =
        incr_script (rate_key (hdr_get h TenantHeader) (rate_window n)) 70 n s \<and>
     (r = NoContent 204 \<longleftrightarrow>
        snd (incr_script (rate_key (hdr_get h TenantHeader) (rate_window n)) 70 n s) \<le> rate_cap h)"
  by (auto simp: rateLimit_def Let_def split_def prepend_calls_def reaches_def split: if_splits)

definition in_window :: "string \<Rightarrow> int \<Rightarrow> int \<Rightarrow> int \<times> header \<Rightarrow> bool" where
  "in_window t w l x = (hdr_get (snd x) TenantHeader = t \<and> rate_window (fst x) = w \<and> rate_cap (snd x) \<le> l)"

lemma rate_run_bound:
  "window_live t w s \<Longrightarrow>
     int (length (filter (in_window t w l) (rate_run rs s))) \<le> max 0 (l - window_used t w s)"
proof (induction rs arbitrary: s)
  case (Cons x rs)
  obtain n h where x: "x = (n, h)" by (cases x)
  obtain s' calls r where rl: "rateLimit n False reaches h s = (s', calls, r)" by (metis prod.collapse)
  let ?t = "hdr_get h TenantHeader" and ?w = "rate_window n"
  let ?incr = "incr_script (rate_key ?t ?w) 70 n s"
  from rateLimit_reaches [OF rl] have s': "s' = fst ?incr" and pass: "r = NoContent 204 \<longleftrightarrow> snd ?incr \<le> rate_cap h"
    by (auto simp: prod_eq_iff)
  have run: "rate_run (x # rs) s = (if r = NoContent 204 then [(n, h)] else []) @ rate_run rs s'"
    by (simp add: x rl)
  show ?case
  proof (cases "?t = t \<and> ?w = w")
    case True
    with incr_window [OF Cons.prems] have live: "window_live t w s'" and
      used: "window_used t w s' = window_used t w s + 1" "snd ?incr = window_used t w s + 1"
      by (auto simp: s')
    from Cons.IH [OF live] show ?thesis
      using used pass unfolding run by (auto simp: in_window_def True)
  next
    case False
    then have "s' (rate_key t w) = s (rate_key t w)"
      unfolding s' by (intro incr_other) auto
    then have "window_live t w s'" "window_used t w s' = window_used t w s"
      using Cons.prems by (simp_all add: window_live_def window_used_def)
    with Cons.IH [of s'] show ?thesis
      unfolding run using False by (auto simp: in_window_def)
  qed
qed simp

text \<open>
  C29: The rate of a tenant is bounded: of any sequence of requests, in any order and mixed
  with those of other tenants, at most 120 that are not an administrator's and at most 600
  in all pass the limiter for one tenant in one minute, because the counter outlives its
  minute and no other tenant or minute shares its key.
\<close>
theorem rate_limited:
  assumes "s (rate_key t w) = None"
  shows "length (filter (\<lambda>(n, h). hdr_get h TenantHeader = t \<and> rate_window n = w \<and>
      hdr_get h RoleHeader \<noteq> ''admin'') (rate_run rs s)) \<le> 120 \<and>
    length (filter (\<lambda>(n, h). hdr_get h TenantHeader = t \<and> rate_window n = w) (rate_run rs s)) \<le> 600"
proof -
  have "window_live t w s" "window_used t w s = 0"
    using assms by (simp_all add: window_live_def window_used_def)
  then have b: "int (length (filter (in_window t w l) (rate_run rs s))) \<le> max 0 l" for l
    using rate_run_bound [of t w s l rs] by simp
  have eq: "in_window t w 120 = (\<lambda>(n, h). hdr_get h TenantHeader = t \<and> rate_window n = w \<and>
      hdr_get h RoleHeader \<noteq> ''admin'')"
    "in_window t w 600 = (\<lambda>(n, h). hdr_get h TenantHeader = t \<and> rate_window n = w)"
    by (auto simp: in_window_def rate_cap_def fun_eq_iff)
  show ?thesis using b [of 120] b [of 600] unfolding eq by simp
qed

theorem rate_limited_witness:
  "length (filter (\<lambda>(n, h). hdr_get h TenantHeader = ''t1'' \<and> rate_window n = 0 \<and>
      hdr_get h RoleHeader \<noteq> ''admin'')
    (rate_run (replicate 130 (5, [(''X-Nexora-Tenant-Id'', [''t1''])])) (\<lambda>k. None))) \<le> 120"
  using rate_limited [of "\<lambda>k. None" "''t1''" 0 "replicate 130 (5, [(''X-Nexora-Tenant-Id'', [''t1''])])"]
  by simp

section \<open>CORS\<close>

lemma fold_hdr_del:
  "fold (\<lambda>(k, _) acc. if P k then hdr_del acc k else acc) ks hs =
     filter (\<lambda>(k, v). \<forall>k'\<in>fst ` set ks. \<not> (P k' \<and> k = canonical_key k')) hs"
proof (induction ks arbitrary: hs)
  case (Cons x ks)
  obtain k v where x: "x = (k, v)" by (cases x)
  show ?case
    unfolding x using Cons by (auto simp: hdr_del_def split_def intro!: filter_cong)
qed simp

lemma strip_exact:
  assumes "\<forall>(k, v)\<in>set hs. canonical_key k = k"
  shows "stripUpstreamCORSHeaders hs =
    filter (\<lambda>(k, v). \<not> has_prefix (to_lower k) ''access-control-'') hs"
  unfolding stripUpstreamCORSHeaders_def fold_hdr_del
  using assms by (intro filter_cong) (auto simp: split_def)

end
