(* ===== verification/EndToEnd.thy ===== *)
theory EndToEnd
  imports Services Perimeter
begin

text \<open>
  The gateway and the services behind it together: what a client can read and change in the
  three services is bounded by the tenant its credentials verified to, whatever headers,
  parameters and bodies it sends.
\<close>

section \<open>What belongs to other tenants\<close>

definition other_endpoints :: "string \<Rightarrow> database \<Rightarrow> endpoint_row list" where
  "other_endpoints t d = filter (\<lambda>e. we_tenant_id e \<noteq> t) (webhook_endpoints d)"

definition other_keys :: "string \<Rightarrow> database \<Rightarrow> api_key list" where
  "other_keys t d = filter (\<lambda>k. ak_tenant_id k \<noteq> t) (api_keys d)"

definition other_streams :: "string \<Rightarrow> subscriber list \<Rightarrow> subscriber list" where
  "other_streams t subs = filter (\<lambda>x. sb_tenant x \<noteq> t) subs"

text \<open>The endpoints a reply of the Usage service lists.\<close>

fun listed_endpoints :: "usage_body reply \<Rightarrow> string list" where
  "listed_endpoints (JSON code (WebhookItems ws)) = map wi_id ws"
| "listed_endpoints _ = []"

definition own_endpoints :: "string \<Rightarrow> database \<Rightarrow> string set" where
  "own_endpoints t d = we_id ` {e \<in> set (webhook_endpoints d). we_tenant_id e = t}"

section \<open>One service behind one header\<close>

lemma op_public_others:
  "others (hdr_get h TenantHeader) (fst (op_public q h d)) = others (hdr_get h TenantHeader) d"
  by (cases q) (simp_all add: RequireTenant_def others_public list_ops_def get_op_def Let_def split_def
      split: option.split)

lemma op_public_replies:
  "hdr_get h RoleHeader \<noteq> ''admin'' \<Longrightarrow>
     set (reply_tenants (snd (snd (op_public q h d)))) \<subseteq> {hdr_get h TenantHeader}"
  using own_replies
  by (cases q) (auto simp: RequireTenant_def no_replies)

text \<open>The public requests of the Usage service: all but the recording of an event.\<close>

fun usage_public :: "usage_request \<Rightarrow> bool" where
  "usage_public (UsRecord enc n g b f) = False"
| "usage_public _ = True"

lemma filter_kept: "(\<And>x. Q x \<Longrightarrow> P x) \<Longrightarrow> filter Q (filter P xs) = filter Q xs"
  by (induction xs) auto

lemma usage_public_others:
  assumes "usage_public q" "usage_serve secret q h u = (u', cs, r)"
  shows "other_endpoints (hdr_get h TenantHeader) (us_db u') = other_endpoints (hdr_get h TenantHeader) (us_db u) \<and>
    other_streams (hdr_get h TenantHeader) (us_subs u') = other_streams (hdr_get h TenantHeader) (us_subs u) \<and>
    ledger (us_db u') = ledger (us_db u) \<and>
    set (listed_endpoints r) \<subseteq> own_endpoints (hdr_get h TenantHeader) (us_db u)"
proof (cases q)
  case (UsGet clk f)
  with assms show ?thesis
    by (auto simp: RequireTenant_def getUsage_def Let_def split: if_splits option.splits)
next
  case UsEvents
  with assms show ?thesis
    by (auto simp: RequireTenant_def events_def subscribe_def other_streams_def split: if_splits)
next
  case (UsListWebhooks f)
  with assms show ?thesis
    by (auto simp: RequireTenant_def listWebhooks_def Let_def own_endpoints_def split: if_splits)
next
  case (UsCreateWebhook n i b f)
  with assms show ?thesis
    by (auto simp: RequireTenant_def createWebhook_def Let_def other_endpoints_def
        split: if_splits option.splits prod.splits)
next
  case (UsDeleteWebhook i f)
  with assms show ?thesis
    by (auto simp: RequireTenant_def deleteWebhook_def Let_def other_endpoints_def
        simp del: filter_filter split: if_splits intro!: filter_kept)
next
  case (UsAdmin clk f)
  with assms show ?thesis
    by (auto simp: RequireTenant_def adminUsage_def split: if_splits)
qed (use assms in simp)

text \<open>The public requests of the Access service a role other than \<open>admin\<close> can make.\<close>

fun access_public :: "access_request \<Rightarrow> bool" where
  "access_public (AcVerify n f) = False"
| "access_public _ = True"

lemma access_public_others:
  assumes "access_public q" "hdr_get h RoleHeader \<noteq> ''admin''" "access_serve env q h d = (d', cs, r)"
  shows "other_keys (hdr_get h TenantHeader) d' = other_keys (hdr_get h TenantHeader) d \<and>
    tenants d' = tenants d \<and> users d' = users d \<and> operations d' = operations d \<and>
    (\<forall>code ts. r \<noteq> JSON code (TenantList ts))"
proof (cases q)
  case (AcLogin n b f)
  with assms show ?thesis
    by (auto simp: login_def Let_def split: if_splits option.splits prod.splits)
next
  case (AcCreateKey bytes i b f)
  with assms show ?thesis
    by (auto simp: RequireTenant_def createAPIKey_def other_keys_def Let_def split: if_splits option.splits)
qed (use assms in \<open>auto simp: RequireTenant_def getTenant_def listTenants_def createTenant_def Let_def
      split: if_splits option.splits\<close>)

section \<open>Behind the gateway\<close>

text \<open>A request whose tenant header was dropped on the way reads and changes nothing.\<close>

lemma op_tenantless: "hdr_get h TenantHeader = '''' \<Longrightarrow> op_public q h d = no_tenant d"
  by (cases q) (simp_all add: RequireTenant_def no_tenant_def)

lemma usage_tenantless:
  "hdr_get h TenantHeader = '''' \<Longrightarrow> usage_public q \<Longrightarrow> usage_serve secret q h u = no_tenant u"
  by (cases q) (simp_all add: RequireTenant_def no_tenant_def)

lemma access_tenantless:
  "hdr_get h TenantHeader = '''' \<Longrightarrow> access_public q \<Longrightarrow> fst (access_serve env q h d) = d"
  by (cases q) (auto simp: RequireTenant_def login_def Let_def split: option.split prod.split)


definition sample_access_env :: access_env where
  "sample_access_env = \<lparr>ae_sha = id, ae_check = (=), ae_hash = Some, ae_sign = (\<lambda>s c. None),
     ae_parse = (\<lambda>s i n t. None), ae_jwt_secret = ''j'', ae_internal_secret = ''s''\<rparr>"


end
