(* ===== verification/Credentials.thy ===== *)
theory Credentials
  imports Access Sample
begin

text \<open>
  Properties of \<open>cmd/access/main.go\<close>: the round trips of API keys and tokens, what an accepted
  credential proves, and the idempotency of the bootstrap.
\<close>

section \<open>API keys\<close>

lemma base64_char_no_space: "k < 64 \<Longrightarrow> \<not> is_space (base64_char k)"
proof -
  assume "k < 64"
  then have "k \<in> set [0..<64]" by simp
  moreover have "\<forall>k\<in>set [0..<64]. \<not> is_space (base64_char k)" by code_simp
  ultimately show ?thesis by blast
qed

lemma base64_no_space: "\<forall>x\<in>set bs. x < 256 \<Longrightarrow> \<forall>c\<in>set (base64_raw bs). \<not> is_space c"
proof (induction bs rule: base64_raw.induct)
  case (1 a b c bs)
  have "a div 4 < 64" "a mod 4 * 16 + b div 16 < 64" "b mod 16 * 4 + c div 64 < 64" "c mod 64 < 64"
    using 1(2) by (auto simp: less_mult_imp_div_less)
  with 1 show ?case by (auto simp: base64_char_no_space)
next
  case (2 a b)
  have "a div 4 < 64" "a mod 4 * 16 + b div 16 < 64" "b mod 16 * 4 < 64"
    using 2 by (auto simp: less_mult_imp_div_less)
  then show ?case by (auto simp: base64_char_no_space)
next
  case (3 a)
  have "a div 4 < 64" "a mod 4 * 16 < 64"
    using 3 by (auto simp: less_mult_imp_div_less)
  then show ?case by (auto simp: base64_char_no_space)
qed simp

lemma trim_raw_key: "trim_space (raw_api_key bytes) = raw_api_key bytes"
proof (rule trim_space_id)
  have "\<forall>c\<in>set ''nx_live_''. \<not> is_space c" by (simp add: is_space_def)
  moreover have "\<forall>x\<in>set (map of_char bytes :: nat list). x < 256" by (auto simp: of_char_def)
  then have "\<forall>c\<in>set (base64_raw (map of_char bytes)). \<not> is_space c" by (rule base64_no_space)
  ultimately show "\<forall>c\<in>set (raw_api_key bytes). \<not> is_space c" unfolding raw_api_key_def set_append by blast
qed

lemma raw_key_nonempty: "raw_api_key bytes \<noteq> ''''"
  by (simp add: raw_api_key_def)

text \<open>
  C25: A new API key works, for its own tenant only: what \<open>createAPIKey\<close> returns, sent back in
  \<open>X-API-Key\<close> by a request without a bearer token, is verified as the role \<open>service\<close> of the
  tenant that created it, whatever the hash function and the random bytes; the key itself
  is not stored, only its hash.
\<close>
theorem api_key_roundtrip:
  assumes "createAPIKey sha random i bound f h d = (d', cs, JSON 201 (KeyBody i name prefix raw))"
    and "bearer (hdr_get h2 ''Authorization'') = ''''" "hdr_get h2 ''X-API-Key'' = raw"
  shows "snd (snd (verify sha parse secret n no_faults h2 d')) = JSON 200 (PrincipalBody
      \<lparr>pr_tenant_id = hdr_get h TenantHeader, pr_user_id = '''', pr_role = ''service''\<rparr>) \<and>
    (\<exists>k. api_keys d' = api_keys d @ [k] \<and> ak_key_hash k = hex_encode (sha raw) \<and>
      ak_tenant_id k = hdr_get h TenantHeader \<and> ak_prefix k = take 16 raw)"
proof -
  let ?k = "\<lparr>ak_id = i, ak_tenant_id = hdr_get h TenantHeader, ak_name = name, ak_prefix = prefix,
    ak_key_hash = key_hash sha raw, ak_last_used_at = None, ak_revoked_at = None\<rparr>"
  from assms(1) obtain bytes where raw: "raw = raw_api_key bytes" and pre: "prefix = take 16 raw"
    and d': "d' = d\<lparr>api_keys := api_keys d @ [?k]\<rparr>"
    and fresh: "key_hash sha raw \<notin> ak_key_hash ` set (api_keys d)"
    by (auto simp: createAPIKey_def Let_def split: option.splits if_splits)
  have "find_row (\<lambda>k. ak_key_hash k = key_hash sha raw \<and> ak_revoked_at k = None) (api_keys d) = None"
    using fresh by (fastforce simp: find_row_None image_iff)
  then have "find_row (\<lambda>k. ak_key_hash k = key_hash sha raw \<and> ak_revoked_at k = None) (api_keys d') = Some ?k"
    by (simp add: d' find_row_append)
  moreover have "trim_space raw = raw" "raw \<noteq> ''''"
    unfolding raw by (rule trim_raw_key, rule raw_key_nonempty)
  ultimately have "snd (snd (verify sha parse secret n no_faults h2 d')) = JSON 200 (PrincipalBody
      \<lparr>pr_tenant_id = hdr_get h TenantHeader, pr_user_id = '''', pr_role = ''service''\<rparr>)"
    using assms(2,3) by (simp add: verify_def Let_def)
  then show ?thesis using pre by (simp add: d' key_hash_def)
qed

definition sample_tenant_header :: header where
  "sample_tenant_header = [(''X-Nexora-Tenant-Id'', [''t1''])]"

definition sample_key_header :: "string \<Rightarrow> header" where
  "sample_key_header key = [(''X-Api-Key'', [key])]"

theorem api_key_roundtrip_witness:
  "\<exists>d' raw. createAPIKey id (Some ''abc'') ''i1'' None no_faults sample_tenant_header (sample_db []) =
      (d', [], JSON 201 (KeyBody ''i1'' ''default'' (take 16 raw) raw)) \<and>
    snd (snd (verify id (\<lambda>a b c e. None) '''' 5 no_faults (sample_key_header raw) d')) =
      JSON 200 (PrincipalBody \<lparr>pr_tenant_id = ''t1'', pr_user_id = '''', pr_role = ''service''\<rparr>)"
proof -
  let ?c = "createAPIKey id (Some ''abc'') ''i1'' None no_faults sample_tenant_header (sample_db [])"
  let ?raw = "raw_api_key ''abc''"
  have t: "hdr_get sample_tenant_header TenantHeader = ''t1''" by code_simp
  have c: "?c = (fst ?c, [], JSON 201 (KeyBody ''i1'' ''default'' (take 16 ?raw) ?raw))"
    by (simp add: createAPIKey_def t sample_defs trim_space_def Let_def)
  have b: "bearer (hdr_get (sample_key_header ?raw) ''Authorization'') = ''''" by code_simp
  have k: "hdr_get (sample_key_header ?raw) ''X-API-Key'' = ?raw" by code_simp
  from api_key_roundtrip [OF c b k, of "\<lambda>a b c e. None" "''''" 5] c show ?thesis
    unfolding t by blast
qed

section \<open>What an accepted credential proves\<close>

text \<open>
  An accepted credential is a token the token check accepts for the issuer \<open>nexora\<close> under
  the service's secret, or, when no bearer token is sent, a key whose hash is stored and not
  revoked. A key always gives the role \<open>service\<close> and the tenant it was stored for, and
  verifying changes nothing but the time a key was last used.
\<close>
lemma verify_sound:
  assumes "verify sha parse secret n f h d = (d', cs, JSON code (PrincipalBody p))"
  shows "(\<exists>cl. bearer (hdr_get h ''Authorization'') \<noteq> '''' \<and>
      parse secret ''nexora'' n (bearer (hdr_get h ''Authorization'')) = Some cl \<and> d' = d \<and>
      p = \<lparr>pr_tenant_id = cl_tenant_id cl, pr_user_id = cl_subject cl, pr_role = cl_role cl\<rparr>) \<or>
    (\<exists>k\<in>set (api_keys d). bearer (hdr_get h ''Authorization'') = '''' \<and>
      ak_key_hash k = hex_encode (sha (trim_space (hdr_get h ''X-API-Key''))) \<and> ak_revoked_at k = None \<and>
      p = \<lparr>pr_tenant_id = ak_tenant_id k, pr_user_id = '''', pr_role = ''service''\<rparr> \<and>
      map (ak_last_used_at_update (\<lambda>_. None)) (api_keys d') = map (ak_last_used_at_update (\<lambda>_. None)) (api_keys d) \<and>
      users d' = users d \<and> tenants d' = tenants d)"
proof (cases "bearer (hdr_get h ''Authorization'') = ''''")
  case False
  with assms show ?thesis by (auto simp: verify_def Let_def split: option.splits)
next
  case True
  let ?live = "\<lambda>k. ak_key_hash k = key_hash sha (trim_space (hdr_get h ''X-API-Key'')) \<and> ak_revoked_at k = None"
  from assms True obtain k where k: "find_row ?live (api_keys d) = Some k"
    and d': "d' = d\<lparr>api_keys := update_where ?live (\<lambda>k. k\<lparr>ak_last_used_at := Some n\<rparr>) (api_keys d)\<rparr>"
    and p: "p = \<lparr>pr_tenant_id = ak_tenant_id k, pr_user_id = '''', pr_role = ''service''\<rparr>"
    by (auto simp: verify_def Let_def split: option.splits if_splits)
  have "map (ak_last_used_at_update (\<lambda>_. None)) (api_keys d') = map (ak_last_used_at_update (\<lambda>_. None)) (api_keys d)"
    unfolding d' by simp (rule map_update_where, simp)
  moreover have "users d' = users d" "tenants d' = tenants d" by (simp_all add: d')
  ultimately show ?thesis
    using find_row_Some [OF k] True p by (auto simp: key_hash_def)
qed

definition sample_key :: api_key where
  "sample_key = \<lparr>ak_id = ''i'', ak_tenant_id = ''t1'', ak_name = ''n'', ak_prefix = ''nx'',
     ak_key_hash = hex_encode ''nx'', ak_last_used_at = None, ak_revoked_at = None\<rparr>"

lemma verify_sound_witness:
  "\<exists>d'. verify id (\<lambda>a b c e. None) ''s'' 5 no_faults (sample_key_header ''nx'')
      ((sample_db [])\<lparr>api_keys := [sample_key]\<rparr>) = (d', [], JSON 200 (PrincipalBody
        \<lparr>pr_tenant_id = ''t1'', pr_user_id = '''', pr_role = ''service''\<rparr>)) \<and>
    map (ak_last_used_at_update (\<lambda>_. None)) (api_keys d') = [sample_key]"
proof -
  let ?d = "(sample_db [])\<lparr>api_keys := [sample_key]\<rparr>" and ?h = "sample_key_header ''nx''"
  let ?p = "\<lparr>pr_tenant_id = ''t1'', pr_user_id = '''', pr_role = ''service''\<rparr>"
  let ?v = "verify id (\<lambda>a b c e. None) ''s'' 5 no_faults ?h ?d"
  have b: "bearer (hdr_get ?h ''Authorization'') = ''''" by code_simp
  have k: "trim_space (hdr_get ?h ''X-API-Key'') = ''nx''" by code_simp
  have v: "?v = (fst ?v, [], JSON 200 (PrincipalBody ?p))"
    by (simp add: verify_def b k Let_def key_hash_def sample_key_def)
  from verify_sound [OF v] b
  have "map (ak_last_used_at_update (\<lambda>_. None)) (api_keys (fst ?v)) =
      map (ak_last_used_at_update (\<lambda>_. None)) (api_keys ?d)"
    by blast
  with v show ?thesis by (intro exI [of _ "fst ?v"]) (simp add: sample_key_def)
qed

section \<open>Login\<close>

text \<open>
  C26: Login and verification agree: a token that \<open>login\<close> returns is accepted by \<open>verify\<close> in a
  bearer header for the eight hours it announces, as the tenant, the user and the role of
  the row the password was checked against. The hypothesis is the contract of the token
  library: a signed token parses, with its issuer and before its expiry, to its claims.
\<close>
theorem login_roundtrip:
  assumes lib: "\<And>cl tok n. sign secret cl = Some tok \<Longrightarrow> n < cl_expires_at cl \<Longrightarrow> tok \<noteq> '''' \<and>
      (\<exists>cl'. parse secret (cl_issuer cl) n tok = Some cl' \<and> cl_tenant_id cl' = cl_tenant_id cl \<and>
        cl_subject cl' = cl_subject cl \<and> cl_role cl' = cl_role cl)"
    and "login ok sign secret n (Some (email, password)) f h d = (d', cs, JSON 200 (LoginBody token ttl t role))"
    and "m < n + ttl * second" "bearer (hdr_get h2 ''Authorization'') = token"
  shows "d' = d \<and> (\<exists>u\<in>set (users d). us_email u = to_lower (trim_space email) \<and>
    us_tenant_id u = Some t \<and> us_role u = role \<and> ok (us_password_hash u) password \<and>
    verify sha parse secret m f2 h2 d = (d, [], JSON 200 (PrincipalBody
      \<lparr>pr_tenant_id = t, pr_user_id = us_id u, pr_role = role\<rparr>)))"
proof -
  from assms(2) obtain u where u: "find_row (\<lambda>u. us_email u = to_lower (trim_space email)) (users d) = Some u"
    and t: "us_tenant_id u = Some t" and pw: "ok (us_password_hash u) password"
    and tok: "sign secret (login_claims n t u) = Some token" and d': "d' = d" "role = us_role u" "ttl = 28800"
    by (auto simp: login_def Let_def split: option.splits if_splits)
  have "m < cl_expires_at (login_claims n t u)"
    using assms(3) d'(3) by (simp add: login_claims_def token_lifetime_def)
  from lib [OF tok this] obtain cl' where "token \<noteq> ''''" "parse secret ''nexora'' m token = Some cl'"
    "cl_tenant_id cl' = t" "cl_subject cl' = us_id u" "cl_role cl' = us_role u"
    by (auto simp: login_claims_def)
  then have "verify sha parse secret m f2 h2 d = (d, [], JSON 200 (PrincipalBody
      \<lparr>pr_tenant_id = t, pr_user_id = us_id u, pr_role = role\<rparr>))"
    using assms(4) d'(2) by (simp add: verify_def)
  with find_row_Some [OF u] t pw d' show ?thesis by auto
qed

text \<open>
  A token library for the witness: it signs one set of claims and accepts its one token.
\<close>

definition plain_sign :: "string \<Rightarrow> claims \<Rightarrow> string option" where
  "plain_sign secret cl = (if cl_tenant_id cl = ''t1'' \<and> cl_role cl = ''customer'' \<and> cl_subject cl = ''u1'' \<and>
     cl_issuer cl = ''nexora'' then Some ''tok'' else None)"

definition plain_parse :: "string \<Rightarrow> string \<Rightarrow> int \<Rightarrow> string \<Rightarrow> claims option" where
  "plain_parse secret issuer n tok = (if tok = ''tok'' \<and> issuer = ''nexora'' then Some
     \<lparr>cl_tenant_id = ''t1'', cl_role = ''customer'', cl_subject = ''u1'', cl_issuer = ''nexora'',
      cl_issued_at = 0, cl_expires_at = 0\<rparr> else None)"

definition sample_user :: user where
  "sample_user = \<lparr>us_id = ''u1'', us_tenant_id = Some ''t1'', us_email = ''a@b'', us_password_hash = ''pw'',
     us_role = ''customer''\<rparr>"

theorem login_roundtrip_witness:
  "verify id plain_parse ''s'' 9 no_faults [(''Authorization'', [''Bearer tok''])]
     ((sample_db [])\<lparr>users := [sample_user]\<rparr>) =
   ((sample_db [])\<lparr>users := [sample_user]\<rparr>, [], JSON 200 (PrincipalBody
     \<lparr>pr_tenant_id = ''t1'', pr_user_id = ''u1'', pr_role = ''customer''\<rparr>))"
proof -
  let ?d = "(sample_db [])\<lparr>users := [sample_user]\<rparr>"
  have lib: "tok \<noteq> '''' \<and> (\<exists>cl'. plain_parse ''s'' (cl_issuer cl) n tok = Some cl' \<and>
      cl_tenant_id cl' = cl_tenant_id cl \<and> cl_subject cl' = cl_subject cl \<and> cl_role cl' = cl_role cl)"
    if "plain_sign ''s'' cl = Some tok" for cl tok n
    using that by (auto simp: plain_sign_def plain_parse_def split: if_splits)
  have mail: "to_lower (trim_space ''A@b '') = ''a@b''" by code_simp
  have lg: "login (=) plain_sign ''s'' 5 (Some (''A@b '', ''pw'')) no_faults [] ?d =
      (?d, [], JSON 200 (LoginBody ''tok'' 28800 ''t1'' ''customer''))"
    by (simp add: login_def mail sample_user_def login_claims_def plain_sign_def)
  have b: "bearer (hdr_get [(''Authorization'', [''Bearer tok''])] ''Authorization'') = ''tok''" by code_simp
  have "(9::int) < 5 + 28800 * second" by (simp add: second_def)
  from login_roundtrip [where sign = plain_sign and parse = plain_parse and secret = "''s''", OF lib lg this b,
    of id no_faults] show ?thesis
    by (auto simp: sample_user_def)
qed

section \<open>Tenants\<close>

text \<open>
  A tenant and its first user appear together or not at all, and only an administrator
  creates them: a request answered 201 adds one tenant with a new slug, a quota that is not
  negative and a positive concurrency limit, and one user of it with the role \<open>customer\<close> and a
  new lower-case address; every other answer leaves the database as it was.
\<close>
theorem create_tenant_atomic:
  "let (d', cs, reply) = createTenant mk n i ui bound f h d
   in (d' = d \<and> reply_status reply \<in> {400, 403, 500}) \<or>
      (reply = JSON 201 (IdBody i) \<and> hdr_get h RoleHeader = ''admin'' \<and>
       (\<exists>tn u. tenants d' = tenants d @ [tn] \<and> users d' = users d @ [u] \<and>
          d'\<lparr>tenants := tenants d, users := users d\<rparr> = d \<and>
          tn_id tn = i \<and> us_tenant_id u = Some i \<and> us_role u = ''customer'' \<and>
          0 \<le> tn_monthly_quota tn \<and> 0 < tn_concurrency_limit tn \<and>
          tn_slug tn \<notin> tn_slug ` set (tenants d) \<and> us_email u \<notin> us_email ` set (users d) \<and>
          to_lower (us_email u) = us_email u))"
  by (auto simp: createTenant_def insert_tenant_def insert_user_def Let_def
      split: option.splits if_splits)

section \<open>Bootstrap\<close>

text \<open>\<open>seeded d s n\<close>: a tenant with slug \<open>s\<close> exists and every such tenant is named \<open>n\<close>.\<close>

definition seeded :: "database \<Rightarrow> string \<Rightarrow> string \<Rightarrow> bool" where
  "seeded d s n \<longleftrightarrow> (\<exists>x\<in>set (tenants d). tn_slug x = s) \<and>
     (\<forall>x\<in>set (tenants d). tn_slug x = s \<longrightarrow> tn_name x = n)"

lemma seeded_iff: "seeded d s n \<longleftrightarrow> s \<in> tn_slug ` set (tenants d) \<and>
    (\<forall>x\<in>set (tenants d). tn_slug x = s \<longrightarrow> tn_name x = n)"
  by (auto simp: seeded_def)

lemma upsert_seeds:
  assumes "upsert_tenant tn d = Some (d', t)"
  shows "seeded d' (tn_slug tn) (tn_name tn) \<and> users d' = users d \<and> api_keys d' = api_keys d \<and>
    (\<forall>s n. s \<noteq> tn_slug tn \<longrightarrow> seeded d s n \<longrightarrow> seeded d' s n)"
proof (cases "find_row (\<lambda>x. tn_slug x = tn_slug tn) (tenants d)")
  case None
  then have "d' = d\<lparr>tenants := tenants d @ [tn]\<rparr>"
    using assms by (auto simp: upsert_tenant_def insert_tenant_def split: if_splits)
  then show ?thesis using None by (auto simp: seeded_def find_row_None)
next
  case (Some x)
  then have "d' = d\<lparr>tenants := update_where (\<lambda>x. tn_slug x = tn_slug tn)
      (\<lambda>x. x\<lparr>tn_name := tn_name tn\<rparr>) (tenants d)\<rparr>"
    using assms by (simp add: upsert_tenant_def)
  then have d': "tenants d' = update_where (\<lambda>x. tn_slug x = tn_slug tn)
      (\<lambda>x. x\<lparr>tn_name := tn_name tn\<rparr>) (tenants d)" "users d' = users d" "api_keys d' = api_keys d"
    by simp_all
  have img: "tn_slug ` set (tenants d') = tn_slug ` set (tenants d)"
    unfolding d' by (rule image_update_where) simp
  have old: "x \<in> set (tenants d)" if "x \<in> set (tenants d')" "tn_slug x \<noteq> tn_slug tn" for x
    using that unfolding d' by (auto simp: in_update_where split: if_splits)
  have new: "tn_name x = tn_name tn" if "x \<in> set (tenants d')" "tn_slug x = tn_slug tn" for x
  proof -
    from that(1) obtain y where y: "x = (if tn_slug y = tn_slug tn then y\<lparr>tn_name := tn_name tn\<rparr> else y)"
      unfolding d' in_update_where by blast
    show ?thesis using that(2) unfolding y by (simp split: if_splits)
  qed
  have "tn_slug tn \<in> tn_slug ` set (tenants d)" using find_row_Some [OF Some] by (metis imageI)
  then have "tn_slug tn \<in> tn_slug ` set (tenants d')" by (simp add: img)
  with new have "seeded d' (tn_slug tn) (tn_name tn)" unfolding seeded_iff by blast
  moreover have "seeded d' s n" if "s \<noteq> tn_slug tn" "seeded d s n" for s n
    using that old unfolding seeded_iff img by blast
  ultimately show ?thesis by (simp add: d')
qed

lemma update_where_same: "(\<And>x. x \<in> set xs \<Longrightarrow> P x \<Longrightarrow> f x = x) \<Longrightarrow> update_where P f xs = xs"
  by (induction xs) auto

lemma upsert_seeded:
  assumes "seeded d (tn_slug tn) (tn_name tn)"
  shows "\<exists>t. upsert_tenant tn d = Some (d, t)"
proof -
  obtain x where "find_row (\<lambda>x. tn_slug x = tn_slug tn) (tenants d) = Some x"
    using assms by (cases "find_row (\<lambda>x. tn_slug x = tn_slug tn) (tenants d)")
      (auto simp: seeded_def find_row_None)
  moreover have "update_where (\<lambda>x. tn_slug x = tn_slug tn) (\<lambda>x. x\<lparr>tn_name := tn_name tn\<rparr>) (tenants d) = tenants d"
    using assms by (intro update_where_same) (auto simp: seeded_def)
  ultimately show ?thesis by (simp add: upsert_tenant_def)
qed

text \<open>What seeding a demo tenant leaves: its tenant, its user and its key are known.\<close>

definition demo_done :: "(string \<Rightarrow> string) \<Rightarrow> (string \<Rightarrow> string) \<Rightarrow> demoTenant \<Rightarrow> database \<Rightarrow> bool" where
  "demo_done sha getenv x d \<longleftrightarrow> getenv (dt_api_key_env x) = '''' \<or>
     seeded d (dt_slug x) (dt_name x) \<and> to_lower (dt_email x) \<in> us_email ` set (users d) \<and>
     key_hash sha (getenv (dt_api_key_env x)) \<in> ak_key_hash ` set (api_keys d)"

lemma put_frames [simp]:
  "tenants (put_user u d) = tenants d" "api_keys (put_user u d) = api_keys d"
  "tenants (put_key k d) = tenants d" "users (put_key k d) = users d"
  by (simp_all add: put_user_def put_key_def)

lemma seeded_put [simp]:
  "seeded (put_user u d) s n = seeded d s n" "seeded (put_key k d) s n = seeded d s n"
  by (simp_all add: seeded_def)

lemma seed_grows:
  assumes "seedDemoTenant mk sha getenv g x d = Some d'"
  shows "demo_done sha getenv x d' \<and> us_email ` set (users d) \<subseteq> us_email ` set (users d') \<and>
    ak_key_hash ` set (api_keys d) \<subseteq> ak_key_hash ` set (api_keys d') \<and>
    (\<forall>s n. s \<noteq> dt_slug x \<longrightarrow> seeded d s n \<longrightarrow> seeded d' s n)"
proof (cases "getenv (dt_api_key_env x) = ''''")
  case True
  with assms show ?thesis by (simp add: seedDemoTenant_def demo_done_def)
next
  case False
  with assms obtain tn d1 t u k where up: "upsert_tenant tn d = Some (d1, t)"
    and tn: "tn_slug tn = dt_slug x" "tn_name tn = dt_name x"
    and d': "d' = put_key k (put_user u d1)"
    and key: "us_email u = to_lower (dt_email x)" "ak_key_hash k = key_hash sha (getenv (dt_api_key_env x))"
    by (auto simp: seedDemoTenant_def seed_user_def Let_def split: option.splits)
  from upsert_seeds [OF up] show ?thesis
    by (auto simp: demo_done_def d' tn user_store.key_put key_store.key_put key)
qed

lemma seed_again:
  assumes "demo_done sha getenv x d" "mk (dt_password x) \<noteq> None"
  shows "seedDemoTenant mk sha getenv g x d = Some d"
proof (cases "getenv (dt_api_key_env x) = ''''")
  case False
  with assms have s: "seeded d (dt_slug x) (dt_name x)" "to_lower (dt_email x) \<in> us_email ` set (users d)"
    "key_hash sha (getenv (dt_api_key_env x)) \<in> ak_key_hash ` set (api_keys d)"
    by (simp_all add: demo_done_def)
  obtain t where up: "upsert_tenant \<lparr>tn_id = sd_tenant g, tn_name = dt_name x, tn_slug = dt_slug x,
      tn_monthly_quota = dt_monthly_quota x, tn_concurrency_limit = dt_concurrency_limit x,
      tn_created_at = sd_now g\<rparr> d = Some (d, t)"
    using upsert_seeded [of d "\<lparr>tn_id = sd_tenant g, tn_name = dt_name x, tn_slug = dt_slug x,
      tn_monthly_quota = dt_monthly_quota x, tn_concurrency_limit = dt_concurrency_limit x,
      tn_created_at = sd_now g\<rparr>"] s(1) by auto
  with False s assms(2) show ?thesis
    by (auto simp: seedDemoTenant_def Let_def seed_user_def user_store.put_known key_store.put_known)
qed (simp add: seedDemoTenant_def)


definition sample_seed :: "nat \<Rightarrow> seed_ids" where
  "sample_seed k = \<lparr>sd_tenant = itoa (int k), sd_user = itoa (int k), sd_key = itoa (int k), sd_now = 0\<rparr>"


end
