(* ===== verification/Private.thy ===== *)
theory Private
  imports Cloud EndToEnd Credentials
begin

text \<open>
  The enterprise worker behind the whole system: each request it sends goes to the gateway,
  which verifies its API key at the Access service, counts it, and forwards it to the public
  worker routes of the Operations service. What the operation and the event outbox end up
  with agrees with what the target answered.
\<close>

section \<open>The worker routes on a leased operation\<close>

lemma poll_leased:
  assumes "ops_inv d" "lookup_op d i = Some r" "status r \<in> {Queued, Retrying}"
    and "find_row (\<lambda>x. tn_id x = op_tenant r) (tenants d) = Some tn"
    and "int (running_count (op_tenant r) d) < tn_concurrency_limit tn"
    and "hdr_get h TenantHeader = op_tenant r" "w \<noteq> ''''"
    and "e\<lparr>env_not_before := None\<rparr> = scan_envelope r" "execution_mode r = ''PRIVATE''"
  obtains d' where "workerPoll n (Some w) CursorNil (\<lambda>p. XReadEntries [(sid, Envelope e)]) (\<lambda>k. no_faults) h d =
      (d', [SetCursor (cursor_key (op_tenant r)) sid], JSON 200 (EnvelopeBody (e\<lparr>env_attempt := attempt r + 1\<rparr>)))"
    "leased w (r\<lparr>attempt := attempt r + 1\<rparr>) d'" "event_outbox d' = event_outbox d" "api_keys d' = api_keys d"
proof -
  have x: "op_tenant r \<in> {[], op_tenant r}" by simp
  obtain d' where cl: "claimOperation n i (op_tenant r) w 45 no_faults d = (d', Some (op_tenant r, True))"
    "ops_inv d'" "lookup_op d' i = Some (r\<lparr>status := Running, attempt := attempt r + 1, lease_owner := Some w,
       lease_expires_at := Some (n + 45 * second), updated_at := n, version := version r + 1\<rparr>)"
    "event_outbox d' = event_outbox d"
    by (rule claim_any [OF assms(1-3) x assms(4,5)])
  have id: "op_id r = i" using lookup_op_Some [OF assms(2)] by simp
  have "env_operation_id (e\<lparr>env_not_before := None\<rparr>) = i" "env_tenant_id (e\<lparr>env_not_before := None\<rparr>) = op_tenant r"
    "env_attempt (e\<lparr>env_not_before := None\<rparr>) = attempt r" "env_execution_mode (e\<lparr>env_not_before := None\<rparr>) = ''PRIVATE''"
    unfolding assms(8) using id assms(9) by (simp_all add: scan_envelope_def)
  then have env: "env_operation_id e = i" "env_tenant_id e = op_tenant r" "env_attempt e = attempt r"
    "env_execution_mode e = ''PRIVATE''" by simp_all
  obtain y :: op_row where "d' = fst (exec_stmt (claim_stmt n i w 45 (op_tenant y)) d)"
    by (rule claimOperation_claimed [OF cl(1)]) (rule that)
  then have keys: "api_keys d' = api_keys d" using claiming.frame_exec(3) by simp
  show ?thesis
  proof (rule that)
    show "workerPoll n (Some w) CursorNil (\<lambda>p. XReadEntries [(sid, Envelope e)]) (\<lambda>k. no_faults) h d =
      (d', [SetCursor (cursor_key (op_tenant r)) sid], JSON 200 (EnvelopeBody (e\<lparr>env_attempt := attempt r + 1\<rparr>)))"
      using assms(6,7) cl(1) env by (simp add: workerPoll_def Let_def)
    show "leased w (r\<lparr>attempt := attempt r + 1\<rparr>) d'"
      using cl(2,3) id by (simp add: leased_def) (simp add: identity_def)
  qed (use cl(4) keys in simp_all)
qed

lemma heartbeat_leased:
  assumes "leased w r d" "op_tenant r = hdr_get h TenantHeader"
  obtains d' where "workerHeartbeat n (op_id r) (Some w) no_faults h d = (d', [], NoContent 204)"
    "leased w r d'" "event_outbox d' = event_outbox d" "api_keys d' = api_keys d"
proof -
  from assms(1) obtain x where inv: "ops_inv d" and x: "lookup_op d (op_id r) = Some x"
    "status x = Running" "lease_owner x = Some w" "attempt x = attempt r" "identity x = identity r"
    unfolding leased_def by blast
  let ?s = "worker_heartbeat_stmt n (op_id r) (hdr_get h TenantHeader) w"
  have "op_tenant x = op_tenant r" using x(5) by (simp add: identity_def)
  then have "st_where ?s x" using x assms(2) lookup_op_Some [OF x(1)] by (simp add: worker_heartbeat_stmt_def)
  from worker_beating.exec_hit [OF inv_distinct [OF inv] x(1) this] have
    hit: "snd (exec_stmt ?s d) = 1" "lookup_op (fst (exec_stmt ?s d)) (op_id r) = Some (st_set ?s x)" by auto
  have run: "workerHeartbeat n (op_id r) (Some w) no_faults h d = (fst (exec_stmt ?s d), [], NoContent 204)"
    using hit(1) by (simp add: workerHeartbeat_def Let_def split_def)
  have "ops_inv (fst (exec_stmt ?s d))" using steps_keep_inv [OF workerHeartbeat_steps inv] run by (metis fst_conv)
  then have "leased w r (fst (exec_stmt ?s d))"
    using x hit(2) by (simp add: leased_def) (simp add: worker_heartbeat_stmt_def identity_def)
  with run show ?thesis by (rule that) (simp_all add: worker_beating.frame_exec)
qed

lemma complete_leased:
  assumes "leased w r d" "op_tenant r = hdr_get h TenantHeader" "co_worker_id inp = w"
    and "g \<notin> eo_id ` set (event_outbox d)"
    and "event_key (op_id r) ''operation.succeeded'' (attempt r) \<notin> eo_event_key ` set (event_outbox d)"
  obtains d' x e where "workerComplete n g (op_id r) (Some inp) no_faults h d = (d', [], NoContent 204)"
    "lookup_op d' (op_id r) = Some x" "status x = Succeeded" "result x = json_column (co_result inp)"
    "attempt x = attempt r" "lease_owner x = None" "identity x = identity r"
    "event_outbox d' = event_outbox d @ [e]" "eo_event_key e = event_key (op_id r) ''operation.succeeded'' (attempt r)"
    "eo_tenant_id e = op_tenant r" "eo_status e = ObPending" "eo_units e = 1"
proof -
  from assms(1) obtain x where inv: "ops_inv d" and x: "lookup_op d (op_id r) = Some x"
    "status x = Running" "lease_owner x = Some w" "attempt x = attempt r" "identity x = identity r"
    unfolding leased_def by blast
  let ?t = "hdr_get h TenantHeader"
  let ?s = "worker_complete_stmt n (op_id r) ?t (co_worker_id inp) (co_result inp) (co_ai_explanation inp)"
  let ?e = "new_event n g (event_key (op_id r) ''operation.succeeded'' (attempt x)) ''operation.succeeded''
      (op_id r) ?t (co_result inp)"
  have "op_tenant x = op_tenant r" using x(5) by (simp add: identity_def)
  then have w: "st_where ?s x" using x assms(2,3) lookup_op_Some [OF x(1)] by (simp add: worker_complete_stmt_def)
  have find: "find_row (st_where ?s) (operations d) = Some x"
    by (rule find_holder [where P = "st_where ?s", OF inv_distinct [OF inv] x(1) w]) (simp add: worker_complete_stmt_def)
  from worker_completing.exec_hit [OF inv_distinct [OF inv] x(1) w] have
    hit: "lookup_op (fst (exec_stmt ?s d)) (op_id r) = Some (st_set ?s x)" by auto
  have box: "event_outbox (fst (exec_stmt ?s d)) = event_outbox d" by (rule worker_completing.frame_exec)
  let ?d = "put_event ?e (fst (exec_stmt ?s d))"
  have run: "workerComplete n g (op_id r) (Some inp) no_faults h d = (?d, [], NoContent 204)"
    unfolding workerComplete_def option.case find Let_def using assms(4) by (simp add: insertEvent_def box)
  have out: "event_outbox ?d = event_outbox d @ [?e]"
    using assms(5) x(4) by (simp add: put_event_def insert_new_def box) (simp add: new_event_def)
  have look: "lookup_op ?d (op_id r) = Some (st_set ?s x)"
    using hit by (simp add: put_event_def lookup_op_def)
  show ?thesis
    by (rule that [OF run look _ _ _ _ _ out])
      (use x assms(2) in \<open>simp_all add: worker_complete_stmt_def row_defs identity_def new_event_def\<close>)
qed

lemma fail_leased:
  assumes "leased w r d" "op_tenant r = hdr_get h TenantHeader" "fi_worker_id inp = w"
    and "g \<notin> eo_id ` set (event_outbox d)"
    and "\<forall>ty. event_key (op_id r) ty (attempt r) \<notin> eo_event_key ` set (event_outbox d)"
  obtains d' x e where "workerFail n g (op_id r) (Some inp) no_faults h d =
      (d', if status x = Retrying then [retry_call n (scan_envelope r)] else [],
       JSON 200 (Fields [(''status'', status_string (status x))]))"
    "lookup_op d' (op_id r) = Some x" "status x = failure_status (fi_retryable inp) (attempt r) (max_attempts r)"
    "error_code x = Some (fi_error_code inp)" "attempt x = attempt r" "lease_owner x = None" "identity x = identity r"
    "event_outbox d' = event_outbox d @ [e]" "eo_event_key e = event_key (op_id r)
       (if status x = DeadLettered then ''operation.dead_lettered'' else ''operation.failed'') (attempt r)"
    "eo_tenant_id e = op_tenant r" "eo_status e = ObPending" "eo_units e = 1"
proof -
  from assms(1) obtain x where inv: "ops_inv d" and x: "lookup_op d (op_id r) = Some x"
    "status x = Running" "lease_owner x = Some w" "attempt x = attempt r" "identity x = identity r"
    unfolding leased_def by blast
  let ?t = "hdr_get h TenantHeader" and ?st = "failure_status (fi_retryable inp) (attempt r) (max_attempts r)"
  let ?s = "worker_fail_stmt n (op_id r) ?t (fi_worker_id inp) ?st (fi_error_code inp) (fi_error_message inp)
      (fi_ai_explanation inp)"
  let ?ty = "if ?st = DeadLettered then ''operation.dead_lettered'' else ''operation.failed''"
  let ?e = "new_event n g (event_key (op_id r) ?ty (attempt r)) ?ty (op_id r) ?t (fail_event_payload ?st inp)"
  have tn: "op_tenant x = op_tenant r" using x(5) by (simp add: identity_def)
  have find: "find_row (\<lambda>y. op_id y = op_id r \<and> op_tenant y = ?t \<and> status y = Running \<and>
      lease_owner y = Some (fi_worker_id inp)) (operations d) = Some x"
    by (rule find_holder [OF inv_distinct [OF inv] x(1)]) (use x tn assms(2,3) lookup_op_Some [OF x(1)] in auto)
  have "st_where ?s x" using x tn assms(2,3) lookup_op_Some [OF x(1)] by (simp add: worker_fail_stmt_def)
  from worker_failing.exec_hit [OF inv_distinct [OF inv] x(1) this] have
    hit: "snd (exec_stmt ?s d) = 1" "lookup_op (fst (exec_stmt ?s d)) (op_id r) = Some (st_set ?s x)" by auto
  have box: "event_outbox (fst (exec_stmt ?s d)) = event_outbox d" by (rule worker_failing.frame_exec)
  let ?d = "put_event ?e (fst (exec_stmt ?s d))"
  have env: "scan_envelope x = scan_envelope r" using x(4,5) by (simp add: scan_envelope_def identity_def)
  have run: "workerFail n g (op_id r) (Some inp) no_faults h d =
      (?d, if status (st_set ?s x) = Retrying then [retry_call n (scan_envelope r)] else [],
       JSON 200 (Fields [(''status'', status_string (status (st_set ?s x)))]))"
    unfolding workerFail_def option.case find Let_def split_def env
    using hit(1) assms(4) by (simp add: scan_envelope_def insertEvent_def box) (simp add: worker_fail_stmt_def row_defs)
  have out: "event_outbox ?d = event_outbox d @ [?e]"
    using assms(5) by (simp add: put_event_def insert_new_def box) (simp add: new_event_def)
  have look: "lookup_op ?d (op_id r) = Some (st_set ?s x)"
    using hit(2) by (simp add: put_event_def lookup_op_def)
  show ?thesis
    by (rule that [OF run look _ _ _ _ _ out])
      (use x assms(2) in \<open>simp_all add: worker_fail_stmt_def row_defs identity_def new_event_def\<close>)
qed

section \<open>A request through the gateway\<close>

text \<open>
  Routing as Echo documents it: a pattern matches segment by segment, and a segment that
  begins with a colon matches any one segment and binds it.
\<close>

fun seg_match :: "string list \<Rightarrow> string list \<Rightarrow> (string \<times> string) list option" where
  "seg_match [] [] = Some []"
| "seg_match (p # ps) (v # vs) =
     (if p \<noteq> [] \<and> hd p = CHR '':'' then map_option (\<lambda>bs. (tl p, v) # bs) (seg_match ps vs)
      else if p = v then seg_match ps vs else None)"
| "seg_match _ _ = None"

definition path_match :: "string \<Rightarrow> string \<Rightarrow> (string \<times> string) list option" where
  "path_match pat path = seg_match (split_on (CHR ''/'') pat) (split_on (CHR ''/'') path)"

fun first_route :: "(string \<times> string \<times> route) list \<Rightarrow> string \<Rightarrow> string \<Rightarrow> (route \<times> (string \<times> string) list) option" where
  "first_route [] m path = None"
| "first_route ((m', pat, r) # rs) m path =
     (case (if m' = m then path_match pat path else None) of
        Some params \<Rightarrow> Some (r, params) | None \<Rightarrow> first_route rs m path)"

text \<open>What one request draws: the time, the identifier of an event and that of the request.\<close>

record moment =
  mo_now :: int
  mo_event_id :: string
  mo_request_id :: string

record site =
  si_base :: string
  si_gateway :: gw_cfg
  si_access :: access_env
  si_stream :: xread_reply

record site_state =
  ss_db :: database
  ss_counters :: counters

text \<open>The worker route of the Operations service a forwarded path and its body address.\<close>

definition worker_request :: "site \<Rightarrow> moment \<Rightarrow> agent_input \<Rightarrow> string \<Rightarrow> op_request option" where
  "worker_request site m inp path = (case inp of
      PollInput w \<Rightarrow> map_option (\<lambda>_. OpPoll (mo_now m) (Some w) CursorNil (\<lambda>p. si_stream site) (\<lambda>k. no_faults))
        (path_match ''/worker/poll'' path)
    | HeartbeatInput w \<Rightarrow> map_option (\<lambda>bs. OpWorkerHeartbeat (mo_now m) (snd (hd bs)) (Some w) no_faults)
        (path_match ''/worker/operations/:id/heartbeat'' path)
    | CompleteBody x \<Rightarrow> map_option (\<lambda>bs. OpWorkerComplete (mo_now m) (mo_event_id m) (snd (hd bs)) (Some x) no_faults)
        (path_match ''/worker/operations/:id/complete'' path)
    | FailBody x \<Rightarrow> map_option (\<lambda>bs. OpWorkerFail (mo_now m) (mo_event_id m) (snd (hd bs)) (Some x) no_faults)
        (path_match ''/worker/operations/:id/fail'' path))"

fun reply_envelope :: "body reply \<Rightarrow> QueueEnvelope option" where
  "reply_envelope (JSON code (EnvelopeBody e)) = Some e" | "reply_envelope r = None"

fun forwarded :: "gw_call list \<Rightarrow> (string \<times> header) option" where
  "forwarded [] = None"
| "forwarded (Forward OperationsService path h # cs) = Some (path, h)"
| "forwarded (c # cs) = forwarded cs"

definition site_env :: "site \<Rightarrow> moment \<Rightarrow> agent_input \<Rightarrow> auth_reply \<Rightarrow> database \<Rightarrow> gw_env" where
  "site_env site m inp auth d = \<lparr>ge_now = mo_now m, ge_request_id = mo_request_id m, ge_access = (\<lambda>req. auth),
     ge_redis_fails = False,
     ge_upstream = (\<lambda>svc path h. case (if svc = OperationsService then worker_request site m inp path else None) of
        None \<Rightarrow> UpResponse 404 [] '''' | Some q \<Rightarrow> UpResponse (reply_status (snd (snd (op_public q h d)))) [] ''''),
     ge_operations = (\<lambda>h. HttpError ''''), ge_ai = (\<lambda>m. AiTransport), ge_question = None\<rparr>"

text \<open>The state after a request, the workflows it started, and the status and envelope answered.\<close>

fun site_serve ::
    "site \<Rightarrow> moment \<Rightarrow> agent_call \<Rightarrow> site_state \<Rightarrow> site_state \<times> call list \<times> (int \<times> QueueEnvelope option) option" where
  "site_serve site m (ApiCall method url h inp) s =
     (case first_route v1_routes method (drop (length (si_base site)) url) of
        None \<Rightarrow> (s, [], Some (404, None))
      | Some (r, params) \<Rightarrow>
          let (d1, _, who) = access_serve (si_access site) (AcVerify (mo_now m) no_faults)
                (verify_request (gw_internal_secret (si_gateway site)) h) (ss_db s);
              (k, calls, reply) = serve_v1 (si_gateway site) (site_env site m inp (principal_reply who) d1) params r h
                (ss_counters s)
          in (case forwarded calls of
                None \<Rightarrow> (\<lparr>ss_db = d1, ss_counters = k\<rparr>, [], Some (reply_status reply, None))
              | Some (path, h') \<Rightarrow> (case worker_request site m inp path of
                    None \<Rightarrow> (\<lparr>ss_db = d1, ss_counters = k\<rparr>, [], Some (reply_status reply, None))
                  | Some q \<Rightarrow> let (d2, ws, op_reply) = op_public q h' d1
                      in (\<lparr>ss_db = d2, ss_counters = k\<rparr>, ws, Some (reply_status reply, reply_envelope op_reply)))))"
| "site_serve site m (AgentTarget u h p) s = (s, [], None)"
| "site_serve site m (AgentAI model p) s = (s, [], None)"

section \<open>The agent's requests get through\<close>

definition key_row :: "(string \<Rightarrow> string) \<Rightarrow> string \<Rightarrow> api_key \<Rightarrow> bool" where
  "key_row sha raw k \<longleftrightarrow> ak_key_hash k = key_hash sha (trim_space raw) \<and> ak_revoked_at k = None"

definition key_live :: "(string \<Rightarrow> string) \<Rightarrow> string \<Rightarrow> string \<Rightarrow> database \<Rightarrow> bool" where
  "key_live sha raw t d \<longleftrightarrow> trim_space raw \<noteq> [] \<and>
     (\<exists>k. find_row (key_row sha raw) (api_keys d) = Some k \<and> ak_tenant_id k = t)"

text \<open>The tenant may send \<open>m\<close> more requests in any minute.\<close>

definition rate_room :: "string \<Rightarrow> nat \<Rightarrow> counters \<Rightarrow> bool" where
  "rate_room t m s \<longleftrightarrow> (\<forall>w. (case s (rate_key t w) of None \<Rightarrow> 0 | Some (c, e) \<Rightarrow> max c 0) + int m \<le> 120)"

lemma agent_headers_get:
  "hdr_get (agent_headers cfg) ''Authorization'' = ''''" "hdr_get (agent_headers cfg) ''X-API-Key'' = ag_api_key cfg"
proof -
  have "canonical_key ''Authorization'' \<noteq> canonical_key ''Content-Type''"
    "canonical_key ''Authorization'' \<noteq> canonical_key ''X-API-Key''"
    "canonical_key ''X-API-Key'' \<noteq> canonical_key ''Content-Type''" by code_simp+
  then show "hdr_get (agent_headers cfg) ''Authorization'' = ''''" "hdr_get (agent_headers cfg) ''X-API-Key'' = ag_api_key cfg"
    by (simp_all add: agent_headers_def hdr_get_set) (simp add: hdr_get_def)
qed

lemma no_connection:
  "hdr_get (remove_hop_headers (hdr_set (identify p (agent_headers cfg)) ''X-Request-ID'' rid)) TenantHeader = pr_tenant_id p"
proof -
  let ?h = "hdr_set (identify p (agent_headers cfg)) ''X-Request-ID'' rid"
  have keys: "canonical_key ''X-Request-ID'' \<noteq> ''Connection''" "canonical_key TenantHeader \<noteq> ''Connection''"
    "canonical_key UserHeader \<noteq> ''Connection''" "canonical_key RoleHeader \<noteq> ''Connection''"
    "canonical_key ''Content-Type'' \<noteq> ''Connection''" "canonical_key ''X-API-Key'' \<noteq> ''Connection''"
    "canonical_key TenantHeader \<noteq> canonical_key ''X-Request-ID''"
    by code_simp+
  have "map_of ?h ''Connection'' = None"
    using keys by (simp add: hdr_set_def identify_def Let_def agent_headers_def map_of_hdr_del)
  then have "connection_named ?h = []" by (simp add: connection_named_def)
  moreover have "\<forall>k\<in>set hop_headers. canonical_key TenantHeader \<noteq> canonical_key k" by code_simp
  ultimately have "hdr_get (remove_hop_headers ?h) TenantHeader = hdr_get ?h TenantHeader"
    by (auto simp: remove_hop_headers_def hdr_get_fold_del)
  also have "\<dots> = pr_tenant_id p" using keys(7) by (simp add: hdr_get_set hdr_get_identify)
  finally show ?thesis .
qed

lemma rate_step:
  assumes "rate_room t (Suc m) s"
  shows "\<exists>s' c. incr_script (rate_key t w) ttl n s = (s', c) \<and> c \<le> 120 \<and> rate_room t m s'"
proof -
  from assms have room: "(case s (rate_key t w) of None \<Rightarrow> 0 | Some (c, e) \<Rightarrow> max c 0) + int (Suc m) \<le> 120" for w
    unfolding rate_room_def by blast
  have other: "rate_key t w' = rate_key t w \<longleftrightarrow> w' = w" for w' using rate_key_inj by blast
  obtain s' c where run: "incr_script (rate_key t w) ttl n s = (s', c)" by fastforce
  have "c \<le> 120" using run room [of w] by (auto simp: incr_script_def split: option.splits if_splits)
  moreover have "(case s' (rate_key t v) of None \<Rightarrow> 0 | Some (c, e) \<Rightarrow> max c 0) + int m \<le> 120" for v
    using run room [of v] by (auto simp: incr_script_def other split: option.splits if_splits)
  ultimately show ?thesis using run by (auto simp: rate_room_def)
qed

text \<open>The paths the agent builds reach the worker routes, for an identifier of plain characters.\<close>

lemma split_on_none: "c \<notin> set xs \<Longrightarrow> split_on c xs = [xs]"
  by (induction xs) auto

lemma split_on_first: "c \<notin> set xs \<Longrightarrow> split_on c (xs @ c # ys) = xs # split_on c ys"
  by (induction xs) auto

definition plain_id :: "string \<Rightarrow> bool" where
  "plain_id i \<longleftrightarrow> i \<noteq> [] \<and> (\<forall>c\<in>set i. path_char c)"

lemma plain_id_facts:
  assumes "plain_id i"
  shows "path_escape i = i" "CHR ''/'' \<notin> set i" "i \<noteq> []"
proof -
  from assms show "i \<noteq> []" by (simp add: plain_id_def)
  have "concat (map (\<lambda>c. if path_char c then [c] else f c) xs) = xs" if "\<forall>c\<in>set xs. path_char c" for f xs
    using that by (induction xs) auto
  with assms show e: "path_escape i = i" by (simp add: path_escape_def plain_id_def)
  show "CHR ''/'' \<notin> set i" using path_escape_no_slash [of i] by (simp add: e)
qed

lemma v1_worker_routes:
  "first_route v1_routes ''POST'' ''/v1/worker/poll'' = Some (RouteProxy OperationsService ''/worker/poll'', [])"
  "plain_id i \<Longrightarrow> first_route v1_routes ''POST'' (''/v1/worker/operations/'' @ i @ ''/heartbeat'') =
     Some (RouteParam OperationsService ''/worker/operations/:id/heartbeat'', [(''id'', i)])"
  "plain_id i \<Longrightarrow> first_route v1_routes ''POST'' (''/v1/worker/operations/'' @ i @ ''/complete'') =
     Some (RouteParam OperationsService ''/worker/operations/:id/complete'', [(''id'', i)])"
  "plain_id i \<Longrightarrow> first_route v1_routes ''POST'' (''/v1/worker/operations/'' @ i @ ''/fail'') =
     Some (RouteParam OperationsService ''/worker/operations/:id/fail'', [(''id'', i)])"
  by (simp_all add: v1_routes_def path_match_def split_on_first plain_id_facts)

lemma param_paths:
  assumes "plain_id i"
  shows "param_path ''/worker/operations/:id/heartbeat'' [(''id'', i)] = ''/worker/operations/'' @ i @ ''/heartbeat''"
    "param_path ''/worker/operations/:id/complete'' [(''id'', i)] = ''/worker/operations/'' @ i @ ''/complete''"
    "param_path ''/worker/operations/:id/fail'' [(''id'', i)] = ''/worker/operations/'' @ i @ ''/fail''"
  by (simp_all add: param_path_def plain_id_facts [OF assms])

lemma worker_requests:
  "worker_request site m (PollInput w) ''/worker/poll'' =
     Some (OpPoll (mo_now m) (Some w) CursorNil (\<lambda>p. si_stream site) (\<lambda>k. no_faults))"
  "plain_id i \<Longrightarrow> worker_request site m (HeartbeatInput w) (''/worker/operations/'' @ i @ ''/heartbeat'') =
     Some (OpWorkerHeartbeat (mo_now m) i (Some w) no_faults)"
  "plain_id i \<Longrightarrow> worker_request site m (CompleteBody x) (''/worker/operations/'' @ i @ ''/complete'') =
     Some (OpWorkerComplete (mo_now m) (mo_event_id m) i (Some x) no_faults)"
  "plain_id i \<Longrightarrow> worker_request site m (FailBody y) (''/worker/operations/'' @ i @ ''/fail'') =
     Some (OpWorkerFail (mo_now m) (mo_event_id m) i (Some y) no_faults)"
  by (simp_all add: worker_request_def path_match_def split_on_first plain_id_facts)

lemma verify_live:
  assumes "key_live (ae_sha acc) raw t d" "hdr_get h ''Authorization'' = ''''" "hdr_get h ''X-API-Key'' = raw"
    and "secret = ae_internal_secret acc" "secret \<noteq> ''''"
  obtains ks where "access_serve acc (AcVerify n no_faults) (verify_request secret h) d = (d\<lparr>api_keys := ks\<rparr>, [],
      JSON 200 (PrincipalBody \<lparr>pr_tenant_id = t, pr_user_id = '''', pr_role = ''service''\<rparr>))"
    "key_live (ae_sha acc) raw t (d\<lparr>api_keys := ks\<rparr>)"
proof -
  let ?live = "key_row (ae_sha acc) raw" and ?touch = "\<lambda>k. k\<lparr>ak_last_used_at := Some n\<rparr>"
  let ?ks = "update_where ?live ?touch (api_keys d)"
  from assms(1) obtain k where k: "trim_space raw \<noteq> []" "find_row ?live (api_keys d) = Some k" "ak_tenant_id k = t"
    unfolding key_live_def by blast
  have get: "hdr_get (verify_request secret h) ''X-Internal-Secret'' = secret"
    "hdr_get (verify_request secret h) ''Authorization'' = ''''"
    "hdr_get (verify_request secret h) ''X-API-Key'' = raw"
  proof -
    have "canonical_key ''X-Internal-Secret'' \<noteq> canonical_key ''Authorization''"
      "canonical_key ''X-Internal-Secret'' \<noteq> canonical_key ''X-API-Key''"
      "canonical_key ''Authorization'' \<noteq> canonical_key ''X-API-Key''" by code_simp+
    then show "hdr_get (verify_request secret h) ''X-Internal-Secret'' = secret"
      "hdr_get (verify_request secret h) ''Authorization'' = ''''"
      "hdr_get (verify_request secret h) ''X-API-Key'' = raw"
      using assms(2,3) by (simp_all add: verify_request_def hdr_get_set)
  qed
  have b: "bearer '''' = ''''" by code_simp
  have live: "(\<lambda>k. ak_key_hash k = key_hash (ae_sha acc) (trim_space raw) \<and> ak_revoked_at k = None) = ?live"
    by (simp add: key_row_def fun_eq_iff)
  have run: "access_serve acc (AcVerify n no_faults) (verify_request secret h) d = (d\<lparr>api_keys := ?ks\<rparr>, [],
      JSON 200 (PrincipalBody \<lparr>pr_tenant_id = t, pr_user_id = '''', pr_role = ''service''\<rparr>))"
    using assms(5) k get unfolding assms(4) by (simp add: RequireInternal_def verify_def b live Let_def)
  have "find_row ?live ?ks = map_option (\<lambda>r. if ?live r then ?touch r else r) (find_row ?live (api_keys d))"
  proof -
    have "find_row ?live (update_where ?live ?touch xs) =
        map_option (\<lambda>r. if ?live r then ?touch r else r) (find_row ?live xs)" for xs
      by (induction xs) (auto simp: key_row_def)
    then show ?thesis .
  qed
  then have "key_live (ae_sha acc) raw t (d\<lparr>api_keys := ?ks\<rparr>)"
    using k find_row_Some [OF k(2)] by (auto simp: key_live_def)
  with run show ?thesis by (rule that)
qed

text \<open>The assumptions about a site that stay the same throughout.\<close>

definition site_ok :: "site \<Rightarrow> agent_cfg \<Rightarrow> bool" where
  "site_ok site cfg \<longleftrightarrow> si_base site = ag_api_url cfg \<and>
     gw_internal_secret (si_gateway site) = ae_internal_secret (si_access site) \<and>
     ae_internal_secret (si_access site) \<noteq> []"

definition route_path :: "route \<Rightarrow> (string \<times> string) list \<Rightarrow> string" where
  "route_path r params = (case r of RouteParam svc p \<Rightarrow> param_path p params | _ \<Rightarrow> upstream_pattern r)"

lemma request_served:
  assumes "site_ok site cfg" "key_live (ae_sha (si_access site)) (ag_api_key cfg) t (ss_db s)"
    and "rate_room t (Suc m) (ss_counters s)"
    and "first_route v1_routes ''POST'' path = Some (r, params)"
    and "r \<in> {RouteProxy OperationsService p, RouteParam OperationsService p}"
    and "worker_request site mo inp (route_path r params) = Some q"
  obtains ks k h where "hdr_get h TenantHeader = t"
    "site_serve site mo (api_call cfg ''POST'' path inp) s =
      (let (d, ws, reply) = op_public q h ((ss_db s)\<lparr>api_keys := ks\<rparr>)
       in (\<lparr>ss_db = d, ss_counters = k\<rparr>, ws, Some (reply_status reply, reply_envelope reply)))"
    "key_live (ae_sha (si_access site)) (ag_api_key cfg) t ((ss_db s)\<lparr>api_keys := ks\<rparr>)" "rate_room t m k"
proof -
  let ?h = "agent_headers cfg" and ?gw = "si_gateway site"
  let ?p = "\<lparr>pr_tenant_id = t, pr_user_id = '''', pr_role = ''service''\<rparr>"
  have sec: "gw_internal_secret ?gw = ae_internal_secret (si_access site)" "gw_internal_secret ?gw \<noteq> ''''"
    and base: "si_base site = ag_api_url cfg" using assms(1) by (simp_all add: site_ok_def)
  obtain ks where ver: "access_serve (si_access site) (AcVerify (mo_now mo) no_faults)
      (verify_request (gw_internal_secret ?gw) ?h) (ss_db s) = ((ss_db s)\<lparr>api_keys := ks\<rparr>, [], JSON 200 (PrincipalBody ?p))"
    and live: "key_live (ae_sha (si_access site)) (ag_api_key cfg) t ((ss_db s)\<lparr>api_keys := ks\<rparr>)"
    by (rule verify_live [OF assms(2) agent_headers_get sec])
  let ?d = "(ss_db s)\<lparr>api_keys := ks\<rparr>"
  let ?env = "site_env site mo inp (AuthReply 200 (Some ?p)) ?d"
  let ?h' = "remove_hop_headers (hdr_set (identify ?p ?h) ''X-Request-ID'' (mo_request_id mo))"
  obtain k c where inc: "incr_script (rate_key t (rate_window (mo_now mo))) 70 (mo_now mo) (ss_counters s) = (k, c)"
    and c: "c \<le> 120" and room: "rate_room t m k"
    using rate_step [OF assms(3)] by blast
  have "serve_v1 ?gw ?env params r ?h (ss_counters s) =
      prepend_calls [CallVerify (verify_request (gw_internal_secret ?gw) ?h)]
        (rateLimit (mo_now mo) False (route_handler ?gw ?env params r) (identify ?p ?h) (ss_counters s))"
    by (simp add: serve_v1_def authenticate_def site_env_def Let_def)
  also have "\<dots> = prepend_calls [CallVerify (verify_request (gw_internal_secret ?gw) ?h)]
      (prepend_calls [RedisIncr (rate_key t (rate_window (mo_now mo))) 70, RespHeader ''X-RateLimit-Limit'' (itoa 120),
         RespHeader ''X-RateLimit-Remaining'' (itoa (max (120 - c) 0))]
       (route_handler ?gw ?env params r (identify ?p ?h) k))"
    using c by (simp add: rateLimit_def hdr_get_identify inc rate_cap_def)
  also have "route_handler ?gw ?env params r (identify ?p ?h) k =
      (k, [Forward OperationsService (route_path r params) ?h'], JSON (reply_status (snd (snd (op_public q ?h' ?d)))) (Proxied [] ''''))"
    using assms(5,6) by (auto simp: proxyPath_def site_env_def route_path_def stripUpstreamCORSHeaders_def Let_def)
  finally obtain cs where gw: "serve_v1 ?gw ?env params r ?h (ss_counters s) = (k, cs,
      JSON (reply_status (snd (snd (op_public q ?h' ?d)))) (Proxied [] ''''))"
    and fwd: "forwarded cs = Some (route_path r params, ?h')" by (simp add: prepend_calls_def)
  show ?thesis
  proof (rule that [OF _ _ live room])
    show "hdr_get ?h' TenantHeader = t" using no_connection [of ?p] by simp
    show "site_serve site mo (api_call cfg ''POST'' path inp) s =
      (let (d, ws, reply) = op_public q ?h' ?d
       in (\<lparr>ss_db = d, ss_counters = k\<rparr>, ws, Some (reply_status reply, reply_envelope reply)))"
      using assms(4,6) by (simp add: api_call_def base ver gw fwd Let_def split_def del: access_serve.simps)
  qed
qed

section \<open>A turn of the agent\<close>

abbreviation site_run ::
    "site \<Rightarrow> (nat \<Rightarrow> moment) \<Rightarrow> agent_call list \<Rightarrow> site_state \<Rightarrow>
     site_state \<times> call list \<times> (agent_call \<times> (int \<times> QueueEnvelope option) option) list" where
  "site_run site \<equiv> run_calls (site_serve site)"

definition all_accepted :: "(agent_call \<times> (int \<times> QueueEnvelope option) option) list \<Rightarrow> bool" where
  "all_accepted log \<longleftrightarrow> (\<forall>(c, y)\<in>set log. case y of None \<Rightarrow> True | Some (code, b) \<Rightarrow> is_2xx code)"

lemma all_accepted_simps [simp]:
  "all_accepted []" "all_accepted (xs @ ys) \<longleftrightarrow> all_accepted xs \<and> all_accepted ys"
  "all_accepted ((c, None) # xs) \<longleftrightarrow> all_accepted xs"
  "all_accepted ((c, Some (code, b)) # xs) \<longleftrightarrow> is_2xx code \<and> all_accepted xs"
  by (auto simp: all_accepted_def)

lemma is_2xx_codes [simp]: "is_2xx 200" "is_2xx 204"
  by (simp_all add: is_2xx_def)

text \<open>
  What holds between the requests of a turn: the agent holds the lease of row \<open>q\<close>, its key
  is live, and \<open>m\<close> more requests fit into the rate.
\<close>

definition working :: "site \<Rightarrow> agent_cfg \<Rightarrow> op_row \<Rightarrow> nat \<Rightarrow> site_state \<Rightarrow> bool" where
  "working site cfg q m s \<longleftrightarrow> leased (ag_id cfg) q (ss_db s) \<and>
     key_live (ae_sha (si_access site)) (ag_api_key cfg) (op_tenant q) (ss_db s) \<and>
     rate_room (op_tenant q) m (ss_counters s)"

lemma keys_irrelevant [simp]:
  "ops_inv (d\<lparr>api_keys := ks\<rparr>) \<longleftrightarrow> ops_inv d" "lookup_op (d\<lparr>api_keys := ks\<rparr>) i = lookup_op d i"
  "leased w r (d\<lparr>api_keys := ks\<rparr>) \<longleftrightarrow> leased w r d"
  "running_count t (d\<lparr>api_keys := ks\<rparr>) = running_count t d"
  by (simp_all add: ops_inv_def lookup_op_def leased_def running_count_def)

lemma key_live_keys: "api_keys d' = api_keys d \<Longrightarrow> key_live sha raw t d' \<longleftrightarrow> key_live sha raw t d"
  by (simp add: key_live_def)

lemma beat_served:
  assumes "site_ok site cfg" "working site cfg q (Suc m) s" "plain_id (op_id q)" "op_tenant q \<noteq> ''''"
  obtains s' where "site_serve site mo (api_call cfg ''POST'' (''/v1/worker/operations/'' @ op_id q @ ''/heartbeat'')
      (HeartbeatInput (ag_id cfg))) s = (s', [], Some (204, None))"
    "working site cfg q m s'" "event_outbox (ss_db s') = event_outbox (ss_db s)"
proof -
  have w: "leased (ag_id cfg) q (ss_db s)" "key_live (ae_sha (si_access site)) (ag_api_key cfg) (op_tenant q) (ss_db s)"
    "rate_room (op_tenant q) (Suc m) (ss_counters s)" using assms(2) by (simp_all add: working_def)
  let ?r = "RouteParam OperationsService ''/worker/operations/:id/heartbeat''"
  have rt: "?r \<in> {RouteProxy OperationsService p, RouteParam OperationsService p} \<longleftrightarrow>
      p = ''/worker/operations/:id/heartbeat''" for p by auto
  have q: "worker_request site mo (HeartbeatInput (ag_id cfg)) (route_path ?r [(''id'', op_id q)]) =
      Some (OpWorkerHeartbeat (mo_now mo) (op_id q) (Some (ag_id cfg)) no_faults)"
    using worker_requests(2) [OF assms(3)] by (simp add: route_path_def param_paths [OF assms(3)])
  obtain ks k h where h: "hdr_get h TenantHeader = op_tenant q"
    and run: "site_serve site mo (api_call cfg ''POST'' (''/v1/worker/operations/'' @ op_id q @ ''/heartbeat'')
      (HeartbeatInput (ag_id cfg))) s =
      (let (d, ws, reply) = op_public (OpWorkerHeartbeat (mo_now mo) (op_id q) (Some (ag_id cfg)) no_faults) h ((ss_db s)\<lparr>api_keys := ks\<rparr>)
       in (\<lparr>ss_db = d, ss_counters = k\<rparr>, ws, Some (reply_status reply, reply_envelope reply)))"
    and live: "key_live (ae_sha (si_access site)) (ag_api_key cfg) (op_tenant q) ((ss_db s)\<lparr>api_keys := ks\<rparr>)"
    and room: "rate_room (op_tenant q) m k"
    by (rule request_served [OF assms(1) w(2,3) v1_worker_routes(2) [OF assms(3)] rt [THEN iffD2, OF refl] q])
  have l: "leased (ag_id cfg) q ((ss_db s)\<lparr>api_keys := ks\<rparr>)" using w(1) by simp
  obtain d where d: "workerHeartbeat (mo_now mo) (op_id q) (Some (ag_id cfg)) no_faults h ((ss_db s)\<lparr>api_keys := ks\<rparr>) = (d, [], NoContent 204)"
    "leased (ag_id cfg) q d" "event_outbox d = event_outbox ((ss_db s)\<lparr>api_keys := ks\<rparr>)"
    "api_keys d = api_keys ((ss_db s)\<lparr>api_keys := ks\<rparr>)"
    by (rule heartbeat_leased [OF l h [symmetric]])
  show ?thesis
  proof (rule that)
    show "site_serve site mo (api_call cfg ''POST'' (''/v1/worker/operations/'' @ op_id q @ ''/heartbeat'')
      (HeartbeatInput (ag_id cfg))) s = (\<lparr>ss_db = d, ss_counters = k\<rparr>, [], Some (204, None))"
      unfolding run using h assms(4) by (simp add: RequireTenant_def d(1))
    show "working site cfg q m \<lparr>ss_db = d, ss_counters = k\<rparr>"
      using d(2) live room key_live_keys [OF d(4)] by (simp add: working_def)
    show "event_outbox (ss_db \<lparr>ss_db = d, ss_counters = k\<rparr>) = event_outbox (ss_db s)" using d(3) by simp
  qed
qed

fun agent_silent :: "agent_call \<Rightarrow> bool" where
  "agent_silent (AgentTarget u h p) = True"
| "agent_silent (AgentAI m p) = True"
| "agent_silent _ = False"

definition admitted :: "site \<Rightarrow> agent_cfg \<Rightarrow> op_row \<Rightarrow> nat \<Rightarrow> site_state \<Rightarrow> bool" where
  "admitted site cfg q n s \<longleftrightarrow> site_ok site cfg \<and> plain_id (op_id q) \<and> op_tenant q \<noteq> '''' \<and> working site cfg q n s"

interpretation private_session: working_session "site_serve site" "api_call cfg ''POST''
    (''/v1/worker/operations/'' @ op_id q @ ''/heartbeat'') (HeartbeatInput (ag_id cfg))" "(204, None)"
  "admitted site cfg q" "\<lambda>s s'. event_outbox (ss_db s') = event_outbox (ss_db s)" agent_silent for site cfg q
proof
  fix n s m
  assume "admitted site cfg q (Suc n) s"
  then show "\<exists>s'. site_serve site m (api_call cfg ''POST'' (''/v1/worker/operations/'' @ op_id q @ ''/heartbeat'')
        (HeartbeatInput (ag_id cfg))) s = (s', [], Some (204, None)) \<and> admitted site cfg q n s' \<and>
      event_outbox (ss_db s') = event_outbox (ss_db s)"
    unfolding admitted_def using beat_served by metis
next
  show "agent_silent c \<Longrightarrow> site_serve site m c s = (s, [], None)" for c m s by (cases c) simp_all
qed simp_all

lemma agent_before_report:
  assumes "site_ok site cfg" "working site cfg q (k + m) s" "plain_id (op_id q)" "op_tenant q \<noteq> ''''"
    and "\<And>c. c \<in> set ai \<Longrightarrow> \<exists>m p. c = AgentAI m p"
  obtains s' log where
    "site_run site clk (AgentTarget u h p # agent_heartbeats cfg (op_id q) k @ ai) s = (s', [], log)"
    "all_accepted log" "working site cfg q m s'" "event_outbox (ss_db s') = event_outbox (ss_db s)"
proof (rule private_session.session_before_report [where site = site and cfg = cfg and q = q and k = k and
    n = m and s = s and t = "AgentTarget u h p" and cs = ai and clk = clk])
  show "admitted site cfg q (k + m) s" using assms(1-4) by (simp add: admitted_def)
  show "agent_silent c" if "c \<in> set ai" for c using assms(5) [OF that] by auto
qed (auto intro!: that simp: agent_heartbeats_def admitted_def all_accepted_def is_2xx_def simp del: run_calls.simps)

text \<open>The two reports.\<close>

lemma completion_served:
  assumes "site_ok site cfg" "working site cfg q (Suc m) s" "plain_id (op_id q)" "op_tenant q \<noteq> ''''"
    and "co_worker_id inp = ag_id cfg" "mo_event_id mo \<notin> eo_id ` set (event_outbox (ss_db s))"
    and "event_key (op_id q) ''operation.succeeded'' (attempt q) \<notin> eo_event_key ` set (event_outbox (ss_db s))"
  obtains s' x e where "site_serve site mo (api_call cfg ''POST'' (''/v1/worker/operations/'' @ op_id q @ ''/complete'')
      (CompleteBody inp)) s = (s', [], Some (204, None))"
    "lookup_op (ss_db s') (op_id q) = Some x" "status x = Succeeded" "result x = json_column (co_result inp)"
    "attempt x = attempt q" "lease_owner x = None" "identity x = identity q"
    "event_outbox (ss_db s') = event_outbox (ss_db s) @ [e]"
    "eo_event_key e = event_key (op_id q) ''operation.succeeded'' (attempt q)"
    "eo_tenant_id e = op_tenant q" "eo_status e = ObPending" "eo_units e = 1"
proof -
  have w: "leased (ag_id cfg) q (ss_db s)" "key_live (ae_sha (si_access site)) (ag_api_key cfg) (op_tenant q) (ss_db s)"
    "rate_room (op_tenant q) (Suc m) (ss_counters s)" using assms(2) by (simp_all add: working_def)
  let ?q = "OpWorkerComplete (mo_now mo) (mo_event_id mo) (op_id q) (Some inp) no_faults"
  let ?r = "RouteParam OperationsService ''/worker/operations/:id/complete''"
  have rt: "?r \<in> {RouteProxy OperationsService p, RouteParam OperationsService p} \<longleftrightarrow>
      p = ''/worker/operations/:id/complete''" for p by auto
  have q: "worker_request site mo (CompleteBody inp) (route_path ?r [(''id'', op_id q)]) = Some ?q"
    using worker_requests(3) [OF assms(3)] by (simp add: route_path_def param_paths [OF assms(3)])
  obtain ks k h where h: "hdr_get h TenantHeader = op_tenant q"
    and run: "site_serve site mo (api_call cfg ''POST'' (''/v1/worker/operations/'' @ op_id q @ ''/complete'')
      (CompleteBody inp)) s = (let (d, ws, reply) = op_public ?q h ((ss_db s)\<lparr>api_keys := ks\<rparr>)
       in (\<lparr>ss_db = d, ss_counters = k\<rparr>, ws, Some (reply_status reply, reply_envelope reply)))"
    by (rule request_served [OF assms(1) w(2,3) v1_worker_routes(3) [OF assms(3)] rt [THEN iffD2, OF refl] q])
  let ?d = "(ss_db s)\<lparr>api_keys := ks\<rparr>"
  have l: "leased (ag_id cfg) q ?d" using w(1) by simp
  have fresh: "mo_event_id mo \<notin> eo_id ` set (event_outbox ?d)"
    "event_key (op_id q) ''operation.succeeded'' (attempt q) \<notin> eo_event_key ` set (event_outbox ?d)"
    using assms(6,7) by simp_all
  obtain d x e where d: "workerComplete (mo_now mo) (mo_event_id mo) (op_id q) (Some inp) no_faults h ?d = (d, [], NoContent 204)"
    and x: "lookup_op d (op_id q) = Some x" "status x = Succeeded" "result x = json_column (co_result inp)"
    "attempt x = attempt q" "lease_owner x = None" "identity x = identity q"
    "event_outbox d = event_outbox ?d @ [e]" "eo_event_key e = event_key (op_id q) ''operation.succeeded'' (attempt q)"
    "eo_tenant_id e = op_tenant q" "eo_status e = ObPending" "eo_units e = 1"
    by (rule complete_leased [OF l h [symmetric] assms(5) fresh])
  have "site_serve site mo (api_call cfg ''POST'' (''/v1/worker/operations/'' @ op_id q @ ''/complete'')
      (CompleteBody inp)) s = (\<lparr>ss_db = d, ss_counters = k\<rparr>, [], Some (204, None))"
    unfolding run using h assms(4) by (simp add: RequireTenant_def d)
  then show ?thesis by (rule that [of _ x e]) (use x in simp_all)
qed

lemma failure_served:
  assumes "site_ok site cfg" "working site cfg q (Suc m) s" "plain_id (op_id q)" "op_tenant q \<noteq> ''''"
    and "fi_worker_id inp = ag_id cfg" "mo_event_id mo \<notin> eo_id ` set (event_outbox (ss_db s))"
    and "\<forall>ty. event_key (op_id q) ty (attempt q) \<notin> eo_event_key ` set (event_outbox (ss_db s))"
  obtains s' x e where "site_serve site mo (api_call cfg ''POST'' (''/v1/worker/operations/'' @ op_id q @ ''/fail'')
      (FailBody inp)) s = (s', if status x = Retrying then [retry_call (mo_now mo) (scan_envelope q)] else [], Some (200, None))"
    "lookup_op (ss_db s') (op_id q) = Some x" "status x = failure_status (fi_retryable inp) (attempt q) (max_attempts q)"
    "error_code x = Some (fi_error_code inp)" "attempt x = attempt q" "lease_owner x = None" "identity x = identity q"
    "event_outbox (ss_db s') = event_outbox (ss_db s) @ [e]" "eo_event_key e = event_key (op_id q)
       (if status x = DeadLettered then ''operation.dead_lettered'' else ''operation.failed'') (attempt q)"
    "eo_tenant_id e = op_tenant q" "eo_status e = ObPending" "eo_units e = 1"
proof -
  have w: "leased (ag_id cfg) q (ss_db s)" "key_live (ae_sha (si_access site)) (ag_api_key cfg) (op_tenant q) (ss_db s)"
    "rate_room (op_tenant q) (Suc m) (ss_counters s)" using assms(2) by (simp_all add: working_def)
  let ?q = "OpWorkerFail (mo_now mo) (mo_event_id mo) (op_id q) (Some inp) no_faults"
  let ?r = "RouteParam OperationsService ''/worker/operations/:id/fail''"
  have rt: "?r \<in> {RouteProxy OperationsService p, RouteParam OperationsService p} \<longleftrightarrow>
      p = ''/worker/operations/:id/fail''" for p by auto
  have q: "worker_request site mo (FailBody inp) (route_path ?r [(''id'', op_id q)]) = Some ?q"
    using worker_requests(4) [OF assms(3)] by (simp add: route_path_def param_paths [OF assms(3)])
  obtain ks k h where h: "hdr_get h TenantHeader = op_tenant q"
    and run: "site_serve site mo (api_call cfg ''POST'' (''/v1/worker/operations/'' @ op_id q @ ''/fail'')
      (FailBody inp)) s = (let (d, ws, reply) = op_public ?q h ((ss_db s)\<lparr>api_keys := ks\<rparr>)
       in (\<lparr>ss_db = d, ss_counters = k\<rparr>, ws, Some (reply_status reply, reply_envelope reply)))"
    by (rule request_served [OF assms(1) w(2,3) v1_worker_routes(4) [OF assms(3)] rt [THEN iffD2, OF refl] q])
  let ?d = "(ss_db s)\<lparr>api_keys := ks\<rparr>"
  have l: "leased (ag_id cfg) q ?d" using w(1) by simp
  have fresh: "mo_event_id mo \<notin> eo_id ` set (event_outbox ?d)"
    "\<forall>ty. event_key (op_id q) ty (attempt q) \<notin> eo_event_key ` set (event_outbox ?d)"
    using assms(6,7) by simp_all
  obtain d x e where d: "workerFail (mo_now mo) (mo_event_id mo) (op_id q) (Some inp) no_faults h ?d =
      (d, if status x = Retrying then [retry_call (mo_now mo) (scan_envelope q)] else [],
       JSON 200 (Fields [(''status'', status_string (status x))]))"
    and x: "lookup_op d (op_id q) = Some x" "status x = failure_status (fi_retryable inp) (attempt q) (max_attempts q)"
    "error_code x = Some (fi_error_code inp)" "attempt x = attempt q" "lease_owner x = None" "identity x = identity q"
    "event_outbox d = event_outbox ?d @ [e]" "eo_event_key e = event_key (op_id q)
       (if status x = DeadLettered then ''operation.dead_lettered'' else ''operation.failed'') (attempt q)"
    "eo_tenant_id e = op_tenant q" "eo_status e = ObPending" "eo_units e = 1"
    by (rule fail_leased [OF l h [symmetric] assms(5) fresh])
  have "site_serve site mo (api_call cfg ''POST'' (''/v1/worker/operations/'' @ op_id q @ ''/fail'')
      (FailBody inp)) s = (\<lparr>ss_db = d, ss_counters = k\<rparr>,
       if status x = Retrying then [retry_call (mo_now mo) (scan_envelope q)] else [], Some (200, None))"
    unfolding run using h assms(4) by (simp add: RequireTenant_def d)
  then show ?thesis by (rule that [of _ x e]) (use x in simp_all)
qed

lemma poll_served:
  assumes "site_ok site cfg" "key_live (ae_sha (si_access site)) (ag_api_key cfg) (op_tenant r) (ss_db s)"
    and "rate_room (op_tenant r) (Suc m) (ss_counters s)"
    and "ops_inv (ss_db s)" "lookup_op (ss_db s) i = Some r" "status r \<in> {Queued, Retrying}"
    and "find_row (\<lambda>x. tn_id x = op_tenant r) (tenants (ss_db s)) = Some tn"
    and "int (running_count (op_tenant r) (ss_db s)) < tn_concurrency_limit tn"
    and "op_tenant r \<noteq> ''''" "ag_id cfg \<noteq> ''''" "si_stream site = XReadEntries [(sid, Envelope e)]"
    and "e\<lparr>env_not_before := None\<rparr> = scan_envelope r" "execution_mode r = ''PRIVATE''"
  obtains s' where "site_serve site mo (api_call cfg ''POST'' ''/v1/worker/poll'' (PollInput (ag_id cfg))) s =
      (s', [SetCursor (cursor_key (op_tenant r)) sid], Some (200, Some (e\<lparr>env_attempt := attempt r + 1\<rparr>)))"
    "working site cfg (r\<lparr>attempt := attempt r + 1\<rparr>) m s'" "event_outbox (ss_db s') = event_outbox (ss_db s)"
proof -
  let ?q = "OpPoll (mo_now mo) (Some (ag_id cfg)) CursorNil (\<lambda>p. si_stream site) (\<lambda>k. no_faults)"
  have rt: "RouteProxy OperationsService ''/worker/poll'' \<in> {RouteProxy OperationsService p, RouteParam OperationsService p} \<longleftrightarrow>
      p = ''/worker/poll''" for p by auto
  have q: "worker_request site mo (PollInput (ag_id cfg)) (route_path (RouteProxy OperationsService ''/worker/poll'') []) = Some ?q"
    using worker_requests(1) [of site mo "ag_id cfg"] by (simp add: route_path_def)
  obtain ks k h where h: "hdr_get h TenantHeader = op_tenant r"
    and run: "site_serve site mo (api_call cfg ''POST'' ''/v1/worker/poll'' (PollInput (ag_id cfg))) s =
      (let (d, ws, reply) = op_public ?q h ((ss_db s)\<lparr>api_keys := ks\<rparr>)
       in (\<lparr>ss_db = d, ss_counters = k\<rparr>, ws, Some (reply_status reply, reply_envelope reply)))"
    and live: "key_live (ae_sha (si_access site)) (ag_api_key cfg) (op_tenant r) ((ss_db s)\<lparr>api_keys := ks\<rparr>)"
    and room: "rate_room (op_tenant r) m k"
    by (rule request_served [OF assms(1-3) v1_worker_routes(1) rt [THEN iffD2, OF refl] q])
  let ?d = "(ss_db s)\<lparr>api_keys := ks\<rparr>"
  have pre: "ops_inv ?d" "lookup_op ?d i = Some r" "find_row (\<lambda>x. tn_id x = op_tenant r) (tenants ?d) = Some tn"
    "int (running_count (op_tenant r) ?d) < tn_concurrency_limit tn" using assms(4,5,7,8) by simp_all
  obtain d where d: "workerPoll (mo_now mo) (Some (ag_id cfg)) CursorNil (\<lambda>p. XReadEntries [(sid, Envelope e)]) (\<lambda>k. no_faults) h ?d =
      (d, [SetCursor (cursor_key (op_tenant r)) sid], JSON 200 (EnvelopeBody (e\<lparr>env_attempt := attempt r + 1\<rparr>)))"
    and l: "leased (ag_id cfg) (r\<lparr>attempt := attempt r + 1\<rparr>) d"
    and box: "event_outbox d = event_outbox ?d" and keys: "api_keys d = api_keys ?d"
    by (rule poll_leased [OF pre(1,2) assms(6) pre(3,4) h assms(10,12,13)])
  show ?thesis
  proof (rule that)
    show "site_serve site mo (api_call cfg ''POST'' ''/v1/worker/poll'' (PollInput (ag_id cfg))) s =
      (\<lparr>ss_db = d, ss_counters = k\<rparr>, [SetCursor (cursor_key (op_tenant r)) sid],
       Some (200, Some (e\<lparr>env_attempt := attempt r + 1\<rparr>)))"
      unfolding run using h assms(9) d by (simp add: RequireTenant_def assms(11))
    show "working site cfg (r\<lparr>attempt := attempt r + 1\<rparr>) m \<lparr>ss_db = d, ss_counters = k\<rparr>"
      using l live room key_live_keys [OF keys] by (simp add: working_def)
    show "event_outbox (ss_db \<lparr>ss_db = d, ss_counters = k\<rparr>) = event_outbox (ss_db s)" using box by simp
  qed
qed

text \<open>
  What the answer of the target must leave: \<open>q\<close> is the row with the attempt the poll counted.
\<close>

definition agent_outcome :: "target_reply \<Rightarrow> op_row \<Rightarrow> site_state \<Rightarrow> site_state \<Rightarrow> call list \<Rightarrow> bool" where
  "agent_outcome reply q s s' ws \<longleftrightarrow> (\<exists>x l. lookup_op (ss_db s') (op_id q) = Some x \<and>
     attempt x = attempt q \<and> lease_owner x = None \<and> identity x = identity q \<and>
     event_outbox (ss_db s') = event_outbox (ss_db s) @ [l] \<and> eo_tenant_id l = op_tenant q \<and>
     eo_status l = ObPending \<and> eo_units l = 1 \<and>
     (case agent_execute reply of
        (res, code, None) \<Rightarrow> status x = Succeeded \<and> ws = [] \<and>
          result x = Some (if json_valid res then res else json_object [(''body'', json_quote res)]) \<and>
          eo_event_key l = event_key (op_id q) ''operation.succeeded'' (attempt q)
      | (res, code, Some msg) \<Rightarrow>
          status x = failure_status (retryable_status code) (attempt q) (max_attempts q) \<and>
          error_code x = Some (agent_errorCode code) \<and>
          eo_event_key l = event_key (op_id q) (if status x = DeadLettered
            then ''operation.dead_lettered'' else ''operation.failed'') (attempt q) \<and>
          (\<exists>t. ws = (if status x = Retrying then [retry_call t (scan_envelope x)] else []))))"

text \<open>What the calls of one operation leave, by the target's answer.\<close>

lemma agent_success_served:
  assumes "site_ok site cfg" "working site cfg q (aa_ticks a + 1) s" "plain_id (op_id q)" "op_tenant q \<noteq> ''''"
    and "env_operation_id e = op_id q" "\<forall>k. mo_event_id (clk k) \<notin> eo_id ` set (event_outbox (ss_db s))"
    and "\<forall>ty. event_key (op_id q) ty (attempt q) \<notin> eo_event_key ` set (event_outbox (ss_db s))"
    and ex: "agent_execute (aa_target a) = (res, code, None)"
  shows "\<exists>s' ws log. site_run site clk (agent_process cfg a e) s = (s', ws, log) \<and> all_accepted log \<and>
    agent_outcome (aa_target a) q s s' ws"
proof -
  have w: "working site cfg q (aa_ticks a + Suc 0) s" using assms(2) by simp
  let ?res = "if json_valid res then res else json_object [(''body'', json_quote res)]"
  let ?ai = "fst (agent_explain cfg (aa_ai a) e ?res '''')"
  let ?inp = "\<lparr>co_worker_id = ag_id cfg, co_result = ?res, co_ai_explanation = snd (agent_explain cfg (aa_ai a) e ?res '''')\<rparr>"
  let ?pre = "AgentTarget (agent_target cfg e) (agent_target_headers e) (env_payload e) #
      agent_heartbeats cfg (op_id q) (aa_ticks a) @ ?ai"
  let ?rep = "api_call cfg ''POST'' (''/v1/worker/operations/'' @ op_id q @ ''/complete'') (CompleteBody ?inp)"
  have cs: "agent_process cfg a e = ?pre @ [?rep]"
    using ex assms(5) by (simp add: agent_process_def Let_def split_def)
  obtain s1 log where pre: "site_run site clk ?pre s = (s1, [], log)" "all_accepted log"
    "working site cfg q (Suc 0) s1" "event_outbox (ss_db s1) = event_outbox (ss_db s)"
    by (rule agent_before_report [OF assms(1) w assms(3,4)]) (rule agent_explain_calls)
  have fresh: "mo_event_id (clk (length ?pre)) \<notin> eo_id ` set (event_outbox (ss_db s1))"
    "event_key (op_id q) ''operation.succeeded'' (attempt q) \<notin> eo_event_key ` set (event_outbox (ss_db s1))"
    using assms(6,7) pre(4) by simp_all
  have own: "co_worker_id ?inp = ag_id cfg" by simp
  obtain s2 x l where rep: "site_serve site (clk (length ?pre)) ?rep s1 = (s2, [], Some (204, None))"
    and x: "lookup_op (ss_db s2) (op_id q) = Some x" "status x = Succeeded" "result x = json_column (co_result ?inp)"
    "attempt x = attempt q" "lease_owner x = None" "identity x = identity q"
    "event_outbox (ss_db s2) = event_outbox (ss_db s1) @ [l]"
    "eo_event_key l = event_key (op_id q) ''operation.succeeded'' (attempt q)"
    "eo_tenant_id l = op_tenant q" "eo_status l = ObPending" "eo_units l = 1"
    by (rule completion_served [OF assms(1) pre(3) assms(3,4) own fresh])
  have "\<not> json_valid []" by code_simp
  then have ne: "?res \<noteq> []" by (auto simp: json_object_def)
  have "agent_outcome (aa_target a) q s s2 []"
    unfolding agent_outcome_def ex using x pre(4) ne
    by (intro exI [of _ x] exI [of _ l]) (simp add: json_column_def)
  moreover have "site_run site clk (agent_process cfg a e) s = (s2, [], log @ [(?rep, Some (204, None))])"
    unfolding cs run_calls_append pre(1) using rep by simp
  ultimately show ?thesis using pre(2) by simp
qed

lemma agent_failure_served:
  assumes "site_ok site cfg" "working site cfg q (aa_ticks a + 1) s" "plain_id (op_id q)" "op_tenant q \<noteq> ''''"
    and "env_operation_id e = op_id q" "\<forall>k. mo_event_id (clk k) \<notin> eo_id ` set (event_outbox (ss_db s))"
    and "\<forall>ty. event_key (op_id q) ty (attempt q) \<notin> eo_event_key ` set (event_outbox (ss_db s))"
    and ex: "agent_execute (aa_target a) = (res, code, Some msg)"
  shows "\<exists>s' ws log. site_run site clk (agent_process cfg a e) s = (s', ws, log) \<and> all_accepted log \<and>
    agent_outcome (aa_target a) q s s' ws"
proof -
  have w: "working site cfg q (aa_ticks a + Suc 0) s" using assms(2) by simp
  let ?ai = "fst (agent_explain cfg (aa_ai a) e res msg)"
  let ?inp = "\<lparr>fi_worker_id = ag_id cfg, fi_error_code = agent_errorCode code, fi_error_message = msg,
     fi_ai_explanation = snd (agent_explain cfg (aa_ai a) e res msg), fi_retryable = retryable_status code\<rparr>"
  let ?pre = "AgentTarget (agent_target cfg e) (agent_target_headers e) (env_payload e) #
      agent_heartbeats cfg (op_id q) (aa_ticks a) @ ?ai"
  let ?rep = "api_call cfg ''POST'' (''/v1/worker/operations/'' @ op_id q @ ''/fail'') (FailBody ?inp)"
  have cs: "agent_process cfg a e = ?pre @ [?rep]"
    using ex assms(5) by (simp add: agent_process_def Let_def split_def)
  obtain s1 log where pre: "site_run site clk ?pre s = (s1, [], log)" "all_accepted log"
    "working site cfg q (Suc 0) s1" "event_outbox (ss_db s1) = event_outbox (ss_db s)"
    by (rule agent_before_report [OF assms(1) w assms(3,4)]) (rule agent_explain_calls)
  have fresh: "mo_event_id (clk (length ?pre)) \<notin> eo_id ` set (event_outbox (ss_db s1))"
    "\<forall>ty. event_key (op_id q) ty (attempt q) \<notin> eo_event_key ` set (event_outbox (ss_db s1))"
    using assms(6,7) pre(4) by simp_all
  have own: "fi_worker_id ?inp = ag_id cfg" by simp
  obtain s2 x l where rep: "site_serve site (clk (length ?pre)) ?rep s1 =
      (s2, if status x = Retrying then [retry_call (mo_now (clk (length ?pre))) (scan_envelope q)] else [], Some (200, None))"
    and x: "lookup_op (ss_db s2) (op_id q) = Some x" "status x = failure_status (fi_retryable ?inp) (attempt q) (max_attempts q)"
    "error_code x = Some (fi_error_code ?inp)" "attempt x = attempt q" "lease_owner x = None" "identity x = identity q"
    "event_outbox (ss_db s2) = event_outbox (ss_db s1) @ [l]" "eo_event_key l = event_key (op_id q)
       (if status x = DeadLettered then ''operation.dead_lettered'' else ''operation.failed'') (attempt q)"
    "eo_tenant_id l = op_tenant q" "eo_status l = ObPending" "eo_units l = 1"
    by (rule failure_served [OF assms(1) pre(3) assms(3,4) own fresh])
  let ?ws = "if status x = Retrying then [retry_call (mo_now (clk (length ?pre))) (scan_envelope q)] else []"
  have scan: "scan_envelope q = scan_envelope x" using x(4,6) by (simp add: scan_envelope_def identity_def)
  have "agent_outcome (aa_target a) q s s2 ?ws"
    unfolding agent_outcome_def ex using x pre(4) scan
    by (intro exI [of _ x] exI [of _ l]) auto
  moreover have "site_run site clk (agent_process cfg a e) s = (s2, ?ws, log @ [(?rep, Some (200, None))])"
    unfolding cs run_calls_append pre(1) using rep by simp
  ultimately show ?thesis using pre(2) by simp
qed

lemma agent_process_served:
  assumes "site_ok site cfg" "working site cfg q (aa_ticks a + 1) s" "plain_id (op_id q)" "op_tenant q \<noteq> ''''"
    and "env_operation_id e = op_id q" "\<forall>k. mo_event_id (clk k) \<notin> eo_id ` set (event_outbox (ss_db s))"
    and "\<forall>ty. event_key (op_id q) ty (attempt q) \<notin> eo_event_key ` set (event_outbox (ss_db s))"
  shows "\<exists>s' ws log. site_run site clk (agent_process cfg a e) s = (s', ws, log) \<and> all_accepted log \<and>
    agent_outcome (aa_target a) q s s' ws"
  using agent_success_served [OF assms] agent_failure_served [OF assms]
  by (cases "agent_execute (aa_target a)"; cases "snd (snd (agent_execute (aa_target a)))") auto

section \<open>The outcome agrees with the target's answer\<close>

text \<open>
  C2: A private operation is executed through the whole system. Let a private operation of a
  tenant wait with its envelope on the stream, and let an agent with a live API key of that
  tenant take a turn, within the request rate, acting on what the gateway answers to its
  poll. Then the gateway authenticates and forwards every request and none is refused; the
  poll leases the operation, the target is called once, and whatever it answers, however
  many heartbeats it takes, the operation ends up with one more attempt, no lease, its
  submitted columns untouched, and the status the answer calls for: \<open>SUCCEEDED\<close> with a valid
  JSON result, or \<open>RETRYING\<close> with exactly one retry workflow, or \<open>DEAD_LETTERED\<close>; and the
  outbox has exactly one new event, which names that outcome.
\<close>
theorem private_outcome_agrees:
  assumes "site_ok site cfg" "key_live (ae_sha (si_access site)) (ag_api_key cfg) (op_tenant r) (ss_db s)"
    and "rate_room (op_tenant r) (aa_ticks a + 2) (ss_counters s)"
    and "ops_inv (ss_db s)" "lookup_op (ss_db s) i = Some r" "status r \<in> {Queued, Retrying}"
    and "find_row (\<lambda>x. tn_id x = op_tenant r) (tenants (ss_db s)) = Some tn"
    and "int (running_count (op_tenant r) (ss_db s)) < tn_concurrency_limit tn"
    and "plain_id i" "op_tenant r \<noteq> ''''" "ag_id cfg \<noteq> ''''"
    and "si_stream site = XReadEntries [(sid, Envelope e)]"
    and "e\<lparr>env_not_before := None\<rparr> = scan_envelope r" "execution_mode r = ''PRIVATE''"
    and "\<forall>k. mo_event_id (clk k) \<notin> eo_id ` set (event_outbox (ss_db s))"
    and "\<forall>ty. event_key i ty (attempt r + 1) \<notin> eo_event_key ` set (event_outbox (ss_db s))"
    and "site_run site clk (fst (agent_turn cfg (PollReply code answer) a)) s = (s', ws, log)"
    and "snd (hd log) = Some (code, answer)"
  shows "all_accepted log \<and>
    length (filter agent_is_target (fst (agent_turn cfg (PollReply code answer) a))) = 1 \<and>
    (\<exists>x l. lookup_op (ss_db s') i = Some x \<and> attempt x = attempt r + 1 \<and> lease_owner x = None \<and>
     identity x = identity r \<and> event_outbox (ss_db s') = event_outbox (ss_db s) @ [l] \<and>
     eo_tenant_id l = op_tenant r \<and> eo_status l = ObPending \<and> eo_units l = 1 \<and>
     (case agent_execute (aa_target a) of
        (res, code, None) \<Rightarrow> status x = Succeeded \<and> ws = [SetCursor (cursor_key (op_tenant r)) sid] \<and>
          result x = Some (if json_valid res then res else json_object [(''body'', json_quote res)]) \<and>
          eo_event_key l = event_key i ''operation.succeeded'' (attempt r + 1)
      | (res, code, Some msg) \<Rightarrow>
          status x = failure_status (retryable_status code) (attempt r + 1) (max_attempts r) \<and>
          error_code x = Some (agent_errorCode code) \<and>
          eo_event_key l = event_key i (if status x = DeadLettered
            then ''operation.dead_lettered'' else ''operation.failed'') (attempt r + 1) \<and>
          (\<exists>t. ws = SetCursor (cursor_key (op_tenant r)) sid #
             (if status x = Retrying then [retry_call t (scan_envelope x)] else []))))"
proof -
  let ?q = "r\<lparr>attempt := attempt r + 1\<rparr>" and ?e = "e\<lparr>env_attempt := attempt r + 1\<rparr>"
  let ?poll = "api_call cfg ''POST'' ''/v1/worker/poll'' (PollInput (ag_id cfg))"
  have room: "rate_room (op_tenant r) (Suc (aa_ticks a + 1)) (ss_counters s)" using assms(3) by simp
  obtain s1 where poll: "site_serve site (clk 0) ?poll s =
      (s1, [SetCursor (cursor_key (op_tenant r)) sid], Some (200, Some ?e))"
    and w: "working site cfg ?q (aa_ticks a + 1) s1" and box: "event_outbox (ss_db s1) = event_outbox (ss_db s)"
    by (rule poll_served [OF assms(1,2) room assms(4-8,10-14)])
  have first: "hd (fst (agent_turn cfg (PollReply code answer) a)) = ?poll" "fst (agent_turn cfg (PollReply code answer) a) \<noteq> []"
    by (simp_all add: agent_turn_def Let_def split_def split: option.split)
  then obtain cs where "fst (agent_turn cfg (PollReply code answer) a) = ?poll # cs" by (metis list.collapse)
  with assms(17) poll have "hd log = (?poll, Some (200, Some ?e))" by (auto simp: Let_def split_def)
  with assms(18) have given: "code = 200" "answer = Some ?e" by simp_all
  have turn: "fst (agent_turn cfg (PollReply code answer) a) = ?poll # agent_process cfg a ?e"
    by (simp add: given agent_turn_def poll_result_def)
  have id: "op_id ?q = i" "op_id r = i" using lookup_op_Some [OF assms(5)] by simp_all
  have "env_operation_id (e\<lparr>env_not_before := None\<rparr>) = i" unfolding assms(13) by (simp add: scan_envelope_def id)
  then have env: "env_operation_id ?e = op_id ?q" using id by simp
  have plain: "plain_id (op_id ?q)" "op_tenant ?q \<noteq> ''''" using assms(9,10) id by simp_all
  have fresh: "\<forall>k. mo_event_id (clk (Suc k)) \<notin> eo_id ` set (event_outbox (ss_db s1))"
    "\<forall>ty. event_key (op_id ?q) ty (attempt ?q) \<notin> eo_event_key ` set (event_outbox (ss_db s1))"
    using assms(15,16) box id by simp_all
  obtain s2 ws2 log2 where rest: "site_run site (\<lambda>k. clk (Suc k)) (agent_process cfg a ?e) s1 = (s2, ws2, log2)"
    "all_accepted log2" "agent_outcome (aa_target a) ?q s1 s2 ws2"
    using agent_process_served [OF assms(1) w plain env, of "\<lambda>k. clk (Suc k)", OF fresh] by blast
  have out: "s' = s2" "ws = SetCursor (cursor_key (op_tenant r)) sid # ws2"
    "log = (?poll, Some (200, Some ?e)) # log2"
    using assms(17) poll rest(1) unfolding turn by simp_all
  have tgt: "length (filter agent_is_target (?poll # agent_process cfg a ?e)) = 1"
    using agent_process_report [of cfg a ?e] by (auto simp: api_call_def)
  have "identity x = identity ?q \<longleftrightarrow> identity x = identity r" for x by (simp add: identity_def)
  with rest(2,3) tgt show ?thesis
    unfolding turn out agent_outcome_def id box by (auto split: prod.splits option.splits)
qed

definition sample_site :: site where
  "sample_site = \<lparr>si_base = ''http://g'', si_gateway = sample_gw_cfg, si_access = sample_access_env,
     si_stream = XReadEntries [(StreamId 1 0, Envelope (scan_envelope (sample_op Queued 0 None)))]\<rparr>"

definition sample_site_state :: site_state where
  "sample_site_state = \<lparr>ss_db = (sample_db [sample_op Queued 0 None])\<lparr>api_keys := [sample_key]\<rparr>,
     ss_counters = (\<lambda>k. None)\<rparr>"

definition sample_moments :: "nat \<Rightarrow> moment" where
  "sample_moments k = \<lparr>mo_now = 9 + int k, mo_event_id = replicate (Suc k) CHR ''g'', mo_request_id = ''r''\<rparr>"

theorem private_outcome_agrees_witness:
  "\<exists>s' ws log x l t. site_run sample_site sample_moments (fst (agent_turn sample_agent
      (PollReply 200 (Some ((scan_envelope (sample_op Queued 0 None))\<lparr>env_attempt := 1\<rparr>))) sample_agent_answers))
      sample_site_state = (s', ws, log) \<and>
    all_accepted log \<and> lookup_op (ss_db s') ''op1'' = Some x \<and> status x = Retrying \<and> attempt x = 1 \<and>
    event_outbox (ss_db s') = [l] \<and> ws = [SetCursor (cursor_key ''t1'') (StreamId 1 0), retry_call t (scan_envelope x)]"
proof -
  let ?r = "sample_op Queued 0 None" and ?s = sample_site_state and ?site = sample_site
  let ?e = "scan_envelope ?r"
  let ?turn = "fst (agent_turn sample_agent (PollReply 200 (Some (?e\<lparr>env_attempt := 1\<rparr>))) sample_agent_answers)"
  have ok: "site_ok ?site sample_agent"
    by (simp add: site_ok_def sample_site_def sample_agent_def sample_gw_cfg_def sample_access_env_def)
  have "trim_space ''nx'' = ''nx''" by code_simp
  then have live: "key_live (ae_sha (si_access ?site)) (ag_api_key sample_agent) (op_tenant ?r) (ss_db ?s)"
    by (simp add: key_live_def key_row_def key_hash_def sample_site_def sample_access_env_def sample_agent_def
        sample_site_state_def sample_key_def sample_op_def)
  have room: "rate_room (op_tenant ?r) m (ss_counters ?s)" if "m \<le> 120" for m
    using that by (simp add: rate_room_def sample_site_state_def)
  have f: "ops_inv (ss_db ?s)" "lookup_op (ss_db ?s) ''op1'' = Some ?r" "status ?r \<in> {Queued, Retrying}"
    "find_row (\<lambda>x. tn_id x = op_tenant ?r) (tenants (ss_db ?s)) = Some sample_tenant"
    "int (running_count (op_tenant ?r) (ss_db ?s)) < tn_concurrency_limit sample_tenant"
    by (simp_all add: sample_site_state_def) (simp_all add: ops_inv_def lookup_op_def running_count_def sample_defs wf_row_def statuses_def)
  have g: "op_tenant ?r \<noteq> ''''" "ag_id sample_agent \<noteq> ''''" "si_stream ?site = XReadEntries [(StreamId 1 0, Envelope ?e)]"
    "?e\<lparr>env_not_before := None\<rparr> = scan_envelope ?r" "execution_mode ?r = ''PRIVATE''"
    by (simp_all add: sample_op_def sample_agent_def sample_site_def scan_envelope_def)
  have plain: "plain_id ''op1''" by code_simp
  have box: "event_outbox (ss_db ?s) = []" by (simp add: sample_site_state_def sample_defs)
  have fresh: "\<forall>k. mo_event_id (sample_moments k) \<notin> eo_id ` set (event_outbox (ss_db ?s))"
    "\<forall>ty. event_key ''op1'' ty (attempt ?r + 1) \<notin> eo_event_key ` set (event_outbox (ss_db ?s))"
    by (simp_all add: box)
  obtain s' ws log where run: "site_run ?site sample_moments ?turn ?s = (s', ws, log)" by (metis prod.collapse)
  have one: "rate_room (op_tenant ?r) (Suc 0) (ss_counters ?s)" by (rule room) simp
  obtain s1 where poll: "site_serve ?site (sample_moments 0) (api_call sample_agent ''POST'' ''/v1/worker/poll''
      (PollInput (ag_id sample_agent))) ?s = (s1, [SetCursor (cursor_key (op_tenant ?r)) (StreamId 1 0)],
      Some (200, Some (?e\<lparr>env_attempt := attempt ?r + 1\<rparr>)))"
    by (rule poll_served [OF ok live one f g])
  have a0: "attempt ?r = 0" by (simp add: sample_op_def)
  have turn: "?turn = api_call sample_agent ''POST'' ''/v1/worker/poll'' (PollInput (ag_id sample_agent)) #
      agent_process sample_agent sample_agent_answers (?e\<lparr>env_attempt := 1\<rparr>)"
    by (simp add: agent_turn_def poll_result_def)
  have ans: "snd (hd log) = Some (200, Some (?e\<lparr>env_attempt := 1\<rparr>))"
    using run poll unfolding turn a0 by (auto simp: Let_def split_def)
  have two: "rate_room (op_tenant ?r) (aa_ticks sample_agent_answers + 2) (ss_counters ?s)"
    by (rule room) (simp add: sample_agent_answers_def)
  have ex: "agent_execute (aa_target sample_agent_answers) = (''down'', 500, Some ''target returned HTTP 500: down'')"
  proof -
    have "itoa 500 = ''500''" by code_simp
    then show ?thesis by (simp add: agent_execute_def sample_agent_answers_def is_2xx_def body_limit_def Let_def)
  qed
  have st: "failure_status (retryable_status 500) (attempt ?r + 1) (max_attempts ?r) = Retrying"
    by (simp add: failure_status_def retryable_status_def sample_op_def)
  from private_outcome_agrees [OF ok live two f plain g(1-5) fresh run ans] obtain x l t where
    "all_accepted log" "lookup_op (ss_db s') ''op1'' = Some x" "status x = Retrying" "attempt x = attempt ?r + 1"
    "event_outbox (ss_db s') = event_outbox (ss_db ?s) @ [l]"
    "ws = SetCursor (cursor_key (op_tenant ?r)) (StreamId 1 0) # [retry_call t (scan_envelope x)]"
    unfolding ex by (auto simp: st)
  moreover have "op_tenant ?r = ''t1''" by (simp add: sample_op_def)
  ultimately show ?thesis using run unfolding box a0 by auto
qed

end
