(* ===== verification/Server.thy ===== *)
theory Server
  imports Perimeter
begin

text \<open>
  \<open>NewServer\<close> of \<open>internal/platform/http.go\<close>: the Echo server every service runs in. A
  request passes the middlewares of the library (security headers, CORS), \<open>RequestID\<close> and
  \<open>Recover\<close> before its handler, and the errors they return are rendered by
  \<open>ProblemHandler\<close>. A panic is an ending of its own, so that recovery is a branch.
\<close>

section \<open>An exchange and how its handler ends\<close>

text \<open>
  The part of Echo's context that the platform uses: the request's headers and path, the
  value stored under \<open>request_id\<close>, the headers of the response, and what was committed.
\<close>

record 'b exchange =
  cx_request :: header
  cx_path :: string
  cx_id :: "string option"
  cx_headers :: header
  cx_written :: "(int \<times> 'b rendered) option"

text \<open>The message of an \<open>echo.HTTPError\<close> is \<open>None\<close> when it is not a string.\<close>

datatype failure = HTTPFailure int "string option" | OtherFailure

datatype ending = Returned "failure option" | Panicked

type_synonym ('s, 'e, 'b) task = "'b exchange \<Rightarrow> 's \<Rightarrow> 'b exchange \<times> 's \<times> 'e list \<times> ending"

definition write_reply :: "int \<Rightarrow> 'b rendered \<Rightarrow> 'b exchange \<Rightarrow> 'b exchange" where
  "write_reply code b c = (if cx_written c = None then c\<lparr>cx_written := Some (code, b)\<rparr> else c)"

text \<open>A handler of the model in its exchange: it writes its reply or returns its error.\<close>

definition run_handler :: "('s, 'e, 'b) handler \<Rightarrow> ('s, 'e, 'b) task" where
  "run_handler h c s = (let (s', es, r) = h (cx_request c) s in
     (case r of
        HTTPError code msg \<Rightarrow> (c, s', es, Returned (Some (HTTPFailure code (Some msg))))
      | PlainError \<Rightarrow> (c, s', es, Returned (Some OtherFailure))
      | JSON code b \<Rightarrow> (write_reply code (JSONBody b) c, s', es, Returned None)
      | NoContent code \<Rightarrow> (write_reply code EmptyBody c, s', es, Returned None)))"

section \<open>Middlewares\<close>

definition with_request_id :: "string \<Rightarrow> ('s, 'e, 'b) task \<Rightarrow> ('s, 'e, 'b) task" where
  "with_request_id bytes next c s =
     (let i = RequestID (hex_encode bytes) (cx_request c)
      in next (c\<lparr>cx_id := Some i, cx_headers := hdr_set (cx_headers c) ''X-Request-ID'' i\<rparr>) s)"

definition Recover :: "('s, 'e, 'b) task \<Rightarrow> ('s, 'e, 'b) task" where
  "Recover next c s = (let (c', s', es, end) = next c s in
     (c', s', es, case end of
        Panicked \<Rightarrow> Returned (Some (HTTPFailure 500 (Some ''internal server error'')))
      | Returned e \<Rightarrow> Returned e))"

definition RequestIDFrom :: "'b exchange \<Rightarrow> string" where
  "RequestIDFrom c = (case cx_id c of Some v \<Rightarrow> v | None \<Rightarrow> '''')"

definition failure_detail :: "failure \<Rightarrow> int \<times> string" where
  "failure_detail e = (case e of
      HTTPFailure code (Some message) \<Rightarrow> (code, message)
    | HTTPFailure code None \<Rightarrow> (code, status_text code)
    | OtherFailure \<Rightarrow> (500, ''internal server error''))"

definition handle_error :: "failure \<Rightarrow> 'b exchange \<Rightarrow> 'b exchange" where
  "handle_error e c =
     (if cx_written c \<noteq> None then c
      else let (code, detail) = failure_detail e
           in write_reply code (ProblemBody (problem (cx_path c) (RequestIDFrom c) code detail)) c)"

text \<open>
  One request: \<open>lib\<close> is the library's pair of middlewares, \<open>bytes\<close> the twelve random bytes.
  The result ends with \<open>True\<close> when the panic reached the HTTP server, which then drops the
  connection.
\<close>

definition serve_exchange ::
    "(('s, 'e, 'b) task \<Rightarrow> ('s, 'e, 'b) task) \<Rightarrow> string \<Rightarrow> ('s, 'e, 'b) task \<Rightarrow>
     'b exchange \<Rightarrow> 's \<Rightarrow> 'b exchange \<times> 's \<times> 'e list \<times> bool" where
  "serve_exchange lib bytes h c s =
     (let (c', s', es, end) = lib (with_request_id bytes (Recover h)) c s in
      (case end of
         Returned None \<Rightarrow> (c', s', es, False)
       | Returned (Some e) \<Rightarrow> (handle_error e c', s', es, False)
       | Panicked \<Rightarrow> (c', s', es, True)))"

definition healthz :: "string \<Rightarrow> ('s, 'e, (string \<times> string) list) handler" where
  "healthz name h s = (s, [], JSON 200 [(''service'', name), (''status'', ''ok'')])"

definition new_exchange :: "header \<Rightarrow> string \<Rightarrow> 'b exchange" where
  "new_exchange h path = \<lparr>cx_request = h, cx_path = path, cx_id = None, cx_headers = [], cx_written = None\<rparr>"

section \<open>Request identifiers\<close>

lemma hex_encode_no_space: "c \<in> set (hex_encode s) \<Longrightarrow> \<not> is_space c"
proof -
  have "\<not> is_space (hex_digit n)" if "n < 16" for n
  proof
    assume "is_space (hex_digit n)"
    then have "of_char (hex_digit n) \<le> (32 :: nat)" by (auto simp: is_space_def)
    with that show False by (simp add: hex_digit_def split: if_splits)
  qed
  moreover have "of_char x div 16 < (16 :: nat)" for x using nat_of_char_less_256 [of x] by (simp only: less_mult_imp_div_less)
  ultimately show "c \<in> set (hex_encode s) \<Longrightarrow> \<not> is_space c"
    by (auto simp: hex_encode_def Let_def)
qed

lemma hex_encode_empty [simp]: "hex_encode s = [] \<longleftrightarrow> s = []"
  by (cases s) (simp_all add: hex_encode_def Let_def)

lemma RequestID_trimmed: "trim_space (RequestID (hex_encode b) h) = RequestID (hex_encode b) h"
  using trim_space_id [of "hex_encode b"] hex_encode_no_space
  by (auto simp: RequestID_def Let_def trim_space_idem)

lemma RequestID_nonempty: "b \<noteq> [] \<Longrightarrow> RequestID (hex_encode b) h \<noteq> []"
  by (simp add: RequestID_def Let_def)

text \<open>A service that is handed an identifier keeps it.\<close>

lemma RequestID_received:
  assumes "b \<noteq> []" "hdr_get h' ''X-Request-ID'' = RequestID (hex_encode b) h"
  shows "RequestID r h' = RequestID (hex_encode b) h"
  using RequestID_nonempty [OF assms(1), of h] by (simp add: RequestID_def [of r] assms(2) RequestID_trimmed Let_def)

section \<open>Every request is answered\<close>

text \<open>
  The library middlewares pass a request on (every one but a CORS preflight) after adding
  headers of their own, as Echo documents.
\<close>

definition passes_with :: "(('s, 'e, 'b) task \<Rightarrow> ('s, 'e, 'b) task) \<Rightarrow> header \<Rightarrow> 'b exchange \<Rightarrow> bool" where
  "passes_with lib hs c = (\<forall>next s. lib next c s = next (c\<lparr>cx_headers := hs\<rparr>) s)"

definition passes_on :: "(('s, 'e, 'b) task \<Rightarrow> ('s, 'e, 'b) task) \<Rightarrow> 'b exchange \<Rightarrow> bool" where
  "passes_on lib c = (\<exists>hs. passes_with lib hs c)"

text \<open>
  A task leaves the identifier alone, and writes no problem of its own; it may write a body,
  return an error, panic at any point, but not return without any of these.
\<close>

definition tame :: "('s, 'e, 'b) task \<Rightarrow> bool" where
  "tame t = (\<forall>c s. cx_written c = None \<longrightarrow> (let (c', s', es, end) = t c s in
     cx_id c' = cx_id c \<and> cx_path c' = cx_path c \<and>
     hdr_get (cx_headers c') ''X-Request-ID'' = hdr_get (cx_headers c) ''X-Request-ID'' \<and>
     (case cx_written c' of None \<Rightarrow> end \<noteq> Returned None
      | Some (code, b) \<Rightarrow> (case b of ProblemBody p \<Rightarrow> False | _ \<Rightarrow> True))))"

lemma tame_run_handler: "tame (run_handler h)"
  by (auto simp: tame_def run_handler_def write_reply_def Let_def split_def split: reply.split)

lemma tameD:
  assumes "tame t" "t c s = (c', s', es, end)" "cx_written c = None"
  shows "cx_id c' = cx_id c" "cx_path c' = cx_path c"
    "hdr_get (cx_headers c') ''X-Request-ID'' = hdr_get (cx_headers c) ''X-Request-ID''"
    "cx_written c' = None \<Longrightarrow> end \<noteq> Returned None"
    "cx_written c' = Some (code, ProblemBody p) \<Longrightarrow> False"
proof -
  have "let (c', s', es, end) = t c s in
     cx_id c' = cx_id c \<and> cx_path c' = cx_path c \<and>
     hdr_get (cx_headers c') ''X-Request-ID'' = hdr_get (cx_headers c) ''X-Request-ID'' \<and>
     (case cx_written c' of None \<Rightarrow> end \<noteq> Returned None
      | Some (code, b) \<Rightarrow> (case b of ProblemBody p \<Rightarrow> False | _ \<Rightarrow> True))"
    using assms(1,3) unfolding tame_def by blast
  then show "cx_id c' = cx_id c" "cx_path c' = cx_path c"
    "hdr_get (cx_headers c') ''X-Request-ID'' = hdr_get (cx_headers c) ''X-Request-ID''"
    "cx_written c' = None \<Longrightarrow> end \<noteq> Returned None"
    "cx_written c' = Some (code, ProblemBody p) \<Longrightarrow> False"
    unfolding assms(2) by auto
qed

definition inner_exchange :: "string \<Rightarrow> header \<Rightarrow> 'b exchange \<Rightarrow> 'b exchange" where
  "inner_exchange i hs c = c\<lparr>cx_id := Some i, cx_headers := hdr_set hs ''X-Request-ID'' i\<rparr>"

text \<open>What the server makes of each ending of the task.\<close>

lemma serve_ending:
  assumes "passes_with lib hs c"
    and "t (inner_exchange (RequestID (hex_encode b) (cx_request c)) hs c) s = (c', s', es, end)"
  shows "serve_exchange lib b t c s = (case end of
     Returned None \<Rightarrow> (c', s', es, False)
   | Returned (Some e) \<Rightarrow> (handle_error e c', s', es, False)
   | Panicked \<Rightarrow> (handle_error (HTTPFailure 500 (Some ''internal server error'')) c', s', es, False))"
  using assms by (simp add: passes_with_def serve_exchange_def with_request_id_def Recover_def Let_def inner_exchange_def
      split: ending.split)

lemma handle_error_fields [simp]:
  "cx_id (handle_error e c) = cx_id c" "cx_headers (handle_error e c) = cx_headers c"
  by (simp_all add: handle_error_def write_reply_def Let_def split_def)

lemma handle_error_written:
  "cx_written (handle_error e c) = (case cx_written c of Some w \<Rightarrow> Some w
     | None \<Rightarrow> Some (fst (failure_detail e), ProblemBody (problem (cx_path c) (RequestIDFrom c)
         (fst (failure_detail e)) (snd (failure_detail e)))))"
  by (simp add: handle_error_def write_reply_def Let_def split_def split: option.split)

lemma exchange_answered:
  assumes "passes_on lib (new_exchange h path)" "tame t" "b \<noteq> []"
    and "serve_exchange lib b t (new_exchange h path) s = (c', s', es, dropped)"
  shows "\<not> dropped \<and> RequestID (hex_encode b) h \<noteq> '''' \<and>
    hdr_get (cx_headers c') ''X-Request-ID'' = RequestID (hex_encode b) h \<and>
    (\<exists>code r. cx_written c' = Some (code, r) \<and>
      (\<forall>p. r = ProblemBody p \<longrightarrow> (\<exists>detail. p = problem path (RequestID (hex_encode b) h) code detail)))"
proof -
  let ?i = "RequestID (hex_encode b) h" and ?c = "new_exchange h path :: 'a exchange"
  have i: "RequestID (hex_encode b) (cx_request ?c) = ?i" by (simp add: new_exchange_def)
  obtain hs where hs: "passes_with lib hs ?c"
    using assms(1) by (auto simp: passes_on_def)
  obtain c1 s1 es1 fin where run: "t (inner_exchange ?i hs ?c) s = (c1, s1, es1, fin)" by (metis prod.collapse)
  have "cx_written (inner_exchange ?i hs ?c) = None" by (simp add: inner_exchange_def new_exchange_def)
  note tame = tameD [OF assms(2) run this]
  have c1: "RequestIDFrom c1 = ?i" "cx_path c1 = path" "hdr_get (cx_headers c1) ''X-Request-ID'' = ?i"
    using tame(1-3) by (simp_all add: RequestIDFrom_def inner_exchange_def new_exchange_def hdr_get_set)
  from serve_ending [OF hs, of t b s, unfolded i run, OF refl] assms(4) have out: "\<not> dropped" "c' = c1 \<and> fin = Returned None \<or> (\<exists>e. c' = handle_error e c1)"
    by (auto split: ending.splits option.splits)
  have own: "\<And>p. r = ProblemBody p \<Longrightarrow> False" if "cx_written c1 = Some (code, r)" for code r
    using tame(5) that by blast
  have "\<exists>code r. cx_written c' = Some (code, r) \<and>
      (\<forall>p. r = ProblemBody p \<longrightarrow> (\<exists>detail. p = problem path ?i code detail))"
  proof (cases "cx_written c1")
    case None
    with out(2) tame(4) c1 show ?thesis by (auto simp: handle_error_written)
  next
    case (Some w)
    with out(2) have "cx_written c' = Some w" by (auto simp: handle_error_written)
    with own Some show ?thesis by (cases w) blast
  qed
  with out c1(3) RequestID_nonempty [OF assms(3)] show ?thesis by auto
qed

lemma modelled_handler_answer:
  assumes "passes_on lib (new_exchange h path)"
    and "serve_exchange lib b (run_handler g) (new_exchange h path) s = (c', s', es, dropped)"
  shows "s' = fst (g h s)" "es = fst (snd (g h s))"
    "cx_written c' = Some (ProblemHandler path (RequestID (hex_encode b) h) (snd (snd (g h s))))"
proof -
  let ?i = "RequestID (hex_encode b) h" and ?c = "new_exchange h path :: 'a exchange"
  obtain hs where hs: "passes_with lib hs ?c"
    using assms(1) by (auto simp: passes_on_def)
  obtain s1 es1 r where r: "g h s = (s1, es1, r)" by (metis prod.collapse)
  have f: "cx_request ?c = h" "cx_request (inner_exchange ?i hs ?c) = h" "cx_path (inner_exchange ?i hs ?c) = path"
    "cx_written (inner_exchange ?i hs ?c) = None" "RequestIDFrom (inner_exchange ?i hs ?c) = ?i"
    by (simp_all add: new_exchange_def inner_exchange_def RequestIDFrom_def)
  have "s' = s1 \<and> es = es1 \<and> cx_written c' = Some (ProblemHandler path ?i r)"
    using serve_ending [OF hs, of "run_handler g" b s] assms(2)
    by (cases r) (auto simp: f r run_handler_def write_reply_def handle_error_written failure_detail_def)
  then show "s' = fst (g h s)" "es = fst (snd (g h s))"
    "cx_written c' = Some (ProblemHandler path ?i (snd (snd (g h s))))"
    by (simp_all add: r)
qed

lemma panicking_answer:
  assumes "passes_on lib (new_exchange h path)" "tame t"
    and "\<And>c. snd (snd (snd (t c s))) = Panicked \<and> cx_written (fst (t c s)) = cx_written c"
    and "serve_exchange lib b t (new_exchange h path) s = (c', s', es, dropped)"
  shows "cx_written c' = Some (500, ProblemBody (problem path (RequestID (hex_encode b) h) 500 ''internal server error''))"
proof -
  let ?i = "RequestID (hex_encode b) h" and ?c = "new_exchange h path :: 'a exchange"
  obtain hs where hs: "passes_with lib hs ?c"
    using assms(1) by (auto simp: passes_on_def)
  have f: "cx_request ?c = h" "cx_written (inner_exchange ?i hs ?c) = None"
    "cx_path (inner_exchange ?i hs ?c) = path" "cx_id (inner_exchange ?i hs ?c) = Some ?i"
    by (simp_all add: new_exchange_def inner_exchange_def)
  obtain c1 s1 es1 fin where run: "t (inner_exchange ?i hs ?c) s = (c1, s1, es1, fin)" by (metis prod.collapse)
  have "fin = Panicked" "cx_written c1 = None" "cx_path c1 = path" "cx_id c1 = Some ?i"
    using assms(3) [of "inner_exchange ?i hs ?c"] tameD(1,2) [OF assms(2) run f(2)] by (simp_all add: run f)
  with serve_ending [OF hs, of t b s] run assms(4) show ?thesis
    by (auto simp: f handle_error_written failure_detail_def RequestIDFrom_def)
qed


text \<open>A handler that panics.\<close>

definition panicking :: "('s, 'e, 'b) task" where
  "panicking c s = (c, s, [], Panicked)"


section \<open>One identifier across the services\<close>

lemma connection_named_identify [simp]: "connection_named (identify p h) = connection_named h"
proof -
  have "canonical_key TenantHeader \<noteq> ''Connection''" "canonical_key UserHeader \<noteq> ''Connection''"
    "canonical_key RoleHeader \<noteq> ''Connection''"
    by (simp_all add: canonical_key_def TenantHeader_def UserHeader_def RoleHeader_def
        upper_char_def lower_char_def)
  then show ?thesis by (simp add: connection_named_def identify_def hdr_set_def map_of_hdr_del Let_def)
qed

lemma connection_named_request_id [simp]: "connection_named (hdr_set h ''X-Request-ID'' i) = connection_named h"
proof -
  have "canonical_key ''X-Request-ID'' \<noteq> ''Connection''"
    by (simp add: canonical_key_def upper_char_def lower_char_def)
  then show ?thesis by (simp add: connection_named_def hdr_set_def map_of_hdr_del)
qed

lemma hop_headers_keep_id: "k \<in> set hop_headers \<Longrightarrow> canonical_key ''X-Request-ID'' \<noteq> canonical_key k"
  by (auto simp: hop_headers_def canonical_key_def upper_char_def lower_char_def)

lemma proxied_request_id:
  assumes "\<forall>k\<in>set (connection_named h). canonical_key ''X-Request-ID'' \<noteq> canonical_key k"
  shows "hdr_get (remove_hop_headers (hdr_set h ''X-Request-ID'' i)) ''X-Request-ID'' = i"
  using assms hop_headers_keep_id by (auto simp: remove_hop_headers_def hdr_get_fold_del hdr_get_set)

lemma forwarded_header:
  assumes "Forward svc path h' \<in> set (fst (snd (serve_v1 cfg env params r h s)))"
  shows "\<exists>p. h' = remove_hop_headers (hdr_set (identify p h) ''X-Request-ID'' (ge_request_id env))"
proof -
  let ?inner = "route_handler cfg env params r"
  from assms obtain p where
    "Forward svc path h' \<in> set (fst (snd (rateLimit (ge_now env) (ge_redis_fails env) ?inner (identify p h) s)))"
    by (auto simp: serve_v1_def authenticate_def Let_def prepend_calls_def split_def
        split: auth_reply.splits if_splits option.splits)
  from rateLimit_calls [OF this] obtain s1 where c: "Forward svc path h' \<in> set (fst (snd (?inner (identify p h) s1)))"
    by auto
  show ?thesis
  proof (cases r)
    case RouteAssistant
    with c assistant_calls show ?thesis by fastforce
  qed (use c in \<open>auto simp: proxyPath_def requireAdmin_def Let_def split: if_splits\<close>)
qed



text \<open>
  A panic after the reply was committed, as the reverse proxy uses to abort a copy that
  failed, is swallowed too: the connection is not dropped, and what was written stands.
\<close>

lemma abort_swallowed:
  assumes "passes_with lib hs c"
    and "t (inner_exchange (RequestID (hex_encode b) (cx_request c)) hs c) s = (c', s', es, Panicked)"
    and "cx_written c' = Some w"
  shows "serve_exchange lib b t c s = (c', s', es, False)"
  using serve_ending [OF assms(1), of t b s] assms(2,3) by (simp add: handle_error_def)

end
