(* ===== verification/Loops.thy ===== *)
theory Loops
  imports Worker Agent Webhooks "HOL-Library.Sublist"
begin

text \<open>
  The endless loops: the cloud worker reading its consumer group, the enterprise worker
  polling until it is stopped, and an open event stream. A loop that only an event from
  outside can end is a partial function, so that not returning is a value of its own.
\<close>

section \<open>The cloud worker\<close>

text \<open>
  What one \<open>XREADGROUP\<close> for new messages gives: no message within five seconds, an error
  (the cancelled context is one), or the messages of the streams it names.
\<close>

datatype run_error = RunCancelled | RunFailed string

datatype group_reply = GroupNil | GroupFailed run_error | GroupRead "(stream_id \<times> entry) list list"

definition process_streams ::
    "worker_cfg \<Rightarrow> (stream_id \<Rightarrow> worker_answers) \<Rightarrow> (stream_id \<times> entry) list list \<Rightarrow> worker_call list" where
  "process_streams cfg a streams =
     concat (map (\<lambda>messages. concat (map (\<lambda>m. process cfg (a (fst m)) m) messages)) streams)"

partial_function (option) worker_run ::
    "worker_cfg \<Rightarrow> (nat \<Rightarrow> group_reply) \<Rightarrow> (nat \<Rightarrow> stream_id \<Rightarrow> worker_answers) \<Rightarrow> nat \<Rightarrow>
     (worker_call list \<times> run_error) option" where
  "worker_run cfg reads a k = (case reads k of
      GroupNil \<Rightarrow> worker_run cfg reads a (Suc k)
    | GroupFailed e \<Rightarrow> Some ([], e)
    | GroupRead streams \<Rightarrow> Option.bind (worker_run cfg reads a (Suc k))
        (\<lambda>(cs, e). Some (process_streams cfg (a k) streams @ cs, e)))"

text \<open>The messages of one read, and when a message is acknowledged.\<close>

fun read_messages :: "group_reply \<Rightarrow> (stream_id \<times> entry) list" where
  "read_messages (GroupRead streams) = concat streams"
| "read_messages _ = []"

definition settled :: "worker_answers \<Rightarrow> entry \<Rightarrow> bool" where
  "settled a e = (case e of
      Envelope env \<Rightarrow> past_deadline (wa_now a) env \<or> env_execution_mode env \<noteq> ''CLOUD'' \<or>
        post_ok (wa_claim a) \<and> (snd (snd (execute (wa_target a))) \<noteq> None \<or> post_ok (wa_complete a))
    | _ \<Rightarrow> True)"

lemma ack_exact:
  "CallAck i \<in> set (process cfg a (sid, e)) \<longleftrightarrow> i = sid \<and> settled a e"
proof (cases e)
  case (Envelope env)
  obtain res code err where ex: "execute (wa_target a) = (res, code, err)" by (metis prod.collapse)
  show ?thesis
    by (cases err) (auto simp: Envelope ex settled_def process_def run_claimed_def Let_def split_def
        reportFailure_def emit_def)
qed (auto simp: process_def settled_def)

definition round_calls :: "worker_cfg \<Rightarrow> (stream_id \<Rightarrow> worker_answers) \<Rightarrow> group_reply \<Rightarrow> worker_call list" where
  "round_calls cfg a r = concat (map (\<lambda>m. process cfg (a (fst m)) m) (read_messages r))"

lemma process_streams_flat: "process_streams cfg a streams = round_calls cfg a (GroupRead streams)"
  by (induction streams) (simp_all add: process_streams_def round_calls_def)

text \<open>One turn of the loop, read or not.\<close>

lemma worker_run_turn:
  assumes "\<And>e. reads k \<noteq> GroupFailed e"
  shows "worker_run cfg reads a k = Option.bind (worker_run cfg reads a (Suc k))
      (\<lambda>(cs, e). Some (round_calls cfg (a k) (reads k) @ cs, e))"
  by (subst worker_run.simps)
    (use assms in \<open>auto simp: process_streams_flat round_calls_def split: group_reply.split option.split bind_splits\<close>)

lemma worker_run_fails: "reads k = GroupFailed e \<Longrightarrow> worker_run cfg reads a k = Some ([], e)"
  by (subst worker_run.simps) simp

lemma worker_run_until:
  assumes "\<And>j e. j < n \<Longrightarrow> reads (k + j) \<noteq> GroupFailed e" "reads (k + n) = GroupFailed e"
  shows "worker_run cfg reads a k =
    Some (concat (map (\<lambda>j. round_calls cfg (a (k + j)) (reads (k + j))) [0..<n]), e)"
  using assms
proof (induction n arbitrary: k)
  case 0
  then show ?case by (simp add: worker_run_fails)
next
  case (Suc n)
  have "worker_run cfg reads a (Suc k) =
      Some (concat (map (\<lambda>j. round_calls cfg (a (Suc k + j)) (reads (Suc k + j))) [0..<n]), e)"
    using Suc.prems(1) [of "Suc j" for j] Suc.prems(2) by (intro Suc.IH) auto
  moreover have "reads k \<noteq> GroupFailed e'" for e' using Suc.prems(1) [of 0] by simp
  ultimately show ?case
    by (subst worker_run_turn) (simp_all add: upt_conv_Cons map_Suc_upt [symmetric] comp_def del: upt_Suc)
qed

lemma worker_run_ends:
  "worker_run cfg reads a k = Some r \<Longrightarrow> \<exists>n e. reads (k + n) = GroupFailed e"
proof (induction rule: worker_run.raw_induct [rotated, consumes 1, case_names step])
  case (step run cfg reads a k r)
  show ?case
  proof (cases "reads k")
    case GroupNil
    with step(2) have "run cfg reads a (Suc k) = Some r" by simp
    from step(1) [OF this] have "\<exists>n e. reads (Suc k + n) = GroupFailed e" .
    then show ?thesis by (metis add_Suc_shift)
  next
    case (GroupFailed e)
    then show ?thesis by (metis add_0_right)
  next
    case (GroupRead streams)
    with step(2) obtain y where "run cfg reads a (Suc k) = Some y" by (auto split: bind_splits)
    from step(1) [OF this] have "\<exists>n e. reads (Suc k + n) = GroupFailed e" .
    then show ?thesis by (metis add_Suc_shift)
  qed
qed

lemma first_failure:
  fixes reads :: "nat \<Rightarrow> group_reply"
  assumes "reads n = GroupFailed e"
  obtains m e' where "reads m = GroupFailed e'" "\<forall>j<m. \<forall>e. reads j \<noteq> GroupFailed e"
proof -
  let ?P = "\<lambda>m. \<exists>e. reads m = GroupFailed e"
  have "?P n" using assms by blast
  then have "?P (Least ?P)" by (rule LeastI [of ?P n])
  moreover have "\<not> ?P j" if "j < Least ?P" for j using that by (rule not_less_Least)
  ultimately show ?thesis using that by blast
qed

lemma round_acks:
  "CallAck sid \<in> set (round_calls cfg a r) \<longleftrightarrow> (\<exists>m. (sid, m) \<in> set (read_messages r) \<and> settled (a sid) m)"
  by (force simp: round_calls_def ack_exact)

lemma worker_loop_first:
  assumes "worker_run cfg reads a 0 = Some (cs, e)"
  obtains n where "reads n = GroupFailed e" "\<forall>j<n. \<forall>e. reads j \<noteq> GroupFailed e"
    "cs = concat (map (\<lambda>j. round_calls cfg (a j) (reads j)) [0..<n])"
proof -
  from worker_run_ends [OF assms] obtain m e' where "reads m = GroupFailed e'" by auto
  then obtain n e' where n: "reads n = GroupFailed e'" "\<forall>j<n. \<forall>e. reads j \<noteq> GroupFailed e"
    by (rule first_failure)
  with worker_run_until [of n reads 0 e' cfg a] assms show ?thesis using that by simp
qed

text \<open>
  C21: The loop of the cloud worker. It returns exactly when a read fails (a stopped worker
  sees its cancelled context there), with that error; until then every message of every
  read has been processed, in order, and nothing else was called. A message has been
  acknowledged exactly when it was settled: it carried no operation for this worker, its
  target failed, or its completion was accepted. So a message whose claim was refused stays
  in the pending list of the group, which the loop never reads.
\<close>
theorem worker_loop_returns:
  "(worker_run cfg reads a 0 = None \<longleftrightarrow> (\<forall>j e. reads j \<noteq> GroupFailed e)) \<and>
   (worker_run cfg reads a 0 = Some (cs, e) \<longrightarrow>
     (\<exists>n. reads n = GroupFailed e \<and> (\<forall>j<n. \<forall>e'. reads j \<noteq> GroupFailed e') \<and>
       cs = concat (map (\<lambda>m. process cfg (a (fst m) (fst (snd m))) (snd m))
         (concat (map (\<lambda>j. map (Pair j) (read_messages (reads j))) [0..<n]))) \<and>
       (\<forall>sid. CallAck sid \<in> set cs \<longleftrightarrow>
         (\<exists>j<n. \<exists>m. (sid, m) \<in> set (read_messages (reads j)) \<and> settled (a j sid) m))))"
proof (intro conjI impI)
  show "worker_run cfg reads a 0 = None \<longleftrightarrow> (\<forall>j e. reads j \<noteq> GroupFailed e)"
  proof
    assume none: "worker_run cfg reads a 0 = None"
    show "\<forall>j e. reads j \<noteq> GroupFailed e"
    proof (intro allI notI)
      fix j e assume "reads j = GroupFailed e"
      then obtain n e' where "reads n = GroupFailed e'" "\<forall>j<n. \<forall>e. reads j \<noteq> GroupFailed e"
        by (rule first_failure)
      with worker_run_until [of n reads 0 e' cfg a] none show False by simp
    qed
  next
    assume "\<forall>j e. reads j \<noteq> GroupFailed e"
    then show "worker_run cfg reads a 0 = None" using worker_run_ends [of cfg reads a 0] by (metis not_None_eq)
  qed
next
  assume "worker_run cfg reads a 0 = Some (cs, e)"
  then obtain n where n: "reads n = GroupFailed e" "\<forall>j<n. \<forall>e. reads j \<noteq> GroupFailed e"
    "cs = concat (map (\<lambda>j. round_calls cfg (a j) (reads j)) [0..<n])" by (rule worker_loop_first) blast
  have "concat (map (\<lambda>m. process cfg (a (fst m) (fst (snd m))) (snd m))
      (concat (map (\<lambda>j. map (Pair j) (read_messages (reads j))) js))) =
    concat (map (\<lambda>j. round_calls cfg (a j) (reads j)) js)" for js
    by (induction js) (simp_all add: round_calls_def comp_def)
  moreover have "CallAck sid \<in> set cs \<longleftrightarrow>
      (\<exists>j<n. \<exists>m. (sid, m) \<in> set (read_messages (reads j)) \<and> settled (a j sid) m)" for sid
    by (auto simp: n(3) round_acks)
  ultimately show "\<exists>n. reads n = GroupFailed e \<and> (\<forall>j<n. \<forall>e'. reads j \<noteq> GroupFailed e') \<and>
      cs = concat (map (\<lambda>m. process cfg (a (fst m) (fst (snd m))) (snd m))
        (concat (map (\<lambda>j. map (Pair j) (read_messages (reads j))) [0..<n]))) \<and>
      (\<forall>sid. CallAck sid \<in> set cs \<longleftrightarrow>
        (\<exists>j<n. \<exists>m. (sid, m) \<in> set (read_messages (reads j)) \<and> settled (a j sid) m))"
    using n by (intro exI [of _ n]) auto
qed

text \<open>A refused claim: the loop ends on a failed read and the message is still pending.\<close>

theorem worker_loop_returns_witness:
  "\<exists>cs. worker_run sample_worker (\<lambda>j. if j = 0 then GroupRead [[(StreamId 1 0, Envelope sample_cloud)]]
        else GroupFailed RunCancelled)
      (\<lambda>j sid. (sample_answers (TargetError ''x''))\<lparr>wa_claim := HttpResponse 409 []\<rparr>) 0 = Some (cs, RunCancelled) \<and>
    CallAck (StreamId 1 0) \<notin> set cs"
proof -
  let ?r = "\<lambda>j :: nat. if j = 0 then GroupRead [[(StreamId 1 0, Envelope sample_cloud)]] else GroupFailed RunCancelled"
  let ?a = "\<lambda>(j :: nat) (sid :: stream_id). (sample_answers (TargetError ''x''))\<lparr>wa_claim := HttpResponse 409 []\<rparr>"
  have "\<not> (\<forall>j e. ?r j \<noteq> GroupFailed e)" by auto
  then obtain cs e where run: "worker_run sample_worker ?r ?a 0 = Some (cs, e)"
    using worker_loop_returns [of sample_worker ?r ?a "[]" RunCancelled] by fastforce
  from worker_loop_returns [of sample_worker ?r ?a cs e] run obtain n where n: "?r n = GroupFailed e"
    "\<forall>j<n. \<forall>e'. ?r j \<noteq> GroupFailed e'"
    "CallAck (StreamId 1 0) \<in> set cs \<longleftrightarrow>
       (\<exists>j<n. \<exists>m. (StreamId 1 0, m) \<in> set (read_messages (?r j)) \<and> settled (?a j (StreamId 1 0)) m)"
    by (auto simp del: split_paired_Ex split_paired_All)
  have "\<not> settled (?a j sid) (Envelope sample_cloud)" for j sid
    by (simp add: settled_def sample_cloud_def sample_answers_def scan_envelope_def sample_op_def
        past_deadline_def post_ok_def is_2xx_def)
  with n run show ?thesis by (auto split: if_splits)
qed

section \<open>The enterprise worker\<close>

text \<open>\<open>live k\<close> says that the context is not cancelled before turn \<open>k\<close>.\<close>

partial_function (option) agent_run ::
    "agent_cfg \<Rightarrow> (nat \<Rightarrow> bool) \<Rightarrow> (nat \<Rightarrow> poll_reply) \<Rightarrow> (nat \<Rightarrow> agent_answers) \<Rightarrow> nat \<Rightarrow> agent_call list option" where
  "agent_run cfg live polls a k =
     (if live k
      then Option.bind (agent_run cfg live polls a (Suc k))
        (\<lambda>cs. Some (fst (agent_turn cfg (polls k) (a k)) @ cs))
      else Some [])"

lemma agent_run_until:
  assumes "\<forall>j<n. live (k + j)" "\<not> live (k + n)"
  shows "agent_run cfg live polls a k =
    Some (concat (map (\<lambda>j. fst (agent_turn cfg (polls (k + j)) (a (k + j)))) [0..<n]))"
  using assms
proof (induction n arbitrary: k)
  case 0
  then show ?case by (subst agent_run.simps) simp
next
  case (Suc n)
  have "\<forall>j<n. live (Suc k + j)" using Suc.prems(1) by (metis Suc_mono add_Suc_shift)
  with Suc.prems(2) have "agent_run cfg live polls a (Suc k) =
      Some (concat (map (\<lambda>j. fst (agent_turn cfg (polls (Suc k + j)) (a (Suc k + j)))) [0..<n]))"
    by (intro Suc.IH) auto
  moreover have "live k" using Suc.prems(1) by (metis add_0_right zero_less_Suc)
  ultimately show ?case
    by (subst agent_run.simps) (simp add: upt_conv_Cons map_Suc_upt [symmetric] comp_def del: upt_Suc)
qed

section \<open>The event stream\<close>

text \<open>
  What the \<open>select\<close> of one stream and the other goroutines do, in the order of the mutex:
  an event is published, a stream is opened, stream \<open>j\<close> takes from its channel or is left by
  its client, and the ticker of this stream fires.
\<close>

datatype stream_event = Published string string | Opened string | Drawn nat | Left nat | Beat

text \<open>The frames stream \<open>k\<close> writes. A draw from an empty channel is not chosen.\<close>

fun stream_loop :: "nat \<Rightarrow> stream_event list \<Rightarrow> subscriber list \<Rightarrow> subscriber list \<times> string list" where
  "stream_loop k [] subs = (subs, [])"
| "stream_loop k (Published t data # es) subs = stream_loop k es (publish t data subs)"
| "stream_loop k (Opened t # es) subs = stream_loop k es (subscribe t subs)"
| "stream_loop k (Drawn j # es) subs = (case receive j subs of
      None \<Rightarrow> stream_loop k es subs
    | Some (subs', frame) \<Rightarrow> (let (subs'', out) = stream_loop k es subs'
        in (subs'', if j = k then frame # out else out)))"
| "stream_loop k (Left j # es) subs =
     (if j = k then (unsubscribe k subs, [])
      else if j < length subs then stream_loop (if j < k then k - 1 else k) es (unsubscribe j subs)
      else stream_loop k es subs)"
| "stream_loop k (Beat # es) subs = (let (subs', out) = stream_loop k es subs in (subs', keepalive # out))"

fun published :: "string \<Rightarrow> stream_event list \<Rightarrow> string list" where
  "published t [] = []"
| "published t (Published t' data # es) = (if t' = t then data # published t es else published t es)"
| "published t (_ # es) = published t es"

lemma sse_frame_not_keepalive [simp]: "sse_frame data \<noteq> keepalive" "keepalive \<noteq> sse_frame data"
  by (simp_all add: sse_frame_def keepalive_def)

lemma unsubscribe_nth:
  assumes "k < length subs" "j < length subs" "j \<noteq> k"
  shows "(if j < k then k - 1 else k) < length (unsubscribe j subs)"
    "unsubscribe j subs ! (if j < k then k - 1 else k) = subs ! k"
  using assms by (auto simp: unsubscribe_def nth_append min_def)

lemma receive_Some:
  "receive j subs = Some (subs', frame) \<longleftrightarrow> j < length subs \<and>
     (\<exists>data rest. sb_buffer (subs ! j) = data # rest \<and> frame = sse_frame data \<and>
        subs' = subs[j := (subs ! j)\<lparr>sb_buffer := rest\<rparr>])"
  by (auto simp: receive_def split: list.splits)

text \<open>
  What a stream wrote, against the events that were queued or published for it: these
  events, in order, none twice, and none left out unless more came than the channel holds.
\<close>

definition faithful :: "string list \<Rightarrow> string list \<Rightarrow> bool" where
  "faithful queue out = (\<exists>ds. filter (\<lambda>f. f \<noteq> keepalive) out = map sse_frame ds \<and> subseq ds queue \<and>
     (length queue \<le> buffer_size \<longrightarrow> prefix ds queue))"

lemma faithful_Nil [simp]: "faithful queue []"
  by (auto simp: faithful_def)

lemma faithful_beat [simp]: "faithful queue (keepalive # out) = faithful queue out"
  by (simp add: faithful_def)

lemma faithful_draw:
  assumes "faithful queue out"
  shows "faithful (data # queue) (sse_frame data # out)"
proof -
  from assms obtain ds where "filter (\<lambda>f. f \<noteq> keepalive) out = map sse_frame ds" "subseq ds queue"
    "length queue \<le> buffer_size \<longrightarrow> prefix ds queue" by (auto simp: faithful_def)
  then show ?thesis unfolding faithful_def by (intro exI [of _ "data # ds"]) auto
qed

lemma faithful_lost:
  assumes "faithful (b @ queue) out" "buffer_size \<le> length b"
  shows "faithful (b @ data # queue) out"
proof -
  from assms(1) obtain ds where ds: "filter (\<lambda>f. f \<noteq> keepalive) out = map sse_frame ds" "subseq ds (b @ queue)"
    by (auto simp: faithful_def)
  moreover have "subseq (b @ queue) (b @ data # queue)" by (simp only: subseq_append') (simp add: list_emb_Cons)
  ultimately have "subseq ds (b @ data # queue)" by (metis subseq_order.trans)
  with ds(1) assms(2) show ?thesis by (auto simp: faithful_def)
qed

lemma stream_loop_published:
  assumes "k < length subs"
    and "\<And>t subs. k < length subs \<Longrightarrow>
      faithful (sb_buffer (subs ! k) @ published (sb_tenant (subs ! k)) es) (snd (stream_loop k es subs))"
  shows "faithful (sb_buffer (subs ! k) @ published (sb_tenant (subs ! k)) (Published t data # es))
    (snd (stream_loop k (Published t data # es) subs))"
proof -
  have k: "k < length (publish t data subs)"
    "publish t data subs ! k = (if sb_tenant (subs ! k) = t then offer data (subs ! k) else subs ! k)"
    using assms(1) by (simp_all add: publish_def)
  note ih = assms(2) [OF k(1), unfolded k(2)]
  show ?thesis
  proof (cases "sb_tenant (subs ! k) = t \<and> buffer_size \<le> length (sb_buffer (subs ! k))")
    case True
    then show ?thesis using ih by (auto simp: offer_def intro: faithful_lost)
  next
    case False
    then show ?thesis using ih by (auto simp: offer_def split: if_splits)
  qed
qed

lemma stream_loop_drawn:
  assumes "k < length subs"
    and "\<And>t subs. k < length subs \<Longrightarrow>
      faithful (sb_buffer (subs ! k) @ published (sb_tenant (subs ! k)) es) (snd (stream_loop k es subs))"
  shows "faithful (sb_buffer (subs ! k) @ published (sb_tenant (subs ! k)) es)
    (snd (stream_loop k (Drawn j # es) subs))"
proof (cases "receive j subs")
  case None
  with assms show ?thesis by simp
next
  case (Some x)
  obtain subs1 frame where x: "x = (subs1, frame)" by (cases x)
  from Some x obtain data rs where r: "j < length subs" "sb_buffer (subs ! j) = data # rs"
    "frame = sse_frame data" "subs1 = subs[j := (subs ! j)\<lparr>sb_buffer := rs\<rparr>]"
    by (auto simp: receive_Some)
  have k: "k < length subs1" using assms(1) r by simp
  obtain s2 out where l: "stream_loop k es subs1 = (s2, out)" by (metis prod.collapse)
  from assms(2) [OF k] have "faithful (sb_buffer (subs1 ! k) @ published (sb_tenant (subs1 ! k)) es) out"
    by (simp add: l)
  then show ?thesis
    using Some x r l assms(1) by (cases "j = k") (auto intro: faithful_draw)
qed

lemma stream_loop_faithful:
  assumes "k < length subs"
  shows "faithful (sb_buffer (subs ! k) @ published (sb_tenant (subs ! k)) es) (snd (stream_loop k es subs))"
  using assms
proof (induction es arbitrary: k subs)
  case (Cons e es)
  show ?case
  proof (cases e)
    case (Published t data)
    then show ?thesis using stream_loop_published [OF Cons.prems Cons.IH] by simp
  next
    case (Opened t)
    with Cons.prems Cons.IH [of k "subscribe t subs"] show ?thesis by (simp add: subscribe_def nth_append)
  next
    case (Drawn j)
    then show ?thesis using stream_loop_drawn [OF Cons.prems Cons.IH] by simp
  next
    case (Left j)
    show ?thesis
    proof (cases "j = k \<or> \<not> j < length subs")
      case False
      note u = unsubscribe_nth [OF Cons.prems, of j]
      from False have "faithful (sb_buffer (subs ! k) @ published (sb_tenant (subs ! k)) es)
          (snd (stream_loop (if j < k then k - 1 else k) es (unsubscribe j subs)))"
        using Cons.IH [OF u(1)] u(2) by simp
      with False Left show ?thesis by simp
    qed (use Left Cons in auto)
  next
    case Beat
    with Cons show ?thesis by (simp add: Let_def split_def)
  qed
qed simp



end
