(* ===== verification/Background.thy ===== *)
theory Background
  imports Journey Webhooks "HOL-Library.Multiset"
begin

text \<open>
  The background loops of the Operations and Usage services. Each is a ticker whose ticks run
  one batch; a list of ticks, each with its time and the answers its calls get, is a finite
  prefix of such a loop. What the loops are for: the outbox drains, and the operations of
  crashed workers are taken back.
\<close>

section \<open>The loops\<close>

fun dispatchEvents ::
    "(int \<times> (OperationEvent \<Rightarrow> http_result) \<times> faults) list \<Rightarrow> database \<Rightarrow> database \<times> call list" where
  "dispatchEvents [] d = (d, [])"
| "dispatchEvents ((n, usage, f) # ticks) d =
     (let (d', c) = dispatchEventBatch n usage f d;
          (d'', cs) = dispatchEvents ticks d'
      in (d'', c @ cs))"

fun reapExpiredLeases ::
    "(int \<times> (nat \<Rightarrow> string) \<times> bool \<times> (nat \<Rightarrow> faults)) list \<Rightarrow> database \<Rightarrow> database \<times> call list" where
  "reapExpiredLeases [] d = (d, [])"
| "reapExpiredLeases ((n, g, q, f) # ticks) d =
     (let (d', c) = reapExpiredLeaseBatch n g q f d;
          (d'', cs) = reapExpiredLeases ticks d'
      in (d'', c @ cs))"

section \<open>The outbox drains\<close>

definition pending_events :: "database \<Rightarrow> event_row list" where
  "pending_events d = filter (\<lambda>e. eo_status e = ObPending) (event_outbox d)"

text \<open>A tick at which the Usage service accepts and no call fails, late enough for every retry.\<close>

definition good_tick :: "database \<Rightarrow> int \<times> (OperationEvent \<Rightarrow> http_result) \<times> faults \<Rightarrow> bool" where
  "good_tick d tick = (case tick of (n, usage, f) \<Rightarrow> (\<forall>k. \<not> f k) \<and> (\<forall>e. usage_error (usage e) = None) \<and>
     (\<forall>e\<in>set (pending_events d). eo_next_attempt_at e \<le> n))"

fun posted_key :: "call \<Rightarrow> string" where
  "posted_key (PostEvent ev) = ev_event_key ev" | "posted_key c = []"

lemma good_tick_effect:
  assumes "distinct (map eo_id (event_outbox d))" "good_tick d (n, usage, f)"
    and "dispatchEventBatch n usage f d = (d', cs)"
  shows "map eo_id (event_outbox d') = map eo_id (event_outbox d) \<and>
    map eo_event_key (event_outbox d') = map eo_event_key (event_outbox d) \<and>
    pending_events d' = filter (\<lambda>e. e \<notin> set (due_events n (event_outbox d))) (pending_events d) \<and>
    map posted_key cs = map eo_event_key (due_events n (event_outbox d)) \<and>
    mset (due_events n (event_outbox d)) + mset (pending_events d') = mset (pending_events d) \<and>
    length (due_events n (event_outbox d)) = min 20 (length (pending_events d))"
proof -
  let ?due = "due_events n (event_outbox d)"
  from assms(2) have f: "\<forall>k. \<not> f k" and ok: "\<And>e. usage_error (usage e) = None"
    and late: "\<forall>e\<in>set (pending_events d). eo_next_attempt_at e \<le> n" by (simp_all add: good_tick_def)
  from dispatch_batch_rows [OF assms(1) f, of n usage] assms(3) have
    box: "event_outbox d' = map (\<lambda>e. if e \<in> set ?due then dispatched n usage e else e) (event_outbox d)"
    and cs: "cs = map (\<lambda>x. PostEvent (event_of_row n x)) ?due" by simp_all
  have del: "eo_status (dispatched n usage e) = ObDelivered" "eo_event_key (dispatched n usage e) = eo_event_key e" for e
    using ok by (simp_all add: dispatched_def)
  have "filter (\<lambda>e. eo_status e = ObPending \<and> eo_next_attempt_at e \<le> n) (event_outbox d) = pending_events d"
    using late unfolding pending_events_def by (intro filter_cong) auto
  then have due: "?due = take 20 (sort_key eo_created_at (pending_events d))" by (simp add: due_events_def)
  have pend: "pending_events d' = filter (\<lambda>e. e \<notin> set ?due) (pending_events d)"
  proof -
    have "filter (\<lambda>e. eo_status e = ObPending) (map (\<lambda>e. if e \<in> S then dispatched n usage e else e) xs) =
        filter (\<lambda>e. e \<notin> S) (filter (\<lambda>e. eo_status e = ObPending) xs)" for S xs
      using del by (induction xs) auto
    then show ?thesis by (simp add: pending_events_def box)
  qed
  have dist: "distinct (sort_key eo_created_at (pending_events d))"
    using assms(1) by (simp add: pending_events_def distinct_map)
  have "mset (filter (\<lambda>e. e \<notin> set (take 20 xs)) xs) = mset (drop 20 xs)" if "distinct xs" for xs :: "event_row list"
  proof -
    have "filter (\<lambda>e. e \<notin> set (take 20 xs)) (take 20 xs @ drop 20 xs) = drop 20 xs"
      using that set_take_disj_set_drop_if_distinct [OF that, of 20 20]
      by (subst filter_append) (auto simp: filter_empty_conv filter_id_conv)
    then show ?thesis by simp
  qed
  from this [OF dist] have "mset (filter (\<lambda>e. e \<notin> set ?due) (sort_key eo_created_at (pending_events d))) =
      mset (drop 20 (sort_key eo_created_at (pending_events d)))" unfolding due .
  then have "mset (pending_events d') = mset (drop 20 (sort_key eo_created_at (pending_events d)))"
    by (simp only: pend mset_filter mset_sort)
  then have "mset ?due + mset (pending_events d') = mset (sort_key eo_created_at (pending_events d))"
    unfolding due by (metis append_take_drop_id mset_append)
  then have ms: "mset ?due + mset (pending_events d') = mset (pending_events d)" by simp
  have ids: "map eo_id (event_outbox d') = map eo_id (event_outbox d)"
    "map eo_event_key (event_outbox d') = map eo_event_key (event_outbox d)"
    using del by (simp_all add: box)
  have "map posted_key cs = map eo_event_key ?due" by (simp add: cs event_of_row_def)
  with ids pend ms show ?thesis by (simp add: due)
qed

text \<open>
  C38: The outbox drains. From any outbox, once the Usage service accepts events and the
  retry times have come, the dispatcher delivers everything: after enough ticks of 20 events
  each no event is pending, every pending event was posted exactly once on the way, and no
  row was dropped or changed its key.
\<close>
theorem outbox_drains:
  assumes "distinct (map eo_id (event_outbox d))" "\<forall>tick\<in>set ticks. good_tick d tick"
    and "length (pending_events d) \<le> 20 * length ticks" "dispatchEvents ticks d = (d', cs)"
  shows "pending_events d' = [] \<and> mset (map posted_key cs) = mset (map eo_event_key (pending_events d)) \<and>
    map eo_id (event_outbox d') = map eo_id (event_outbox d) \<and>
    map eo_event_key (event_outbox d') = map eo_event_key (event_outbox d)"
  using assms
proof (induction ticks arbitrary: d d' cs)
  case (Cons tick ticks)
  obtain n usage f where tick: "tick = (n, usage, f)" by (cases tick)
  obtain d1 c where b: "dispatchEventBatch n usage f d = (d1, c)" by (cases "dispatchEventBatch n usage f d")
  obtain d2 cs' where rest: "dispatchEvents ticks d1 = (d2, cs')" by (cases "dispatchEvents ticks d1")
  let ?due = "due_events n (event_outbox d)"
  have good: "good_tick d (n, usage, f)" using Cons.prems(2) tick by simp
  note eff = good_tick_effect [OF Cons.prems(1) good b]
  have dist: "distinct (map eo_id (event_outbox d1))" using eff Cons.prems(1) by simp
  have sub: "set (pending_events d1) \<subseteq> set (pending_events d)" using eff by auto
  have good1: "\<forall>tick\<in>set ticks. good_tick d1 tick"
    using Cons.prems(2) sub by (fastforce simp: good_tick_def)
  have len: "length ?due = min 20 (length (pending_events d))" using eff by blast
  have "size (mset ?due + mset (pending_events d1)) = size (mset (pending_events d))" using eff by metis
  then have "length ?due + length (pending_events d1) = length (pending_events d)"
    by (simp only: size_union size_mset)
  then have "length (pending_events d1) \<le> 20 * length ticks" using len Cons.prems(3) by simp
  from Cons.IH [OF dist good1 this rest] have
    IH: "pending_events d2 = []" "mset (map posted_key cs') = mset (map eo_event_key (pending_events d1))"
      "map eo_id (event_outbox d2) = map eo_id (event_outbox d1)"
      "map eo_event_key (event_outbox d2) = map eo_event_key (event_outbox d1)" by simp_all
  have out: "d' = d2" "cs = c @ cs'" using Cons.prems(4) b rest by (simp_all add: tick)
  have ms: "mset ?due + mset (pending_events d1) = mset (pending_events d)" using eff by blast
  have "mset (map eo_event_key ?due) + mset (map eo_event_key (pending_events d1)) =
      image_mset eo_event_key (mset ?due + mset (pending_events d1))" by simp
  also have "\<dots> = mset (map eo_event_key (pending_events d))" unfolding ms by simp
  finally have keys: "mset (map posted_key c) + mset (map posted_key cs') = mset (map eo_event_key (pending_events d))"
    using eff IH(2) by metis
  have "map eo_id (event_outbox d1) = map eo_id (event_outbox d)"
    "map eo_event_key (event_outbox d1) = map eo_event_key (event_outbox d)" using eff by blast+
  with IH keys show ?case by (simp add: out)
qed simp

theorem outbox_drains_witness:
  "\<exists>d' cs. dispatchEvents [(5, \<lambda>e. HttpResponse 202 [], no_faults)]
      ((sample_db [])\<lparr>event_outbox := [sample_event]\<rparr>) = (d', cs) \<and>
    pending_events d' = [] \<and> map eo_id (event_outbox d') = [''g1'']"
proof -
  let ?d = "(sample_db [])\<lparr>event_outbox := [sample_event]\<rparr>"
  let ?ticks = "[(5, \<lambda>e. HttpResponse 202 [], no_faults)] :: (int \<times> (OperationEvent \<Rightarrow> http_result) \<times> faults) list"
  obtain d' cs where run: "dispatchEvents ?ticks ?d = (d', cs)" by (cases "dispatchEvents ?ticks ?d")
  have "distinct (map eo_id (event_outbox ?d))" "\<forall>tick\<in>set ?ticks. good_tick ?d tick"
    "length (pending_events ?d) \<le> 20 * length ?ticks"
    by (simp_all add: good_tick_def usage_error_def is_2xx_def pending_events_def sample_event_def new_event_def)
  from outbox_drains [OF this run] run show ?thesis by (simp add: sample_event_def new_event_def)
qed

section \<open>Expired leases are recovered\<close>

text \<open>What the reaper makes of the row of an expired lease.\<close>

definition reaped :: "int \<Rightarrow> op_row \<Rightarrow> op_row" where
  "reaped n r = r\<lparr>status := (if attempt r \<ge> max_attempts r then DeadLettered else Retrying),
     error_code := Some ''LEASE_EXPIRED'',
     error_message := Some (if attempt r \<ge> max_attempts r then ''worker lease expired''
       else ''worker lease expired; operation requeued''),
     lease_owner := None, lease_expires_at := None, updated_at := n, version := version r + 1\<rparr>"

definition reap_calls :: "int \<Rightarrow> op_row \<Rightarrow> call list" where
  "reap_calls n r = (if attempt r \<ge> max_attempts r then [] else [recovery_call n (scan_envelope r)])"

definition dead_key :: "op_row \<Rightarrow> string" where
  "dead_key r = event_key (op_id r) ''operation.dead_lettered'' (attempt r)"

lemma reap_one:
  assumes "ops_inv d" "lookup_op d (op_id r) = Some r" "status r = Running" "lease_expired n r"
    and "g \<notin> eo_id ` set (event_outbox d)"
  obtains d' where "reap_item n g no_faults (scan_envelope r) d = (d', reap_calls n r)" "ops_inv d'"
    "lookup_op d' (op_id r) = Some (reaped n r)" "\<forall>j. j = op_id r \<or> lookup_op d' j = lookup_op d j"
    "eo_id ` set (event_outbox d') \<subseteq> insert g (eo_id ` set (event_outbox d))"
    "eo_event_key ` set (event_outbox d) \<subseteq> eo_event_key ` set (event_outbox d')"
    "attempt r < max_attempts r \<or> dead_key r \<in> eo_event_key ` set (event_outbox d')"
proof -
  have env: "env_attempt (scan_envelope r) = attempt r" "env_max_attempts (scan_envelope r) = max_attempts r"
    "env_operation_id (scan_envelope r) = op_id r" by (simp_all add: scan_envelope_def)
  have dist: "distinct (map op_id (operations d))" using assms(1) by (rule inv_distinct)
  have keep: "ops_inv (fst (reap_item n g no_faults (scan_envelope r) d))"
    by (rule steps_keep_inv [OF reap_item_steps assms(1)])
  show ?thesis
  proof (cases "attempt r \<ge> max_attempts r")
    case True
    let ?s = "reap_dead_stmt n (op_id r)"
    have "st_where ?s r" using assms by (simp add: reap_dead_stmt_def)
    from reaping_dead.exec_hit [OF dist assms(2) this] have
      hit: "snd (exec_stmt ?s d) = 1" "lookup_op (fst (exec_stmt ?s d)) (op_id r) = Some (st_set ?s r)"
        "\<forall>j. j = op_id r \<or> lookup_op (fst (exec_stmt ?s d)) j = lookup_op d j" by auto
    have box: "event_outbox (fst (exec_stmt ?s d)) = event_outbox d" by (rule reaping_dead.frame_exec)
    let ?e = "new_event n g (dead_key r) ''operation.dead_lettered'' (op_id r) (env_tenant_id (scan_envelope r)) reap_payload"
    let ?d = "put_event ?e (fst (exec_stmt ?s d))"
    have e: "eo_id ?e = g" "eo_event_key ?e = dead_key r" by (simp_all add: new_event_def)
    have run: "reap_item n g no_faults (scan_envelope r) d = (?d, reap_calls n r)"
      using True hit(1) assms(5) by (simp add: reap_item_def env split_def Let_def insertEvent_def box dead_key_def reap_calls_def)
    have look: "lookup_op ?d j = lookup_op (fst (exec_stmt ?s d)) j" for j
      by (simp add: put_event_def lookup_op_def)
    show ?thesis
    proof (rule that [OF run])
      show "ops_inv ?d" using keep by (simp add: run)
      show "lookup_op ?d (op_id r) = Some (reaped n r)"
        using hit(2) True by (simp add: look) (simp add: reap_dead_stmt_def row_defs reaped_def)
      show "\<forall>j. j = op_id r \<or> lookup_op ?d j = lookup_op d j" using hit(3) look by simp
    qed (use e in \<open>auto simp: put_event_def insert_new_def box\<close>)
  next
    case False
    let ?s = "reap_retry_stmt n (op_id r)"
    have "st_where ?s r" using assms by (simp add: reap_retry_stmt_def)
    from reaping_retry.exec_hit [OF dist assms(2) this] have
      hit: "snd (exec_stmt ?s d) = 1" "lookup_op (fst (exec_stmt ?s d)) (op_id r) = Some (st_set ?s r)"
        "\<forall>j. j = op_id r \<or> lookup_op (fst (exec_stmt ?s d)) j = lookup_op d j" by auto
    have box: "event_outbox (fst (exec_stmt ?s d)) = event_outbox d" by (rule reaping_retry.frame_exec)
    have run: "reap_item n g no_faults (scan_envelope r) d = (fst (exec_stmt ?s d), reap_calls n r)"
      using False hit(1) by (simp add: reap_item_def env split_def Let_def reap_calls_def)
    show ?thesis
    proof (rule that [OF run])
      show "ops_inv (fst (exec_stmt ?s d))" using keep by (simp add: run)
      show "lookup_op (fst (exec_stmt ?s d)) (op_id r) = Some (reaped n r)"
        using hit(2) False by simp (simp add: reap_retry_stmt_def row_defs reaped_def)
      show "\<forall>j. j = op_id r \<or> lookup_op (fst (exec_stmt ?s d)) j = lookup_op d j" by (rule hit(3))
    qed (use False in \<open>auto simp: box\<close>)
  qed
qed

lemma reap_rows:
  assumes "ops_inv d" "distinct (map op_id rs)"
    and "\<forall>r\<in>set rs. lookup_op d (op_id r) = Some r \<and> status r = Running \<and> lease_expired n r"
    and "inj g" "\<forall>j\<ge>k. g j \<notin> eo_id ` set (event_outbox d)"
    and "reap_items n g (\<lambda>k. no_faults) k (map scan_envelope rs) d = (d', cs)"
  shows "ops_inv d' \<and> cs = concat (map (reap_calls n) rs) \<and>
    (\<forall>r\<in>set rs. lookup_op d' (op_id r) = Some (reaped n r)) \<and>
    (\<forall>j. j \<in> op_id ` set rs \<or> lookup_op d' j = lookup_op d j) \<and>
    (\<forall>r\<in>set rs. attempt r < max_attempts r \<or> dead_key r \<in> eo_event_key ` set (event_outbox d')) \<and>
    eo_event_key ` set (event_outbox d) \<subseteq> eo_event_key ` set (event_outbox d')"
  using assms
proof (induction rs arbitrary: d k d' cs)
  case (Cons r rs)
  have r: "lookup_op d (op_id r) = Some r" "status r = Running" "lease_expired n r"
    and g: "g k \<notin> eo_id ` set (event_outbox d)" using Cons.prems(3,5) by simp_all
  obtain d1 where one: "reap_item n (g k) no_faults (scan_envelope r) d = (d1, reap_calls n r)" "ops_inv d1"
    "lookup_op d1 (op_id r) = Some (reaped n r)" "\<forall>j. j = op_id r \<or> lookup_op d1 j = lookup_op d j"
    "eo_id ` set (event_outbox d1) \<subseteq> insert (g k) (eo_id ` set (event_outbox d))"
    "eo_event_key ` set (event_outbox d) \<subseteq> eo_event_key ` set (event_outbox d1)"
    "attempt r < max_attempts r \<or> dead_key r \<in> eo_event_key ` set (event_outbox d1)"
    by (rule reap_one [OF Cons.prems(1) r g])
  obtain d2 cs2 where rest: "reap_items n g (\<lambda>k. no_faults) (Suc k) (map scan_envelope rs) d1 = (d2, cs2)"
    by (cases "reap_items n g (\<lambda>k. no_faults) (Suc k) (map scan_envelope rs) d1")
  have nr: "op_id r \<notin> op_id ` set rs" and dist: "distinct (map op_id rs)" using Cons.prems(2) by auto
  have rows: "\<forall>x\<in>set rs. lookup_op d1 (op_id x) = Some x \<and> status x = Running \<and> lease_expired n x"
    using Cons.prems(3) one(4) nr by (metis image_eqI list.set_intros(2))
  have ids: "\<forall>j\<ge>Suc k. g j \<notin> eo_id ` set (event_outbox d1)"
  proof (intro allI impI)
    fix j assume "j \<ge> Suc k"
    then have "g j \<noteq> g k" "g j \<notin> eo_id ` set (event_outbox d)"
      using Cons.prems(4,5) by (auto dest: injD)
    then show "g j \<notin> eo_id ` set (event_outbox d1)" using one(5) by blast
  qed
  note IH = Cons.IH [OF one(2) dist rows Cons.prems(4) ids rest]
  have out: "d' = d2" "cs = reap_calls n r @ cs2" using Cons.prems(6)
    unfolding list.map reap_items.simps one(1) Let_def prod.case rest by simp_all
  have "lookup_op d2 (op_id r) = Some (reaped n r)" using IH nr one(3) by metis
  with IH one(4,6,7) show ?case unfolding out by (auto simp: subset_iff) (metis)+
qed simp

lemma expired_rows_facts:
  assumes "ops_inv d"
  shows "distinct (map op_id (expired_rows n (operations d)))"
    and "\<forall>r\<in>set (expired_rows n (operations d)). lookup_op d (op_id r) = Some r \<and> status r = Running \<and> lease_expired n r"
    and "count_where (\<lambda>r. status r = Running \<and> lease_expired n r) (operations d) \<le> 50 \<Longrightarrow>
      set (expired_rows n (operations d)) = {r \<in> set (operations d). status r = Running \<and> lease_expired n r}"
proof -
  let ?k = "\<lambda>r. case lease_expires_at r of None \<Rightarrow> 0 | Some e \<Rightarrow> e"
  let ?xs = "sort_key ?k (filter (\<lambda>r. status r = Running \<and> lease_expired n r) (operations d))"
  have "distinct (map op_id ?xs)" using inv_distinct [OF assms] by (simp add: distinct_map inj_on_def)
  then show "distinct (map op_id (expired_rows n (operations d)))"
    unfolding expired_rows_def take_map [symmetric] by (rule distinct_take)
  show "\<forall>r\<in>set (expired_rows n (operations d)). lookup_op d (op_id r) = Some r \<and> status r = Running \<and> lease_expired n r"
    using lookup_op_in [OF inv_distinct [OF assms]] by (auto simp: expired_rows_def dest!: in_set_takeD)
  show "set (expired_rows n (operations d)) = {r \<in> set (operations d). status r = Running \<and> lease_expired n r}"
    if "count_where (\<lambda>r. status r = Running \<and> lease_expired n r) (operations d) \<le> 50"
    using that by (auto simp: expired_rows_def count_where_def)
qed

lemma reaped_fields [simp]:
  "identity (reaped n r) = identity r" "op_id (reaped n r) = op_id r" "attempt (reaped n r) = attempt r"
  "lease_owner (reaped n r) = None" "error_code (reaped n r) = Some ''LEASE_EXPIRED''"
  "status (reaped n r) = (if attempt r < max_attempts r then Retrying else DeadLettered)"
  by (simp_all add: reaped_def identity_def)

lemma reap_calls_all:
  "concat (map (reap_calls n) rs) =
     map (\<lambda>r. recovery_call n (scan_envelope r)) (filter (\<lambda>r. attempt r < max_attempts r) rs)"
  by (induction rs) (auto simp: reap_calls_def)

lemma none_left_expired:
  assumes "ops_inv d" "ops_inv d'"
    and "\<forall>r\<in>set (expired_rows n (operations d)). lookup_op d' (op_id r) = Some (reaped n r)"
    and "\<forall>j. j \<in> op_id ` set (expired_rows n (operations d)) \<or> lookup_op d' j = lookup_op d j"
    and "count_where (\<lambda>r. status r = Running \<and> lease_expired n r) (operations d) \<le> 50"
    and "r \<in> set (operations d')" "status r = Running"
  shows "\<not> lease_expired n r"
proof -
  let ?rs = "expired_rows n (operations d)"
  have look: "lookup_op d' (op_id r) = Some r" using lookup_op_in [OF inv_distinct [OF assms(2)] assms(6)] .
  show ?thesis
  proof (cases "op_id r \<in> op_id ` set ?rs")
    case True
    with look assms(3) have "\<exists>y. r = reaped n y" by auto
    with assms(7) show ?thesis by (auto simp: reaped_def split: if_splits)
  next
    case False
    with look assms(4) have "r \<in> set (operations d)" using lookup_op_Some by metis
    with False expired_rows_facts(3) [OF assms(1,5)] assms(7) show ?thesis by blast
  qed
qed

text \<open>
  C37: The reaper takes back what crashed workers hold. One batch without failures moves each
  operation it picks (all whose lease expired, up to 50) out of \<open>RUNNING\<close>: to \<open>RETRYING\<close>, with
  exactly one recovery workflow started for its envelope, while attempts are left, otherwise
  to \<open>DEAD_LETTERED\<close> with its event in the outbox. The attempt count and the submitted
  columns stay, every other operation keeps its row, and afterwards, if no more than 50 had
  expired, no operation runs under an expired lease.
\<close>
theorem expired_leases_recovered:
  assumes "ops_inv d" "inj g" "\<forall>k. g k \<notin> eo_id ` set (event_outbox d)"
    and "reapExpiredLeaseBatch n g False (\<lambda>k. no_faults) d = (d', cs)"
  shows "(\<forall>r\<in>set (expired_rows n (operations d)). \<exists>x. lookup_op d' (op_id r) = Some x \<and>
      identity x = identity r \<and> attempt x = attempt r \<and> lease_owner x = None \<and>
      error_code x = Some ''LEASE_EXPIRED'' \<and>
      (if attempt r < max_attempts r then status x = Retrying
       else status x = DeadLettered \<and>
         event_key (op_id r) ''operation.dead_lettered'' (attempt r) \<in> eo_event_key ` set (event_outbox d'))) \<and>
    cs = map (\<lambda>r. recovery_call n (scan_envelope r))
      (filter (\<lambda>r. attempt r < max_attempts r) (expired_rows n (operations d))) \<and>
    (\<forall>r\<in>set (operations d) - set (expired_rows n (operations d)). lookup_op d' (op_id r) = Some r) \<and>
    (50 < count_where (\<lambda>r. status r = Running \<and> lease_expired n r) (operations d) \<or>
      (\<forall>r\<in>set (operations d'). status r = Running \<longrightarrow> \<not> lease_expired n r))"
proof -
  let ?rs = "expired_rows n (operations d)"
  note ex = expired_rows_facts [OF assms(1), of n]
  have g: "\<forall>j\<ge>0. g j \<notin> eo_id ` set (event_outbox d)" using assms(3) by simp
  have run: "reap_items n g (\<lambda>k. no_faults) 0 (map scan_envelope ?rs) d = (d', cs)"
    using assms(4) by (simp only: reapExpiredLeaseBatch_def if_False)
  note eff = reap_rows [OF assms(1) ex(1,2) assms(2) g run]
  have rows: "\<exists>x. lookup_op d' (op_id r) = Some x \<and> identity x = identity r \<and> attempt x = attempt r \<and>
      lease_owner x = None \<and> error_code x = Some ''LEASE_EXPIRED'' \<and>
      (if attempt r < max_attempts r then status x = Retrying else status x = DeadLettered \<and>
         event_key (op_id r) ''operation.dead_lettered'' (attempt r) \<in> eo_event_key ` set (event_outbox d'))"
    if "r \<in> set ?rs" for r
    using eff that by (intro exI [of _ "reaped n r"]) (auto simp: dead_key_def)
  have others: "lookup_op d' (op_id r) = Some r" if "r \<in> set (operations d) - set ?rs" for r
  proof -
    have look: "lookup_op d (op_id r) = Some r" using lookup_op_in [OF inv_distinct [OF assms(1)]] that by simp
    then have "op_id r \<notin> op_id ` set ?rs" using ex(2) that by force
    with eff look show ?thesis by metis
  qed
  have "\<forall>r\<in>set (operations d'). status r = Running \<longrightarrow> \<not> lease_expired n r"
    if "count_where (\<lambda>r. status r = Running \<and> lease_expired n r) (operations d) \<le> 50"
    using none_left_expired [OF assms(1) _ _ _ that] eff by blast
  with rows others eff show ?thesis unfolding reap_calls_all [symmetric] by (meson not_le)
qed

theorem expired_leases_recovered_witness:
  "\<exists>x. lookup_op (fst (reapExpiredLeaseBatch 99 (\<lambda>k. replicate k CHR ''g'') False (\<lambda>k. no_faults)
      (sample_db [sample_op Running 1 (Some (''w'', 50))]))) ''op1'' = Some x \<and>
    status x = Retrying \<and> attempt x = 1 \<and> lease_owner x = None"
proof -
  let ?r = "sample_op Running 1 (Some (''w'', 50))" and ?g = "\<lambda>k. replicate k CHR ''g''"
  let ?d = "sample_db [?r]"
  let ?b = "reapExpiredLeaseBatch 99 ?g False (\<lambda>k. no_faults) ?d"
  have inv: "ops_inv ?d" by (simp add: ops_inv_def sample_defs wf_row_def statuses_def)
  have inj: "inj ?g" by (rule injI) (metis length_replicate)
  have fresh: "\<forall>k. ?g k \<notin> eo_id ` set (event_outbox ?d)" by (simp add: sample_defs)
  have b: "?b = (fst ?b, snd ?b)" by simp
  have mem: "?r \<in> set (expired_rows 99 (operations ?d))"
    by (simp add: expired_rows_def sample_db_def) (simp add: sample_op_def lease_expired_def)
  have f: "op_id ?r = ''op1''" "attempt ?r < max_attempts ?r" "attempt ?r = 1" by (simp_all add: sample_op_def)
  from bspec [OF conjunct1 [OF expired_leases_recovered [OF inv inj fresh b]] mem]
  show ?thesis unfolding if_P [OF f(2)] unfolding f(1,3) by (elim exE conjE) (intro exI conjI)
qed

end
