(* ===== verification/Startup.thy ===== *)
theory Startup
  imports Config Loops Services Background
begin

text \<open>
  \<open>internal/platform/resources.go\<close> and the \<open>main\<close> functions: how each process opens its
  connections, what it starts, and in which order it gives everything back when a step
  fails. Go runs the deferred calls when \<open>main\<close> returns or panics, not when the process
  exits. The errors the libraries return are arguments.
\<close>

section \<open>Connections\<close>

datatype startup_event =
  OpenPool string | ClosePool
| OpenClient string | CloseClient
| NewDBOS string | RegisterWorkflow | LaunchDBOS | ShutdownDBOS
| CreateGroup string string
| HandleSignals | StopSignals
| WithCancel | CancelContext
| Spawn string
| Listen string
| RunLoop

datatype main_ending = MainReturned | MainPanicked | MainExited int

text \<open>\<open>OpenDB\<close> and \<open>OpenRedis\<close>: a connection that does not answer the ping is closed again.\<close>

definition OpenDB :: "string \<Rightarrow> string option \<Rightarrow> string option \<Rightarrow> startup_event list \<times> string option" where
  "OpenDB url new_err ping_err = (case new_err of
      Some e \<Rightarrow> ([], Some (''create postgres pool: '' @ e))
    | None \<Rightarrow> (case ping_err of
        Some e \<Rightarrow> ([OpenPool url, ClosePool], Some (''ping postgres: '' @ e))
      | None \<Rightarrow> ([OpenPool url], None)))"

definition OpenRedis :: "string \<Rightarrow> string option \<Rightarrow> string option \<Rightarrow> startup_event list \<times> string option" where
  "OpenRedis url parse_err ping_err = (case parse_err of
      Some e \<Rightarrow> ([], Some (''parse redis URL: '' @ e))
    | None \<Rightarrow> (case ping_err of
        Some e \<Rightarrow> ([OpenClient url, CloseClient], Some (''ping redis: '' @ e))
      | None \<Rightarrow> ([OpenClient url], None)))"

section \<open>Deferred calls\<close>

type_synonym startup = "startup_event list \<times> main_ending"

definition deferring :: "startup_event \<Rightarrow> startup \<Rightarrow> startup" where
  "deferring e rest = (case rest of (es, fin) \<Rightarrow>
     (es @ (case fin of MainExited code \<Rightarrow> [] | _ \<Rightarrow> [e]), fin))"

text \<open>A step that panics on an error, and otherwise goes on with the rest.\<close>

definition checked :: "startup_event list \<times> string option \<Rightarrow> startup \<Rightarrow> startup" where
  "checked step rest = (case step of
      (es, Some e) \<Rightarrow> (es, MainPanicked)
    | (es, None) \<Rightarrow> (es @ fst rest, snd rest))"

text \<open>\<open>Start\<close>: what \<open>e.Start\<close> returned, if it returned an error other than a closed server.\<close>

datatype serve_result = ServerClosed | ServerFailed string

definition Start :: "string \<Rightarrow> serve_result \<Rightarrow> startup" where
  "Start port r = ([Listen ('':'' @ port)],
     case r of ServerClosed \<Rightarrow> MainReturned | ServerFailed e \<Rightarrow> MainExited 1)"

definition str_contains :: "string \<Rightarrow> string \<Rightarrow> bool" where
  "str_contains s sub = list_ex (\<lambda>i. take (length sub) (drop i s) = sub) [0..<Suc (length s)]"

definition ensureConsumerGroup :: "string option \<Rightarrow> startup_event list \<times> string option" where
  "ensureConsumerGroup err = ([CreateGroup ''nexora:operations'' ''workers''],
     case err of None \<Rightarrow> None | Some e \<Rightarrow> if str_contains e ''BUSYGROUP'' then None else Some e)"

section \<open>The main functions\<close>

text \<open>What the libraries answer while a process starts.\<close>

record boot =
  bt_pool :: "string option"
  bt_ping :: "string option"
  bt_redis_url :: "string option"
  bt_redis_ping :: "string option"
  bt_dbos :: "string option"
  bt_launch :: "string option"
  bt_group :: "string option"
  bt_serve :: serve_result

definition open_db :: "Config \<Rightarrow> boot \<Rightarrow> startup_event list \<times> string option" where
  "open_db c b = OpenDB (cf_database_url c) (bt_pool b) (bt_ping b)"

definition open_redis :: "Config \<Rightarrow> boot \<Rightarrow> startup_event list \<times> string option" where
  "open_redis c b = OpenRedis (cf_redis_url c) (bt_redis_url b) (bt_redis_ping b)"

text \<open>A launch that fails leaves nothing to shut down.\<close>

definition launch_dbos :: "boot \<Rightarrow> startup_event list \<times> string option" where
  "launch_dbos b = (RegisterWorkflow # (if bt_launch b = None then [LaunchDBOS] else []), bt_launch b)"

definition operations_main :: "Config \<Rightarrow> boot \<Rightarrow> startup" where
  "operations_main c b =
     checked (open_db c b) (deferring ClosePool
       (checked (open_redis c b) (deferring CloseClient
         (checked ([NewDBOS (cf_dbos_database_url c)], bt_dbos b)
           (checked (launch_dbos b) (deferring ShutdownDBOS
             (checked (ensureConsumerGroup (bt_group b))
               (checked ([Spawn ''dispatchEvents'', Spawn ''reapExpiredLeases''], None)
                 (Start (cf_port c) (bt_serve b))))))))))"

text \<open>The Access service seeds its tables first; \<open>seeded\<close> is the outcome of \<open>bootstrap\<close>.\<close>

definition access_main :: "Config \<Rightarrow> boot \<Rightarrow> database option \<Rightarrow> startup" where
  "access_main c b seeded =
     checked (open_db c b) (deferring ClosePool
       (case seeded of None \<Rightarrow> ([], MainPanicked) | Some d \<Rightarrow> Start (cf_port c) (bt_serve b)))"

definition usage_main :: "Config \<Rightarrow> boot \<Rightarrow> startup" where
  "usage_main c b =
     checked (open_db c b) (deferring ClosePool
       (checked ([WithCancel], None) (deferring CancelContext
         (checked ([Spawn ''dispatchLoop''], None) (Start (cf_port c) (bt_serve b))))))"

text \<open>The gateway parses the addresses of its three services; \<open>bad\<close> are those that fail.\<close>

definition gateway_main :: "Config \<Rightarrow> boot \<Rightarrow> (string \<Rightarrow> bool) \<Rightarrow> startup" where
  "gateway_main c b bad =
     checked (open_redis c b) (deferring CloseClient
       (if bad (cf_access_url c) \<or> bad (cf_operations_url c) \<or> bad (cf_usage_url c)
        then ([], MainPanicked) else Start (cf_port c) (bt_serve b)))"

text \<open>
  The cloud worker ends with the error its loop returns, if it returns; only a cancelled
  context is no reason to panic.
\<close>

definition worker_main :: "Config \<Rightarrow> boot \<Rightarrow> run_error \<Rightarrow> startup" where
  "worker_main c b err =
     checked ([HandleSignals], None) (deferring StopSignals
       (checked (open_redis c b) (deferring CloseClient
         ([RunLoop], case err of RunCancelled \<Rightarrow> MainReturned | RunFailed e \<Rightarrow> MainPanicked))))"

definition agent_main :: "string \<Rightarrow> string \<Rightarrow> environment \<Rightarrow> startup" where
  "agent_main hostname u g =
     checked ([HandleSignals], None) (deferring StopSignals
       (case agent_config hostname u g of None \<Rightarrow> ([], MainPanicked) | Some cfg \<Rightarrow> ([RunLoop], MainReturned)))"

section \<open>What is still open\<close>

fun close_of :: "startup_event \<Rightarrow> startup_event option" where
  "close_of (OpenPool url) = Some ClosePool"
| "close_of (OpenClient url) = Some CloseClient"
| "close_of LaunchDBOS = Some ShutdownDBOS"
| "close_of HandleSignals = Some StopSignals"
| "close_of WithCancel = Some CancelContext"
| "close_of _ = None"

definition is_close :: "startup_event \<Rightarrow> bool" where
  "is_close e = (e \<in> {ClosePool, CloseClient, ShutdownDBOS, StopSignals, CancelContext})"

text \<open>
  The closing calls that are due after a sequence of events, the next one first; \<open>None\<close> when
  something was closed that was not the last one opened.
\<close>

fun due_after :: "startup_event list \<Rightarrow> startup_event list \<Rightarrow> startup_event list option" where
  "due_after due [] = Some due"
| "due_after due (e # es) = (case close_of e of
      Some c \<Rightarrow> due_after (c # due) es
    | None \<Rightarrow> if is_close e then (case due of [] \<Rightarrow> None
                  | c # rest \<Rightarrow> if c = e then due_after rest es else None)
              else due_after due es)"

lemma due_after_append: "due_after due (es @ es') = Option.bind (due_after due es) (\<lambda>due'. due_after due' es')"
  by (induction due es rule: due_after.induct) (auto split: option.split list.split)

text \<open>A part of a main function that closes what it opened, unless the process exits.\<close>

definition tidy :: "startup \<Rightarrow> bool" where
  "tidy p = (\<forall>due. \<exists>left. due_after due (fst p) = Some (left @ due) \<and> (left = [] \<or> (\<exists>code. snd p = MainExited code)))"

definition opens :: "startup_event list \<times> string option \<Rightarrow> startup_event \<Rightarrow> bool" where
  "opens step c = (is_close c \<and> (\<forall>due. due_after due (fst step) = Some (if snd step = None then c # due else due)))"

lemma close_of_close [simp]: "is_close c \<Longrightarrow> close_of c = None"
  by (auto simp: is_close_def)

lemma tidy_deferring:
  assumes "opens step c" "tidy rest"
  shows "tidy (checked step (deferring c rest))"
proof -
  obtain es err where step: "step = (es, err)" by (cases step)
  obtain es' fin where rest: "rest = (es', fin)" by (cases rest)
  show ?thesis
  proof (cases err)
    case None
    have "\<exists>left. due_after due (es @ es' @ (case fin of MainExited code \<Rightarrow> [] | _ \<Rightarrow> [c])) = Some (left @ due) \<and>
        (left = [] \<or> (\<exists>code. fin = MainExited code))" for due
    proof -
      from assms(2) rest obtain left where l: "due_after (c # due) es' = Some (left @ c # due)"
        "left = [] \<or> (\<exists>code. fin = MainExited code)" by (fastforce simp: tidy_def)
      have "is_close c" "due_after due es = Some (c # due)" using assms(1) step None by (auto simp: opens_def)
      with l show ?thesis by (cases fin) (auto simp: due_after_append)
    qed
    with step rest None show ?thesis by (simp add: tidy_def checked_def deferring_def)
  next
    case (Some e)
    with assms(1) step show ?thesis by (auto simp: tidy_def checked_def opens_def)
  qed
qed

definition quiet :: "startup_event list \<times> string option \<Rightarrow> bool" where
  "quiet step = (\<forall>due. due_after due (fst step) = Some due)"

lemma tidy_checked: "quiet step \<Longrightarrow> tidy rest \<Longrightarrow> tidy (checked step rest)"
  by (cases step) (auto simp: tidy_def quiet_def checked_def due_after_append split: option.split)

lemma quiet_steps: "quiet ([NewDBOS url], err)" "quiet (ensureConsumerGroup err)"
  "quiet ([Spawn a], None)" "quiet ([Spawn a, Spawn b], None)"
  by (simp_all add: quiet_def ensureConsumerGroup_def is_close_def)

lemma tidy_ends: "tidy ([], fin)" "tidy ([RunLoop], fin)"
  by (simp_all add: tidy_def is_close_def)

lemma tidy_Start [simp]: "tidy (Start port r)"
  by (simp add: tidy_def Start_def is_close_def)

lemma opens_connections [simp]: "opens (open_db c b) ClosePool" "opens (open_redis c b) CloseClient"
  "opens (launch_dbos b) ShutdownDBOS" "opens ([HandleSignals], None) StopSignals" "opens ([WithCancel], None) CancelContext"
  by (auto simp: opens_def open_db_def OpenDB_def open_redis_def OpenRedis_def launch_dbos_def is_close_def
      split: option.split)

lemmas tidy_intros = opens_connections [THEN tidy_deferring] quiet_steps [THEN tidy_checked] tidy_Start tidy_ends

lemma mains_tidy:
  "tidy (operations_main c b)" "tidy (access_main c b seeded)" "tidy (usage_main c b)"
  "tidy (gateway_main c b bad)" "tidy (worker_main c b err)" "tidy (agent_main hostname u g)"
  unfolding operations_main_def access_main_def usage_main_def gateway_main_def worker_main_def agent_main_def
  by (auto intro!: tidy_intros split: option.split)

section \<open>Every process gives back what it opened\<close>

definition serves :: "startup \<Rightarrow> bool" where
  "serves p = list_ex (\<lambda>e. case e of Listen a \<Rightarrow> True | _ \<Rightarrow> False) (fst p)"

definition connected_db :: "boot \<Rightarrow> bool" where
  "connected_db b = (bt_pool b = None \<and> bt_ping b = None)"

definition connected_redis :: "boot \<Rightarrow> bool" where
  "connected_redis b = (bt_redis_url b = None \<and> bt_redis_ping b = None)"

lemma serves_checked [simp]:
  "list_ex (\<lambda>e. case e of Listen a \<Rightarrow> True | _ \<Rightarrow> False) (fst step) = False \<Longrightarrow>
     serves (checked step rest) = (snd step = None \<and> serves rest)"
  by (cases step) (auto simp: serves_def checked_def split: option.split)

lemma serves_deferring [simp]: "is_close e \<Longrightarrow> serves (deferring e rest) = serves rest"
  by (cases rest) (auto simp: serves_def deferring_def is_close_def split: main_ending.split)

lemma serves_Start [simp]: "serves (Start port r)"
  by (simp add: serves_def Start_def)

lemma serves_connections [simp]:
  "list_ex (\<lambda>e. case e of Listen a \<Rightarrow> True | _ \<Rightarrow> False) (fst (open_db c b)) = False"
  "list_ex (\<lambda>e. case e of Listen a \<Rightarrow> True | _ \<Rightarrow> False) (fst (open_redis c b)) = False"
  "list_ex (\<lambda>e. case e of Listen a \<Rightarrow> True | _ \<Rightarrow> False) (fst (launch_dbos b)) = False"
  "list_ex (\<lambda>e. case e of Listen a \<Rightarrow> True | _ \<Rightarrow> False) (fst (ensureConsumerGroup err)) = False"
  "snd (open_db c b) = None \<longleftrightarrow> connected_db b" "snd (open_redis c b) = None \<longleftrightarrow> connected_redis b"
  "snd (launch_dbos b) = bt_launch b"
  by (auto simp: open_db_def OpenDB_def open_redis_def OpenRedis_def launch_dbos_def ensureConsumerGroup_def
      connected_db_def connected_redis_def split: option.split)

lemma operations_serves:
  "serves (operations_main c b) \<longleftrightarrow> connected_db b \<and> connected_redis b \<and> bt_dbos b = None \<and>
     bt_launch b = None \<and> snd (ensureConsumerGroup (bt_group b)) = None"
  by (auto simp: operations_main_def is_close_def)

lemma others_serve:
  "serves (access_main c b seeded) \<longleftrightarrow> connected_db b \<and> seeded \<noteq> None"
  "serves (usage_main c b) \<longleftrightarrow> connected_db b"
  "serves (gateway_main c b bad) \<longleftrightarrow> connected_redis b \<and>
     \<not> (bad (cf_access_url c) \<or> bad (cf_operations_url c) \<or> bad (cf_usage_url c))"
  by (auto simp: access_main_def usage_main_def gateway_main_def is_close_def serves_def [of "([], fin)" for fin]
      split: option.split)

lemma exit_serves: "snd (operations_main c b) = MainExited k \<Longrightarrow>
    due_after [] (fst (operations_main c b)) = Some [ShutdownDBOS, CloseClient, ClosePool]"
  by (auto simp: operations_main_def checked_def deferring_def open_db_def OpenDB_def open_redis_def OpenRedis_def
      launch_dbos_def ensureConsumerGroup_def Start_def is_close_def
      split: option.splits if_splits serve_result.splits main_ending.splits)


definition sample_boot :: boot where
  "sample_boot = \<lparr>bt_pool = None, bt_ping = None, bt_redis_url = None, bt_redis_ping = Some ''refused'',
     bt_dbos = None, bt_launch = None, bt_group = Some ''BUSYGROUP exists'', bt_serve = ServerClosed\<rparr>"


end
