(* ===== verification/Chat.thy ===== *)
theory Chat
  imports Config
begin

text \<open>
  The requests to the AI provider: the gateway's assistant and the explanations of the two
  workers post the same kind of JSON body, with a model and two messages. The model of the
  handlers names such a request by its model and prompt; here is the text that is sent.
\<close>

record ai_request =
  ar_url :: string
  ar_headers :: header
  ar_body :: string

definition openrouter_url :: string where
  "openrouter_url = ''https://openrouter.ai/api/v1/chat/completions''"

text \<open>\<open>json.Marshal\<close> writes the keys of a map in order.\<close>

definition chat_message :: "string \<Rightarrow> string \<Rightarrow> string" where
  "chat_message role content = json_object [(''content'', json_quote content), (''role'', json_quote role)]"

definition chat_body :: "string \<Rightarrow> int \<Rightarrow> string \<Rightarrow> string \<Rightarrow> string" where
  "chat_body system tokens model prompt = json_object [
     (''max_tokens'', itoa tokens),
     (''messages'', json_array [chat_message ''system'' system, chat_message ''user'' prompt]),
     (''model'', json_quote model), (''temperature'', ''0.1'')]"

definition bearer_headers :: "string \<Rightarrow> header" where
  "bearer_headers key = hdr_set (hdr_set [] ''Authorization'' (''Bearer '' @ key)) ''Content-Type'' ''application/json''"

definition ask_request :: "Config \<Rightarrow> string \<Rightarrow> string \<Rightarrow> ai_request" where
  "ask_request c model prompt = \<lparr>ar_url = openrouter_url,
     ar_headers = hdr_set (hdr_set (bearer_headers (cf_openrouter_key c)) ''HTTP-Referer'' (cf_public_base_url c))
       ''X-Title'' ''Nexora AI Assistant'',
     ar_body = chat_body ''You are the Nexora operations assistant. Never invent operational facts.'' 500 model prompt\<rparr>"

text \<open>The answer of the assistant's provider is read as the cloud worker reads it.\<close>

definition askOpenRouter :: "Config \<Rightarrow> (ai_request \<Rightarrow> ai_reply) \<Rightarrow> string \<Rightarrow> string \<Rightarrow> string option" where
  "askOpenRouter c send model prompt = (case send (ask_request c model prompt) of
      AiTransport \<Rightarrow> None | AiStatus code \<Rightarrow> None | AiUndecodable code \<Rightarrow> None
    | AiChoices code choices \<Rightarrow>
        if \<not> is_2xx code then None
        else (case choices of [] \<Rightarrow> None
              | content # _ \<Rightarrow> if trim_space content = '''' then None else Some content))"

definition explain_request :: "Config \<Rightarrow> string \<Rightarrow> string \<Rightarrow> ai_request" where
  "explain_request c model prompt = \<lparr>ar_url = openrouter_url,
     ar_headers = hdr_set (hdr_set (bearer_headers (cf_openrouter_key c)) ''HTTP-Referer'' (cf_public_base_url c))
       ''X-Title'' ''Nexora AI'',
     ar_body = chat_body ''You explain job execution outcomes accurately and briefly.'' 300 model prompt\<rparr>"

definition agent_explain_request :: "agent_cfg \<Rightarrow> string \<Rightarrow> string \<Rightarrow> ai_request" where
  "agent_explain_request cfg model prompt = \<lparr>ar_url = openrouter_url,
     ar_headers = bearer_headers (ag_openrouter_key cfg),
     ar_body = chat_body ''You explain automation outcomes for operations engineers.'' 250 model prompt\<rparr>"

section \<open>The bodies are valid JSON\<close>

lemma value_in_tenth: "value_in stk ''0.1''"
  by (simp add: value_in_def value_read_def begin_value_def json_space_def is_digit_def num_zero_def)

lemma value_in_message:
  "stk \<noteq> [] \<Longrightarrow> length stk < max_nesting_depth \<Longrightarrow> value_in stk (chat_message role content)"
  unfolding chat_message_def by (rule value_in_object) auto

lemma chat_message_first: "hd (chat_message role content) = CHR ''{''"
  by (simp add: chat_message_def json_object_def)

lemma chat_body_valid: "json_valid (chat_body system tokens model prompt)"
proof -
  have "value_in [ParseObjectValue] (json_array [chat_message ''system'' system, chat_message ''user'' prompt])"
    by (rule value_in_array) (simp_all add: value_in_message chat_message_first json_space_def max_nesting_depth_def)
  then show ?thesis
    unfolding chat_body_def by (intro json_valid_object) (simp_all add: json_value_text_itoa value_in_tenth)
qed

text \<open>
  Whatever the question, the stored result or the configured model, each of the three
  requests is one valid JSON object: no text of a customer or of a target can leave its
  string. The assistant reads the provider's answer exactly as the cloud worker does.
\<close>
lemma ai_requests_valid:
  "json_valid (ar_body (ask_request c model prompt)) \<and> json_valid (ar_body (explain_request c model prompt)) \<and>
   json_valid (ar_body (agent_explain_request cfg model prompt)) \<and>
   askOpenRouter c send model prompt = callOpenRouter (send (ask_request c model prompt))"
  by (auto simp: ask_request_def explain_request_def agent_explain_request_def chat_body_valid askOpenRouter_def
      callOpenRouter_def split: ai_reply.split)

end
