(* ===== verification/Spec2Isabelle.thy ===== *)
theory Spec2Isabelle
  imports Budget Demo Private Server Startup Chat
begin

text \<open>
  Nexora is a control plane for operations: a customer submits an operation (a task with a
  target URL and a payload), a worker executes it against the target with retries, and the
  outcome is stored, billed and announced. The program is a set of Go services over one
  PostgreSQL database, Redis and DBOS. This development models the services under \<open>cmd/\<close>
  and \<open>internal/\<close> as HOL functions and proves what makes them correct.

  The parts and how they interact.

  \<^item> Gateway (\<open>cmd/gateway\<close>): the only public entrance. It verifies the caller's key or
    token at the Access service, replaces the identity headers, limits the request rate in
    Redis, and forwards each route to one of the services.
  \<^item> Access (\<open>cmd/access\<close>): tenants, users, API keys, tokens.
  \<^item> Operations (\<open>cmd/operations\<close>): stores operations, starts a durable workflow that puts
    an envelope on a Redis stream, leases operations to workers, takes their results, and
    keeps an outbox of events; a dispatcher posts them to Usage and a reaper takes back
    expired leases.
  \<^item> Usage (\<open>cmd/usage\<close>): the ledger, quotas, webhook endpoints with their outbox and
    dispatcher, and the live event stream.
  \<^item> Workers: the cloud worker (\<open>cmd/worker\<close>) reads the stream and uses the internal
    routes; the enterprise worker (\<open>cmd/enterprise-worker\<close>) polls through the gateway.
  \<^item> Acme (\<open>cmd/acme\<close>): a demonstration customer: target, webhook receiver and client.

  How the code is modelled.

  A handler is a function from its arguments, the request headers and the state to the new
  state, the list of external calls it issues (in order) and its reply, of type \<open>handler\<close>
  in \<open>Platform\<close>. The arguments come first: the clock, the identifiers it draws, the bound
  request body (\<open>None\<close> when \<open>c.Bind\<close> fails), and the failures of its database, Redis and
  DBOS calls (\<open>faults\<close>, numbered in the order of the calls), so that every error branch of
  the source is a branch of the model. Replies are JSON bodies, empty bodies, Echo errors
  with a status, or plain Go errors. The database is a record of tables, each a list of rows
  in insertion order; an SQL statement is a definition of its own, built from \<open>update_where\<close>,
  \<open>insert_new\<close> (for \<open>ON CONFLICT DO NOTHING\<close>), \<open>find_row\<close> and \<open>count_where\<close> in \<open>Prelude\<close>.
  Times are integers in nanoseconds. JSON texts stay strings; \<open>GoJSON\<close> has the scanner that
  decides their validity and the encoder of strings and objects.

  Concurrency. Each write is one statement or transaction, and a service may be interrupted
  between any two. \<open>op_step\<close> in \<open>Interleaving\<close> is the inductive relation of single writes,
  \<open>runs\<close> its labelled closure, and \<open>activation_is_run\<close> shows that each handler, workflow
  and background batch is a run of it. So the invariants proved along \<open>runs\<close> hold under every
  interleaving of any number of service instances. Two such machines extend it:
  \<open>bill_step\<close> adds the ledger of the Usage service, \<open>wh_step\<close> has the webhook dispatchers.

  The theories, in the order of the code.

  \<^item> \<open>Prelude\<close>, \<open>GoStd\<close>, \<open>GoJSON\<close>: tables, faults, the locales \<open>keyed_store\<close> (an insert
    keyed by a unique column), \<open>step_invariant\<close> (an invariant of a step relation) and
    \<open>working_session\<close> (a client that works under a lease), strings, numbers and JSON of the
    Go library.
  \<^item> \<open>Domain\<close> (\<open>internal/domain\<close>), \<open>Contracts\<close> (\<open>internal/contracts\<close>), \<open>Platform\<close>
    (\<open>internal/platform/http.go\<close> and \<open>security.go\<close>), \<open>Config\<close> (\<open>config.go\<close>), \<open>Schema\<close> and
    \<open>Sample\<close> (\<open>migrations/\<close>, and rows for the witnesses).
  \<^item> \<open>Statements\<close>, \<open>Operations\<close>, \<open>Leases\<close>, \<open>Poll\<close>: \<open>cmd/operations\<close>. The locale
    \<open>row_stmt\<close> holds the laws of an update of one row and is interpreted on every statement.
  \<^item> \<open>Interleaving\<close>, \<open>Lifecycle\<close>, \<open>Events\<close>, \<open>Handlers\<close>, \<open>Budget\<close>: the step relation and
    what every interleaving keeps: well-formed tables, the transition table as an abstract
    machine that is refined, permanence of terminal rows, the concurrency limit, one success
    event per operation, the attempt budget.
  \<^item> \<open>Submission\<close>, \<open>Outcomes\<close>, \<open>Isolation\<close>, \<open>Delivery\<close>, \<open>Journey\<close>: the handlers' results
    on every branch, isolation of tenants, delivery to workers, and whole journeys of an
    operation to success or to \<open>DEAD_LETTERED\<close>.
  \<^item> \<open>Usage\<close>, \<open>Webhooks\<close>, \<open>Billing\<close>: \<open>cmd/usage\<close> and billing across the two services.
  \<^item> \<open>Worker\<close>, \<open>Agent\<close>: the two workers; \<open>Access\<close>, \<open>Credentials\<close>: \<open>cmd/access\<close>;
    \<open>Gateway\<close>, \<open>Perimeter\<close>: \<open>cmd/gateway\<close>; \<open>Services\<close>, \<open>EndToEnd\<close>: the routes of the services
    and the composition of all of them behind the gateway; \<open>Cloud\<close>: the cloud worker with
    the internal routes and the ledger behind its calls; \<open>Private\<close>: the enterprise worker with
    the gateway, the Access service and the public worker routes behind its calls (both run
    the calls of a client against a server with \<open>run_calls\<close> of \<open>Prelude\<close>; the gateway's routes
    are matched as Echo documents it); \<open>Background\<close>: the ticker loops, the
    draining of the outbox and the recovery of expired leases; \<open>Acme\<close>, \<open>Demo\<close>: \<open>cmd/acme\<close> and
    its composition with the dispatcher and the submission handler.
  \<^item> \<open>Server\<close> (\<open>NewServer\<close> of \<open>http.go\<close>): a request through the middlewares of every service,
    with panics as an ending of their own, and the request identifier across the services;
    \<open>Loops\<close>: the loops of the two workers and of an event stream; \<open>Startup\<close> (\<open>resources.go\<close>
    and the \<open>main\<close> functions): the order in which a process opens and gives back its
    resources; \<open>Chat\<close>: the text of the requests to the AI provider.

  Parameters and assumptions. SHA-256, HMAC, bcrypt, JWT signing and parsing, random bytes
  and UUIDs are arguments; a property that needs something of them says so in a hypothesis
  (an injective hash of the keys at hand, a token that parses to what was signed, a fresh
  identifier). What Redis streams, DBOS, the target, the AI provider and the customer's
  endpoint answer is an argument too. Headers are canonicalised and looked up as \<open>net/http\<close>
  does; the reverse proxy removes the hop-by-hop headers as \<open>httputil\<close> does.

  Bounds and fuel. No definition uses fuel. The loops of the code run over batches, stream
  entries, models or counters and are structural recursions; the ticker loops are lists of
  the ticks they repeat, and the loops of the workers, which only an event from outside ends,
  are partial functions into \<open>option\<close>, proved to return exactly when that event happens. Sizes
  the code fixes are kept: batches of 50, 20 and 100 rows, 16 buffered events, 45 and 30
  second leases, eight webhook attempts, 64-bit durations and parses.

  Not modelled. The security and CORS middlewares of Echo (one argument of \<open>Server\<close>, with what
  the properties need of them as a hypothesis), log lines, and the shutdown of a server by a
  signal, which the code does not handle. \<open>time.Duration\<close> arithmetic of schedules is over
  integers except where the configuration multiplies. Isolation levels weaker than one
  statement at a time, and a database that loses committed data, are outside the model. The
  web consoles, build files and tests are not part of it.
\<close>

end
